(* ===== verification/Prelude.thy ===== *)
theory Prelude
  imports Main "HOL-Library.Word" "HOL-Library.Multiset" "HOL-Library.Sublist"
begin

text \<open>
  Shared vocabulary of the development: machine integers, the exceptions of
  \<open>SonyError.h\<close>, programs that pass a state and may throw, the pieces of the C++
  standard library on strings and numbers that the sources call (in the "C" locale), and
  the generic facts on lists and programs that the component theories use.
\<close>

unbundle bit_operations_syntax

type_synonym u8 = "8 word"
type_synonym u32 = "32 word"
type_synonym u64 = "64 word"

named_theorems prog_simps \<open>unfolding of the program combinators\<close>
named_theorems emits_intros \<open>what a program hands to the link, compositionally\<close>

section \<open>Exceptions\<close>

text \<open>\<open>SonyErrorCode\<close> and the two kinds of exception the sources tell apart: a
  \<open>SonyException\<close> (code and message), and any other \<open>std::exception\<close> (message).\<close>

datatype SonyErrorCode =
    Timeout | Disconnected | Unsupported | InvalidFrame | InvalidChecksum
  | InvalidResponse | TransportFailure | ProtocolViolation

fun errorCodeName :: "SonyErrorCode \<Rightarrow> string" where
  "errorCodeName Timeout = ''Timeout''"
| "errorCodeName Disconnected = ''Disconnected''"
| "errorCodeName Unsupported = ''Unsupported''"
| "errorCodeName InvalidFrame = ''InvalidFrame''"
| "errorCodeName InvalidChecksum = ''InvalidChecksum''"
| "errorCodeName InvalidResponse = ''InvalidResponse''"
| "errorCodeName TransportFailure = ''TransportFailure''"
| "errorCodeName ProtocolViolation = ''ProtocolViolation''"

datatype exn = SonyException SonyErrorCode string | StdException string

fun exn_what :: "exn \<Rightarrow> string" where
  "exn_what (SonyException c w) = w"
| "exn_what (StdException w) = w"

fun isTimeout :: "exn \<Rightarrow> bool" where
  "isTimeout (SonyException c w) = (c = Timeout)"
| "isTimeout (StdException w) = False"

section \<open>Programs: state passing with exceptions\<close>

text \<open>A method is a function from the state to a result or exception, and the state it
  leaves. An exception keeps the effects made before it, as in C++.\<close>

type_synonym ('s, 'a) prog = "'s \<Rightarrow> (exn + 'a) \<times> 's"

definition returnP :: "'a \<Rightarrow> ('s, 'a) prog" where
  [prog_simps]: "returnP x = (\<lambda>s. (Inr x, s))"

definition throwP :: "SonyErrorCode \<Rightarrow> string \<Rightarrow> ('s, 'a) prog" where
  [prog_simps]: "throwP c w = (\<lambda>s. (Inl (SonyException c w), s))"

definition bindP :: "('s, 'a) prog \<Rightarrow> ('a \<Rightarrow> ('s, 'b) prog) \<Rightarrow> ('s, 'b) prog" where
  [prog_simps]: "bindP m f = (\<lambda>s. case m s of (Inl e, s') \<Rightarrow> (Inl e, s') | (Inr x, s') \<Rightarrow> f x s')"

text \<open>\<open>try \<dots> catch (const SonyException& ex)\<close>: other exceptions pass through.\<close>

definition catchSony :: "('s, 'a) prog \<Rightarrow> (SonyErrorCode \<Rightarrow> string \<Rightarrow> ('s, 'a) prog) \<Rightarrow> ('s, 'a) prog" where
  [prog_simps]: "catchSony m h = (\<lambda>s. case m s of
      (Inl (SonyException c w), s') \<Rightarrow> h c w s'
    | (Inl (StdException w), s') \<Rightarrow> (Inl (StdException w), s')
    | (Inr x, s') \<Rightarrow> (Inr x, s'))"

text \<open>\<open>try \<dots> catch (const std::exception& ex)\<close>: the handler gets the exception.\<close>

definition catchAny :: "('s, 'a) prog \<Rightarrow> (exn \<Rightarrow> ('s, 'a) prog) \<Rightarrow> ('s, 'a) prog" where
  [prog_simps]: "catchAny m h = (\<lambda>s. case m s of (Inl e, s') \<Rightarrow> h e s' | (Inr x, s') \<Rightarrow> (Inr x, s'))"

text \<open>\<open>throw;\<close> of a caught exception, and a value computed from the state.\<close>

definition raiseP :: "exn \<Rightarrow> ('s, 'a) prog" where
  [prog_simps]: "raiseP e = (\<lambda>s. (Inl e, s))"

definition getP :: "('s \<Rightarrow> 'a) \<Rightarrow> ('s, 'a) prog" where
  [prog_simps]: "getP f = (\<lambda>s. (Inr (f s), s))"

text \<open>Computations that change no state, but may fail.\<close>

definition bindE :: "'e + 'a \<Rightarrow> ('a \<Rightarrow> 'e + 'b) \<Rightarrow> 'e + 'b" where
  "bindE m f = (case m of Inl e \<Rightarrow> Inl e | Inr x \<Rightarrow> f x)"

definition requireE :: "bool \<Rightarrow> 'e \<Rightarrow> 'e + unit" where
  "requireE b e = (if b then Inr () else Inl e)"

named_theorems return_iff \<open>when a fallible computation succeeds\<close>

lemma bindE_iff [return_iff]: "bindE m f = Inr y \<longleftrightarrow> (\<exists>x. m = Inr x \<and> f x = Inr y)"
  by (simp add: bindE_def split: sum.split)

lemma requireE_iff [return_iff]: "requireE b e = Inr u \<longleftrightarrow> b"
  by (simp add: requireE_def)

lemma bindE_simps [simp]: "bindE (Inr x) f = f x" "bindE (Inl e) f = Inl e"
  by (simp_all add: bindE_def)

lemma bind_return [simp]: "bindP (returnP x) f = f x"
  by (simp add: prog_simps)

lemma bind_throw [simp]: "bindP (throwP c w) f = throwP c w"
  by (simp add: prog_simps)

lemma run_return [simp]: "returnP x s = (Inr x, s)"
  by (simp add: returnP_def)

lemma run_throw [simp]: "throwP c w s = (Inl (SonyException c w), s)"
  by (simp add: throwP_def)

lemma bind_assoc: "bindP (bindP m f) g = bindP m (\<lambda>x. bindP (f x) g)"
  by (rule ext) (simp add: prog_simps split: prod.split sum.split)

definition modifyP :: "('s \<Rightarrow> 's) \<Rightarrow> ('s, unit) prog" where
  [prog_simps]: "modifyP f = (\<lambda>s. (Inr (), f s))"

text \<open>Branch on the state, without changing it.\<close>

definition ifP :: "('s \<Rightarrow> bool) \<Rightarrow> ('s, 'a) prog \<Rightarrow> ('s, 'a) prog \<Rightarrow> ('s, 'a) prog" where
  [prog_simps]: "ifP b m m' = (\<lambda>s. if b s then m s else m' s)"

text \<open>A frame rule for programs: from a state that satisfies the invariant \<open>I\<close>, the program
  ends in one that does, and an append-only observation \<open>obs\<close> of the state (the payloads
  handed to the link, say) grows only by elements that satisfy \<open>ok\<close>.\<close>

definition safeP :: "('s \<Rightarrow> bool) \<Rightarrow> ('s \<Rightarrow> 'o list) \<Rightarrow> ('o \<Rightarrow> bool) \<Rightarrow> ('s, 'a) prog \<Rightarrow> bool" where
  "safeP I obs ok m \<longleftrightarrow>
     (\<forall>s. I s \<longrightarrow> I (snd (m s)) \<and> (\<exists>xs. obs (snd (m s)) = obs s @ xs \<and> list_all ok xs))"

abbreviation emits :: "('s \<Rightarrow> 'o list) \<Rightarrow> ('o \<Rightarrow> bool) \<Rightarrow> ('s, 'a) prog \<Rightarrow> bool" where
  "emits \<equiv> safeP (\<lambda>_. True)"

lemma emits_def: "emits obs ok m \<longleftrightarrow> (\<forall>s. \<exists>xs. obs (snd (m s)) = obs s @ xs \<and> list_all ok xs)"
  by (simp add: safeP_def)

lemma emits_return [emits_intros]: "safeP I obs ok (returnP x)"
  by (simp add: safeP_def returnP_def)

lemma emits_throw [emits_intros]: "safeP I obs ok (throwP c w)"
  by (simp add: safeP_def throwP_def)

lemma emits_modify: "(\<And>s. obs (f s) = obs s) \<Longrightarrow> (\<And>s. I s \<Longrightarrow> I (f s)) \<Longrightarrow> safeP I obs ok (modifyP f)"
  by (simp add: safeP_def modifyP_def)

lemma emits_ifP [emits_intros]:
  "safeP I obs ok m \<Longrightarrow> safeP I obs ok m' \<Longrightarrow> safeP I obs ok (ifP b m m')"
  by (simp add: safeP_def ifP_def)

lemma emits_step:
  assumes "safeP I obs ok m" "m s = (r, s')" "I s"
  obtains xs where "I s'" "obs s' = obs s @ xs" "list_all ok xs"
proof -
  from assms(1,3) have "I (snd (m s))" "\<exists>xs. obs (snd (m s)) = obs s @ xs \<and> list_all ok xs"
    unfolding safeP_def by blast+
  with assms(2) show thesis by (auto intro: that)
qed

text \<open>Running on from a state that a first part reached.\<close>

lemma emits_then:
  assumes "safeP I obs ok m" "I s'" "obs s' = obs s @ xs" "list_all ok xs"
  shows "I (snd (m s')) \<and> (\<exists>xs. obs (snd (m s')) = obs s @ xs \<and> list_all ok xs)"
proof -
  obtain r s'' where ms: "m s' = (r, s'')" by (cases "m s'")
  from assms(1) ms assms(2) obtain ys where "I s''" "obs s'' = obs s' @ ys" "list_all ok ys"
    by (rule emits_step)
  with ms assms(3,4) show ?thesis by (auto intro!: exI [of _ "xs @ ys"])
qed

lemma emits_bind [emits_intros]:
  assumes m: "safeP I obs ok m" and f: "\<And>x. safeP I obs ok (f x)"
  shows "safeP I obs ok (bindP m f)"
  unfolding safeP_def
proof (intro allI impI)
  fix s assume I: "I s"
  obtain r s' where ms: "m s = (r, s')" by (cases "m s")
  from m ms I obtain xs where xs: "I s'" "obs s' = obs s @ xs" "list_all ok xs" by (rule emits_step)
  with emits_then [OF f xs]
  show "I (snd (bindP m f s)) \<and> (\<exists>xs. obs (snd (bindP m f s)) = obs s @ xs \<and> list_all ok xs)"
    by (cases r) (auto simp: bindP_def ms)
qed

lemma emits_catch [emits_intros]:
  assumes m: "safeP I obs ok m" and h: "\<And>c w. safeP I obs ok (h c w)"
  shows "safeP I obs ok (catchSony m h)"
  unfolding safeP_def
proof (intro allI impI)
  fix s assume I: "I s"
  obtain r s' where ms: "m s = (r, s')" by (cases "m s")
  from m ms I obtain xs where xs: "I s'" "obs s' = obs s @ xs" "list_all ok xs" by (rule emits_step)
  with emits_then [OF h xs]
  show "I (snd (catchSony m h s)) \<and> (\<exists>xs. obs (snd (catchSony m h s)) = obs s @ xs \<and> list_all ok xs)"
    by (auto simp: catchSony_def ms split: sum.split exn.split)
qed

lemma emits_catchAny [emits_intros]:
  assumes m: "safeP I obs ok m" and h: "\<And>e. safeP I obs ok (h e)"
  shows "safeP I obs ok (catchAny m h)"
  unfolding safeP_def
proof (intro allI impI)
  fix s assume I: "I s"
  obtain r s' where ms: "m s = (r, s')" by (cases "m s")
  from m ms I obtain xs where xs: "I s'" "obs s' = obs s @ xs" "list_all ok xs" by (rule emits_step)
  with emits_then [OF h xs]
  show "I (snd (catchAny m h s)) \<and> (\<exists>xs. obs (snd (catchAny m h s)) = obs s @ xs \<and> list_all ok xs)"
    by (auto simp: catchAny_def ms split: sum.split)
qed

lemma emits_raise [emits_intros]: "safeP I obs ok (raiseP e)"
  by (simp add: safeP_def raiseP_def)

lemma emits_get [emits_intros]: "safeP I obs ok (getP f)"
  by (simp add: safeP_def getP_def)

lemma emits_if [emits_intros]:
  "(b \<Longrightarrow> safeP I obs ok m) \<Longrightarrow> (\<not> b \<Longrightarrow> safeP I obs ok m') \<Longrightarrow> safeP I obs ok (if b then m else m')"
  by simp

lemma emits_let [emits_intros]: "safeP I obs ok (f x) \<Longrightarrow> safeP I obs ok (let y = x in f y)"
  by simp

lemma emits_mono: "safeP I obs ok m \<Longrightarrow> (\<And>x. ok x \<Longrightarrow> ok' x) \<Longrightarrow> safeP I obs ok' m"
  unfolding safeP_def by (meson list_all_iff)

section \<open>Characters and strings\<close>

text \<open>\<open>std::toupper\<close>, \<open>std::tolower\<close>, \<open>std::isspace\<close> and \<open>std::isdigit\<close> on an
  \<open>unsigned char\<close>, in the "C" locale.\<close>

definition toupperC :: "char \<Rightarrow> char" where
  "toupperC c = (let n = (of_char c :: nat) in if 97 \<le> n \<and> n \<le> 122 then char_of (n - 32) else c)"

definition tolowerC :: "char \<Rightarrow> char" where
  "tolowerC c = (let n = (of_char c :: nat) in if 65 \<le> n \<and> n \<le> 90 then char_of (n + 32) else c)"

definition isspaceC :: "char \<Rightarrow> bool" where
  "isspaceC c = (let n = (of_char c :: nat) in n = 32 \<or> (9 \<le> n \<and> n \<le> 13))"

definition isxdigitC :: "char \<Rightarrow> bool" where
  "isxdigitC c = (let n = (of_char c :: nat) in
     (48 \<le> n \<and> n \<le> 57) \<or> (65 \<le> n \<and> n \<le> 70) \<or> (97 \<le> n \<and> n \<le> 102))"

definition isdigitC :: "char \<Rightarrow> bool" where
  "isdigitC c = (let n = (of_char c :: nat) in 48 \<le> n \<and> n \<le> 57)"

lemma toupper_tolower [simp]: "toupperC (tolowerC c) = toupperC c"
  by (auto simp: toupperC_def tolowerC_def Let_def)

lemma tolower_toupper [simp]: "tolowerC (toupperC c) = tolowerC c"
  by (auto simp: toupperC_def tolowerC_def Let_def)

lemma tolower_tolower [simp]: "tolowerC (tolowerC c) = tolowerC c"
  by (auto simp: tolowerC_def Let_def)

lemma toupper_toupper [simp]: "toupperC (toupperC c) = toupperC c"
  by (auto simp: toupperC_def Let_def)

text \<open>\<open>haystack.find(needle) != npos\<close>.\<close>

fun containsStr :: "string \<Rightarrow> string \<Rightarrow> bool" where
  "containsStr needle [] = (needle = [])"
| "containsStr needle (c # cs) = (prefix needle (c # cs) \<or> containsStr needle cs)"

lemma containsStr_iff: "containsStr needle hay \<longleftrightarrow> sublist needle hay"
  by (induction hay) (auto simp: sublist_Cons_right)

section \<open>Decimal numbers\<close>

text \<open>\<open>std::to_string(int)\<close> and \<open>operator<<(int)\<close>.\<close>

definition digitChar :: "nat \<Rightarrow> char" where
  "digitChar n = char_of (48 + n)"

fun natDigits :: "nat \<Rightarrow> string" where
  "natDigits n = (if n < 10 then [digitChar n] else natDigits (n div 10) @ [digitChar (n mod 10)])"

declare natDigits.simps [simp del]

definition to_string_int :: "int \<Rightarrow> string" where
  "to_string_int i = (if i < 0 then CHR ''-'' # natDigits (nat (- i)) else natDigits (nat i))"

text \<open>\<open>std::stoi\<close>: leading white space, an optional sign, then the longest run of digits;
  \<open>None\<close> stands for \<open>invalid_argument\<close> (no digits) and \<open>out_of_range\<close>, which
  every caller in the sources catches together.\<close>

fun digitsVal :: "nat \<Rightarrow> string \<Rightarrow> nat" where
  "digitsVal acc [] = acc"
| "digitsVal acc (c # cs) = digitsVal (10 * acc + (of_char c - 48)) cs"

definition stoi :: "string \<Rightarrow> int option" where
  "stoi s =
     (let s1 = dropWhile isspaceC s;
          neg = (s1 \<noteq> [] \<and> hd s1 = CHR ''-'');
          s2 = (if s1 \<noteq> [] \<and> (hd s1 = CHR ''-'' \<or> hd s1 = CHR ''+'') then tl s1 else s1);
          ds = takeWhile isdigitC s2;
          v = (if neg then - int (digitsVal 0 ds) else int (digitsVal 0 ds))
      in if ds = [] then None
         else if - 2147483648 \<le> v \<and> v \<le> 2147483647 then Some v else None)"

lemma digitChar_digit [simp]: "n < 10 \<Longrightarrow> isdigitC (digitChar n)"
  by (simp add: isdigitC_def digitChar_def Let_def)

lemma of_digitChar [simp]: "n < 10 \<Longrightarrow> of_char (digitChar n) = 48 + n"
  by (simp add: digitChar_def)

lemma natDigits_digits: "c \<in> set (natDigits n) \<Longrightarrow> isdigitC c"
proof (induction n rule: natDigits.induct)
  case (1 n)
  show ?case
  proof (cases "n < 10")
    case True
    with "1.prems" show ?thesis by (simp add: natDigits.simps [of n])
  next
    case False
    with 1 show ?thesis by (auto simp: natDigits.simps [of n])
  qed
qed

lemma natDigits_nonempty [simp]: "natDigits n \<noteq> []"
  by (subst natDigits.simps) simp

lemma digitsVal_append: "digitsVal acc (xs @ ys) = digitsVal (digitsVal acc xs) ys"
  by (induction xs arbitrary: acc) auto

lemma digitsVal_natDigits [simp]: "digitsVal 0 (natDigits n) = n"
proof (induction n rule: natDigits.induct)
  case (1 n)
  show ?case
  proof (cases "n < 10")
    case True
    then show ?thesis by (simp add: natDigits.simps [of n])
  next
    case False
    with 1 show ?thesis by (simp add: natDigits.simps [of n] digitsVal_append)
  qed
qed

lemma takeWhile_natDigits: "takeWhile isdigitC (natDigits n) = natDigits n"
  by (simp add: natDigits_digits takeWhile_eq_all_conv)

lemma natDigits_hd: "isdigitC (hd (natDigits n))"
  by (meson list.set_sel(1) natDigits_digits natDigits_nonempty)

lemma digit_not_space: "isdigitC c \<Longrightarrow> \<not> isspaceC c"
  by (auto simp: isdigitC_def isspaceC_def Let_def)

lemma digit_not_sign: "isdigitC c \<Longrightarrow> c \<noteq> CHR ''-'' \<and> c \<noteq> CHR ''+''"
  by (auto simp: isdigitC_def Let_def)

lemma dropWhile_natDigits: "dropWhile isspaceC (natDigits n) = natDigits n"
  using natDigits_hd [of n] by (cases "natDigits n") (auto dest: digit_not_space)

lemma sign_not_space: "\<not> isspaceC (CHR ''-'')"
  by (simp add: isspaceC_def Let_def)

lemma stoi_to_string:
  assumes "- 2147483648 \<le> i" "i \<le> 2147483647"
  shows "stoi (to_string_int i) = Some i"
proof (cases "i < 0")
  case True
  with assms show ?thesis
    by (simp add: stoi_def to_string_int_def takeWhile_natDigits sign_not_space Let_def)
next
  case False
  with assms natDigits_hd [of "nat i"] show ?thesis
    by (auto simp: stoi_def to_string_int_def takeWhile_natDigits dropWhile_natDigits Let_def
             dest: digit_not_sign)
qed

section \<open>Integer conversions and clamping\<close>

text \<open>\<open>static_cast<uint8_t>\<close> of an \<open>int\<close> keeps the low eight bits;
  \<open>static_cast<int>\<close> of a byte is its unsigned value.\<close>

definition byteOf :: "int \<Rightarrow> u8" where
  "byteOf i = word_of_int i"

definition intOf :: "u8 \<Rightarrow> int" where
  "intOf b = uint b"

definition clamp :: "int \<Rightarrow> int \<Rightarrow> int \<Rightarrow> int" where
  "clamp v lo hi = (if v < lo then lo else if hi < v then hi else v)"

lemma clamp_bounds: "lo \<le> hi \<Longrightarrow> lo \<le> clamp v lo hi \<and> clamp v lo hi \<le> hi"
  by (simp add: clamp_def)

lemma clamp_id [simp]: "lo \<le> v \<Longrightarrow> v \<le> hi \<Longrightarrow> clamp v lo hi = v"
  by (simp add: clamp_def)

lemma intOf_range: "0 \<le> intOf b \<and> intOf b \<le> 255"
  using uint_lt2p [of b] by (simp add: intOf_def)

lemma intOf_bounds [simp]: "0 \<le> intOf b" "intOf b \<le> 255" "\<not> 0 < intOf b \<longleftrightarrow> intOf b = 0"
  using intOf_range [of b] by auto

lemma intOf_byteOf [simp]: "0 \<le> i \<Longrightarrow> i \<le> 255 \<Longrightarrow> intOf (byteOf i) = i"
  by (simp add: intOf_def byteOf_def uint_word_of_int)

lemma byteOf_intOf [simp]: "byteOf (intOf b) = b"
  by (simp add: intOf_def byteOf_def)

end
