(* ===== verification/FrameCodec.thy ===== *)
theory FrameCodec
  imports Prelude
begin

text \<open>
  The wire format: \<open>DataType.h\<close>, \<open>SonyFrame.h\<close> and \<open>FrameCodec.cpp\<close>. A frame is a
  type, a sequence number and a payload; on the wire it is a start marker, the escaped
  body (type, sequence, four length bytes, payload, checksum) and an end marker.
\<close>

section \<open>Data\<close>

text \<open>\<open>enum class DataType : uint8_t\<close>. The underlying type is fixed, so
  \<open>static_cast<DataType>\<close> of any byte is a value of the enumeration: the enumerators are
  names of some of the 256 values.\<close>

datatype DataType = DataType (underlying: u8)

definition DT_Ack :: DataType where [simp]: "DT_Ack = DataType 1"
definition DT_DataMdr :: DataType where [simp]: "DT_DataMdr = DataType 12"

definition dataTypeNames :: "(u8 \<times> string) list" where
  "dataTypeNames =
    [(0, ''Data''), (1, ''Ack''), (2, ''DataMcNo1''), (9, ''DataIcd''), (10, ''DataEv''),
     (12, ''DataMdr''), (13, ''DataCommon''), (14, ''DataMdrNo2''), (16, ''Shot''),
     (18, ''ShotMcNo1''), (25, ''ShotIcd''), (26, ''ShotEv''), (28, ''ShotMdr''),
     (29, ''ShotCommon''), (30, ''ShotMdrNo2''), (45, ''LargeDataCommon''), (255, ''Unknown'')]"

definition dataTypeName :: "DataType \<Rightarrow> string" where
  "dataTypeName t = (case map_of dataTypeNames (underlying t) of Some n \<Rightarrow> n | None \<Rightarrow> ''Unknown'')"

record SonyFrame =
  fr_type :: DataType
  fr_seq :: u8
  fr_payload :: "u8 list"

abbreviation mkFrame :: "DataType \<Rightarrow> u8 \<Rightarrow> u8 list \<Rightarrow> SonyFrame" where
  "mkFrame t q p \<equiv> \<lparr>fr_type = t, fr_seq = q, fr_payload = p\<rparr>"

definition START_MARKER :: u8 where [simp]: "START_MARKER = 0x3e"
definition END_MARKER :: u8 where [simp]: "END_MARKER = 0x3c"
definition ESCAPE_MARKER :: u8 where [simp]: "ESCAPE_MARKER = 0x3d"
definition ESCAPED_60 :: u8 where [simp]: "ESCAPED_60 = 0x2c"
definition ESCAPED_61 :: u8 where [simp]: "ESCAPED_61 = 0x2d"
definition ESCAPED_62 :: u8 where [simp]: "ESCAPED_62 = 0x2e"
definition MAX_FRAME_SIZE :: nat where [simp]: "MAX_FRAME_SIZE = 2048"
definition MIN_BODY_SIZE :: nat where [simp]: "MIN_BODY_SIZE = 7"

section \<open>Operations\<close>

fun escape :: "u8 list \<Rightarrow> u8 list" where
  "escape [] = []"
| "escape (b # bs) =
     (if b = END_MARKER then ESCAPE_MARKER # ESCAPED_60 # escape bs
      else if b = ESCAPE_MARKER then ESCAPE_MARKER # ESCAPED_61 # escape bs
      else if b = START_MARKER then ESCAPE_MARKER # ESCAPED_62 # escape bs
      else b # escape bs)"

fun unescape :: "u8 list \<Rightarrow> exn + u8 list" where
  "unescape [] = Inr []"
| "unescape [b] =
     (if b = ESCAPE_MARKER
      then Inl (SonyException InvalidFrame ''No data left for escaped byte data'')
      else Inr [b])"
| "unescape (b # c # cs) =
     (if b = ESCAPE_MARKER
      then (if c = ESCAPED_60 then map_sum id ((#) END_MARKER) (unescape cs)
            else if c = ESCAPED_61 then map_sum id ((#) ESCAPE_MARKER) (unescape cs)
            else if c = ESCAPED_62 then map_sum id ((#) START_MARKER) (unescape cs)
            else Inl (SonyException InvalidFrame ''Unexpected escaped byte''))
      else map_sum id ((#) b) (unescape (c # cs)))"

definition calculateChecksum :: "u8 list \<Rightarrow> u8" where
  "calculateChecksum bs = foldl (+) 0 bs"

text \<open>The header that \<open>encode\<close> builds, with the size bytes shifted out of the
  \<open>size_t\<close> length, and the body up to and including the checksum.\<close>

definition sizeBytes :: "nat \<Rightarrow> u8 list" where
  "sizeBytes n = (let p = (of_nat n :: u64) in
     [ucast (drop_bit 24 p AND 0xff), ucast (drop_bit 16 p AND 0xff),
      ucast (drop_bit 8 p AND 0xff), ucast (p AND 0xff)])"

definition frameBody :: "SonyFrame \<Rightarrow> u8 list" where
  "frameBody f =
     (let b = underlying (fr_type f) # fr_seq f # sizeBytes (length (fr_payload f)) @ fr_payload f
      in b @ [calculateChecksum b])"

definition encode :: "SonyFrame \<Rightarrow> exn + u8 list" where
  "encode f =
     (let escaped = escape (frameBody f) in
      if MAX_FRAME_SIZE < length escaped + 2
      then Inl (SonyException InvalidFrame
             ''Exceeded the max bluetooth message size, and I can't handle chunked messages'')
      else Inr (START_MARKER # escaped @ [END_MARKER]))"

definition dataSizeOf :: "u8 list \<Rightarrow> nat" where
  "dataSizeOf u = unat
     ((push_bit 24 (ucast (u ! 2)) OR push_bit 16 (ucast (u ! 3)) OR
       push_bit 8 (ucast (u ! 4)) OR ucast (u ! 5)) :: u64)"

definition decodeBody :: "u8 list \<Rightarrow> exn + SonyFrame" where
  "decodeBody body =
     (case unescape body of
        Inl e \<Rightarrow> Inl e
      | Inr u \<Rightarrow>
          if length u < MIN_BODY_SIZE
          then Inl (SonyException InvalidFrame ''Invalid message: Smaller than the minimum message size'')
          else let dataSize = dataSizeOf u in
            if length u < 6 + dataSize + 1
            then Inl (SonyException InvalidFrame ''Invalid message: declared size exceeds received data'')
            else if u ! (6 + dataSize) \<noteq> calculateChecksum (take (6 + dataSize) u)
            then Inl (SonyException InvalidChecksum ''Invalid checksum!'')
            else Inr (mkFrame (DataType (u ! 0)) (u ! 1) (take dataSize (drop 6 u))))"

definition decode :: "u8 list \<Rightarrow> exn + SonyFrame" where
  "decode bs =
     (if length bs < 2
      then Inl (SonyException InvalidFrame ''Frame too small for delimiters'')
      else if hd bs \<noteq> START_MARKER \<or> last bs \<noteq> END_MARKER
      then Inl (SonyException InvalidFrame ''Invalid frame delimiters'')
      else decodeBody (take (length bs - 2) (drop 1 bs)))"

section \<open>Escaping\<close>

lemma unescape_escape_append:
  "unescape (escape xs @ ys) = map_sum id ((@) xs) (unescape ys)"
proof (induction xs)
  case Nil
  then show ?case by (simp add: sum.map_id0 [unfolded id_def] id_def sum.map_ident)
next
  case (Cons b bs)
  have step: "unescape (b # zs) = map_sum id ((#) b) (unescape zs)" if "b \<noteq> ESCAPE_MARKER" for zs
    using that by (cases zs) auto
  show ?case using Cons step
    by (auto simp: sum.map_comp o_def id_def)
qed

lemma unescape_escape: "unescape (escape xs) = Inr xs"
  using unescape_escape_append [of xs "[]"] by simp

lemma escape_no_marker: "b \<in> set (escape xs) \<Longrightarrow> b \<noteq> START_MARKER \<and> b \<noteq> END_MARKER"
  by (induction xs) (auto split: if_splits)

lemma length_escape: "length xs \<le> length (escape xs) \<and> length (escape xs) \<le> 2 * length xs"
  by (induction xs) auto

lemma escape_append: "escape (xs @ ys) = escape xs @ escape ys"
  by (induction xs) auto

lemma escape_inj: "escape xs = escape ys \<Longrightarrow> xs = ys"
  by (metis sum.inject(2) unescape_escape)

text \<open>On marker-free input the decoder of escapes is exact: whatever it accepts is the
  escaped form of its result.\<close>

lemma escape_unescape:
  "unescape bs = Inr u \<Longrightarrow> START_MARKER \<notin> set bs \<Longrightarrow> END_MARKER \<notin> set bs \<Longrightarrow> escape u = bs"
proof (induction bs arbitrary: u rule: unescape.induct)
  case (3 b c cs)
  then show ?case by (cases "unescape cs"; cases "unescape (c # cs)") (auto split: if_splits)
qed (auto split: if_splits)

lemma unescape_error: "unescape bs = Inl e \<Longrightarrow> \<exists>w. e = SonyException InvalidFrame w"
proof (induction bs arbitrary: e rule: unescape.induct)
  case (3 b c cs)
  then show ?case by (cases "unescape cs"; cases "unescape (c # cs)") (auto split: if_splits)
qed (auto split: if_splits)

section \<open>Checksum and length bytes\<close>

lemma foldl_plus_acc: "foldl (+) (a :: u8) bs = a + foldl (+) 0 bs"
proof (induction bs arbitrary: a)
  case (Cons b bs)
  show ?case using Cons [of "a + b"] Cons [of b] by (simp add: add.assoc)
qed simp

lemma checksum_append: "calculateChecksum (xs @ ys) = calculateChecksum xs + calculateChecksum ys"
  unfolding calculateChecksum_def using foldl_plus_acc [of "foldl (+) 0 xs" ys] by simp

lemma checksum_Cons: "calculateChecksum (x # xs) = x + calculateChecksum xs"
  using checksum_append [of "[x]" xs] by (simp add: calculateChecksum_def)

lemma checksum_update:
  assumes "i < length bs"
  shows "calculateChecksum (bs[i := b]) = calculateChecksum bs - bs ! i + b"
proof -
  have split: "bs = take i bs @ bs ! i # drop (Suc i) bs"
    using assms by (simp add: id_take_nth_drop)
  have "bs[i := b] = take i bs @ b # drop (Suc i) bs"
    using assms by (simp add: upd_conv_take_nth_drop)
  then show ?thesis
    by (subst (2) split) (simp add: checksum_append checksum_Cons)
qed

lemma length_sizeBytes [simp]: "length (sizeBytes n) = 4"
  by (simp add: sizeBytes_def Let_def)

lemma low_byte: "ucast (w AND 0xff :: u64) = (ucast w :: u8)"
proof -
  have ff: "(0xff :: u64) = mask 8" by (simp add: mask_eq_exp_minus_1)
  show ?thesis unfolding ff by (rule bit_word_eqI) (simp add: bit_simps)
qed

lemma byte_of_join:
  fixes a b c d :: u8
  defines "w \<equiv> push_bit 24 (ucast a) OR push_bit 16 (ucast b) OR push_bit 8 (ucast c) OR (ucast d :: u64)"
  shows "ucast (drop_bit 24 w) = a" "ucast (drop_bit 16 w) = b" "ucast (drop_bit 8 w) = c" "ucast w = d"
proof -
  have big: "8 \<le> n \<Longrightarrow> \<not> bit (x :: u8) n" for x n
    using bit_imp_le_length [of x n] by auto
  show "ucast (drop_bit 24 w) = a" "ucast (drop_bit 16 w) = b" "ucast (drop_bit 8 w) = c" "ucast w = d"
    unfolding w_def
    by (rule bit_word_eqI;
        simp add: bit_or_iff bit_push_bit_iff bit_unsigned_iff bit_drop_bit_eq big)+
qed

lemma unat_less_of_take_bit:
  assumes "take_bit 32 (w :: u64) = w"
  shows "unat w < 2 ^ 32"
proof -
  have "unat (take_bit 32 w) < 2 ^ 32"
    by (simp only: unsigned_take_bit_eq take_bit_nat_less_exp)
  then show ?thesis by (simp only: assms)
qed

lemma join_less:
  fixes a b c d :: u8
  shows "unat (push_bit 24 (ucast a) OR push_bit 16 (ucast b) OR push_bit 8 (ucast c) OR (ucast d :: u64)) < 2 ^ 32"
proof -
  let ?w = "push_bit 24 (ucast a) OR push_bit 16 (ucast b) OR push_bit 8 (ucast c) OR (ucast d :: u64)"
  have byte: "take_bit n (ucast x :: u64) = ucast x" if "8 \<le> n" for n and x :: u8
    using that by (simp flip: unsigned_take_bit_eq add: take_bit_word_eq_self)
  have "take_bit 32 ?w = ?w"
    by (simp add: take_bit_push_bit byte)
  then show ?thesis by (rule unat_less_of_take_bit)
qed

text \<open>\<open>size_t\<close> to four bytes and back: the two directions of the length field.\<close>

lemma sizeBytes_alt: "sizeBytes n = (let p = (of_nat n :: u64) in
    [ucast (drop_bit 24 p), ucast (drop_bit 16 p), ucast (drop_bit 8 p), ucast p])"
  by (simp only: sizeBytes_def Let_def low_byte)

lemma bit_recombine:
  fixes p :: u64
  shows "push_bit 24 (ucast (ucast (drop_bit 24 p) :: u8)) OR
    push_bit 16 (ucast (ucast (drop_bit 16 p) :: u8)) OR
    push_bit 8 (ucast (ucast (drop_bit 8 p) :: u8)) OR
    ucast (ucast p :: u8) = take_bit 32 p"
proof (rule bit_word_eqI)
  fix n :: nat
  have less: "n < 8 \<or> 8 \<le> n \<and> n < 16 \<or> 16 \<le> n \<and> n < 24 \<or> 24 \<le> n \<and> n < 32 \<or> 32 \<le> n"
    by linarith
  show "bit (push_bit 24 (ucast (ucast (drop_bit 24 p) :: u8)) OR
    push_bit 16 (ucast (ucast (drop_bit 16 p) :: u8)) OR
    push_bit 8 (ucast (ucast (drop_bit 8 p) :: u8)) OR
    ucast (ucast p :: u8) :: u64) n \<longleftrightarrow> bit (take_bit 32 p) n"
    unfolding bit_or_iff bit_push_bit_iff bit_unsigned_iff bit_drop_bit_eq bit_take_bit_iff o_def
    using less bit_imp_le_length [of p n] by (elim disjE) auto
qed

lemma dataSize_sizeBytes:
  assumes "n < 2 ^ 32"
  shows "dataSizeOf (a # b # sizeBytes n @ rest) = n"
proof -
  have "dataSizeOf (a # b # sizeBytes n @ rest) = unat (take_bit 32 (of_nat n :: u64))"
    by (simp add: dataSizeOf_def sizeBytes_alt Let_def bit_recombine)
  also have "\<dots> = n"
    using assms by (simp add: unsigned_take_bit_eq unat_of_nat take_bit_nat_eq_self)
  finally show ?thesis .
qed

lemma sizeBytes_dataSize: "sizeBytes (dataSizeOf (x # y # a # b # c # d # rest)) = [a, b, c, d]"
proof -
  let ?w = "push_bit 24 (ucast a) OR push_bit 16 (ucast b) OR push_bit 8 (ucast c) OR (ucast d :: u64)"
  have "of_nat (dataSizeOf (x # y # a # b # c # d # rest)) = ?w"
    by (simp add: dataSizeOf_def)
  then show ?thesis
    unfolding sizeBytes_alt Let_def by (simp only: byte_of_join)
qed

lemma dataSize_less: "dataSizeOf u < 2 ^ 32"
  unfolding dataSizeOf_def by (rule join_less)

section \<open>What the decoder accepts\<close>

lemma length_frameBody [simp]: "length (frameBody f) = 7 + length (fr_payload f)"
  by (simp add: frameBody_def Let_def)

text \<open>The first six bytes and the payload: everything the checksum covers.\<close>

definition frameHead :: "SonyFrame \<Rightarrow> u8 list" where
  "frameHead f = underlying (fr_type f) # fr_seq f # sizeBytes (length (fr_payload f)) @ fr_payload f"

lemma frameBody_head: "frameBody f = frameHead f @ [calculateChecksum (frameHead f)]"
  by (simp add: frameBody_def frameHead_def Let_def)

lemma length_frameHead [simp]: "length (frameHead f) = 6 + length (fr_payload f)"
  by (simp add: frameHead_def)

lemma list6_split:
  assumes "6 \<le> length u"
  obtains x y a b c d rest where "u = x # y # a # b # c # d # rest"
  using assms by (auto simp: Suc_le_length_iff numeral_eq_Suc)

lemma decodeBody_accepts:
  assumes "length (fr_payload f) < 2 ^ 32" and u: "unescape body = Inr (frameBody f @ junk)"
  shows "decodeBody body = Inr f"
proof -
  let ?u = "frameBody f @ junk"
  have size: "dataSizeOf ?u = length (fr_payload f)"
    using assms(1) by (simp add: frameBody_head frameHead_def dataSize_sizeBytes)
  have head: "take (6 + length (fr_payload f)) ?u = frameHead f"
    by (simp add: frameBody_head)
  have chk: "?u ! (6 + length (fr_payload f)) = calculateChecksum (frameHead f)"
    by (simp add: frameBody_head nth_append)
  have pay: "take (length (fr_payload f)) (drop 6 ?u) = fr_payload f"
    by (simp add: frameBody_head frameHead_def numeral_eq_Suc)
  have hdr: "?u ! 0 = underlying (fr_type f)" "?u ! 1 = fr_seq f"
    by (simp_all add: frameBody_head frameHead_def)
  show ?thesis
    using size head chk pay hdr by (simp add: decodeBody_def u Let_def del: One_nat_def)
qed

lemma decodeBody_exact:
  assumes "decodeBody body = Inr f"
  shows "length (fr_payload f) < 2 ^ 32 \<and> (\<exists>junk. unescape body = Inr (frameBody f @ junk))"
proof -
  obtain u where u: "unescape body = Inr u"
    using assms by (cases "unescape body") (auto simp: decodeBody_def)
  let ?n = "dataSizeOf u"
  have len: "6 + ?n + 1 \<le> length u"
    and chk: "u ! (6 + ?n) = calculateChecksum (take (6 + ?n) u)"
    and f: "f = mkFrame (DataType (u ! 0)) (u ! 1) (take ?n (drop 6 u))"
    using assms by (auto simp: decodeBody_def u Let_def split: if_splits)
  from len have "6 \<le> length u" by simp
  then obtain x y a b c d rest where ul: "u = x # y # a # b # c # d # rest"
    by (rule list6_split)
  have n: "?n \<le> length rest" using len ul by simp
  have head: "frameHead f = take (6 + ?n) u"
    using n sizeBytes_dataSize [of x y a b c d rest]
    by (simp add: f frameHead_def ul min_absorb2 numeral_eq_Suc)
  have "frameBody f @ drop (7 + ?n) u = take (6 + ?n) u @ u ! (6 + ?n) # drop (Suc (6 + ?n)) u"
    by (simp add: frameBody_head head chk)
  also have "\<dots> = u" by (rule id_take_nth_drop [symmetric]) (use len in simp)
  finally have "unescape body = Inr (frameBody f @ drop (7 + ?n) u)" by (simp add: u)
  moreover have "length (fr_payload f) < 2 ^ 32"
    using dataSize_less [of u] n ul by (simp add: f)
  ultimately show ?thesis by blast
qed

lemma decode_delimited: "decode (START_MARKER # body @ [END_MARKER]) = decodeBody body"
  by (simp add: decode_def)

lemmas decode_delimited_num = decode_delimited [simplified]

lemma decode_cases:
  assumes "decode bs = Inr f"
  obtains body where "bs = START_MARKER # body @ [END_MARKER]" "decodeBody body = Inr f"
proof -
  from assms have len: "2 \<le> length bs" and ends: "hd bs = START_MARKER" "last bs = END_MARKER"
    and body: "decodeBody (take (length bs - 2) (drop 1 bs)) = Inr f"
    by (auto simp: decode_def split: if_splits)
  obtain x ys where bs: "bs = x # ys" "ys \<noteq> []" using len by (cases bs) (auto simp: Suc_le_length_iff)
  then have "x # butlast ys @ [last ys] = bs" by simp
  with bs ends have "bs = START_MARKER # butlast ys @ [END_MARKER]" by simp
  moreover have "take (length bs - 2) (drop 1 bs) = butlast ys"
    using bs by (simp add: butlast_conv_take)
  ultimately show thesis using that body by simp
qed

lemma encode_shape:
  assumes "encode f = Inr bs"
  shows "bs = START_MARKER # escape (frameBody f) @ [END_MARKER] \<and> length bs \<le> MAX_FRAME_SIZE"
  using assms by (auto simp: encode_def Let_def split: if_splits)

lemma encode_payload_bound: "encode f = Inr bs \<Longrightarrow> length (fr_payload f) \<le> 2039"
  using length_escape [of "frameBody f"] by (auto simp: encode_def Let_def split: if_splits)

lemma decode_encode: "encode f = Inr bs \<Longrightarrow> decode bs = Inr f"
  using encode_shape [of f bs] encode_payload_bound [of f bs]
  by (simp add: decode_delimited_num decodeBody_accepts [where junk = "[]"] unescape_escape)

lemma encode_total: "length (fr_payload f) \<le> 1016 \<Longrightarrow> \<exists>bs. encode f = Inr bs"
  using length_escape [of "frameBody f"] by (auto simp: encode_def Let_def)

section \<open>Correctness of the codec\<close>

text \<open>C4: Decoding inverts encoding: every frame that \<open>encode\<close> puts on the wire is read
  back by \<open>decode\<close> as the same type, sequence number and payload, so no two frames have
  the same bytes.\<close>

theorem encode_decode:
  assumes "encode f = Inr bs"
  shows "decode bs = Inr f \<and> (\<forall>g. encode g = Inr bs \<longrightarrow> g = f)"
  using decode_encode [OF assms] decode_encode [of _ bs] by auto

theorem encode_decode_witness:
  "decode [0x3e, 0x0c, 0x01, 0, 0, 0, 0x02, 0x3d, 0x2e, 0x3d, 0x2d, 0x8a, 0x3c]
   = Inr (mkFrame DT_DataMdr 1 [0x3e, 0x3d])"
  by (rule encode_decode [THEN conjunct1]) code_simp

text \<open>C11: What \<open>encode\<close> produces is a well-formed wire frame: delimited by the two markers,
  with no marker byte inside (so a reader can always find its end), and within
  \<open>MAX_FRAME_SIZE\<close>; and it produces one for every payload of at most 1016 bytes,
  whatever its contents.\<close>

theorem encode_wellformed:
  "(encode f = Inr bs \<longrightarrow> (\<exists>body. bs = START_MARKER # body @ [END_MARKER] \<and>
      START_MARKER \<notin> set body \<and> END_MARKER \<notin> set body \<and> length bs \<le> MAX_FRAME_SIZE)) \<and>
   (length (fr_payload f) \<le> 1016 \<longrightarrow> (\<exists>bs. encode f = Inr bs))"
proof (intro conjI impI)
  assume "encode f = Inr bs"
  from encode_shape [OF this] show "\<exists>body. bs = START_MARKER # body @ [END_MARKER] \<and>
      START_MARKER \<notin> set body \<and> END_MARKER \<notin> set body \<and> length bs \<le> MAX_FRAME_SIZE"
    using escape_no_marker by blast
next
  assume "length (fr_payload f) \<le> 1016"
  then show "\<exists>bs. encode f = Inr bs" by (rule encode_total)
qed

theorem encode_wellformed_witness:
  "\<exists>body. [0x3e, 0x01, 0, 0, 0, 0, 0, 0x01, 0x3c] = START_MARKER # body @ [END_MARKER] \<and>
     START_MARKER \<notin> set body \<and> END_MARKER \<notin> set body \<and>
     length [0x3e, 0x01, 0, 0, 0, 0, 0, 0x01, 0x3c :: u8] \<le> MAX_FRAME_SIZE"
proof -
  have "encode (mkFrame DT_Ack 0 []) = Inr [0x3e, 0x01, 0, 0, 0, 0, 0, 0x01, 0x3c]"
    by code_simp
  with encode_wellformed [of "mkFrame DT_Ack 0 []" "[0x3e, 0x01, 0, 0, 0, 0, 0, 0x01, 0x3c]"]
  show ?thesis by blast
qed

text \<open>The decoder accepts exactly the delimited byte strings whose unescaped body is the
  frame's own body (header, payload, correct checksum), possibly followed by extra bytes
  that it ignores. Nothing else is accepted, so a frame the program acts on always had
  its declared length present and its checksum verified.\<close>

theorem decode_iff:
  "decode bs = Inr f \<longleftrightarrow>
     length (fr_payload f) < 2 ^ 32 \<and>
     (\<exists>body junk. bs = START_MARKER # body @ [END_MARKER] \<and>
        unescape body = Inr (frameBody f @ junk))"
proof
  assume "decode bs = Inr f"
  then show "length (fr_payload f) < 2 ^ 32 \<and> (\<exists>body junk. bs = START_MARKER # body @ [END_MARKER] \<and>
        unescape body = Inr (frameBody f @ junk))"
    by (elim decode_cases) (blast dest: decodeBody_exact)
qed (auto simp only: decode_delimited decodeBody_accepts)



text \<open>The decoder is total on arbitrary bytes and fails only with the two frame errors:
  no input makes it read out of range or throw anything else.\<close>

theorem decode_errors:
  "decode bs = Inl e \<Longrightarrow> \<exists>w. e = SonyException InvalidFrame w \<or> e = SonyException InvalidChecksum w"
  by (auto simp: decode_def decodeBody_def Let_def split: if_splits sum.splits dest: unescape_error)

theorem decode_errors_witness:
  "\<exists>w. SonyException InvalidFrame ''Invalid frame delimiters'' = SonyException InvalidFrame w \<or>
       SonyException InvalidFrame ''Invalid frame delimiters'' = SonyException InvalidChecksum w"
  by (rule decode_errors [of "[0x3e, 0x3d]"]) code_simp

section \<open>Markers as constants\<close>

text \<open>The layers above only need the markers to be different, not their values.\<close>

lemmas marker_defs = START_MARKER_def END_MARKER_def ESCAPE_MARKER_def
  ESCAPED_60_def ESCAPED_61_def ESCAPED_62_def

lemma marker_distinct:
  "START_MARKER \<noteq> END_MARKER" "END_MARKER \<noteq> START_MARKER"
  by simp_all

declare marker_defs [simp del]
declare marker_distinct [simp]

end
