(* ===== verification/StreamParser.thy ===== *)
theory StreamParser
  imports FrameCodec
begin

text \<open>
  \<open>SonyProtocolSession::_parseStream\<close>: finding frames in the byte stream, whatever
  pieces the transport delivers it in. The parser works on the stream buffer alone, so it
  is modelled as a function from the buffer to the decoded frames and the bytes kept.
\<close>

section \<open>The parser\<close>

definition isMarker :: "u8 \<Rightarrow> bool" where
  "isMarker b \<longleftrightarrow> b = START_MARKER \<or> b = END_MARKER"

lemma dropWhile_shorter: "dropWhile P xs = y # ys \<Longrightarrow> length ys < length xs"
  by (metis length_Cons length_dropWhile_le less_eq_Suc_le)

text \<open>One turn of the \<open>while (true)\<close> loop per call: skip to a start marker (or drop
  everything), look for the next marker, restart at a second start marker, keep an
  unfinished frame (dropping its start marker once the buffer is over the limit), and
  decode a finished one, dropping it when it is corrupt.\<close>

function parseStream :: "u8 list \<Rightarrow> SonyFrame list \<times> u8 list" where
  "parseStream buf =
     (case dropWhile (\<lambda>b. b \<noteq> START_MARKER) buf of
        [] \<Rightarrow> ([], [])
      | s # rest \<Rightarrow>
          (case dropWhile (\<lambda>b. \<not> isMarker b) rest of
             [] \<Rightarrow> ([], if MAX_FRAME_SIZE * 2 < length (s # rest) then rest else s # rest)
           | m # rs \<Rightarrow>
               if m = START_MARKER then parseStream (m # rs)
               else let (fs, left) = parseStream rs
                    in (case decode (s # takeWhile (\<lambda>b. \<not> isMarker b) rest @ [m]) of
                          Inr f \<Rightarrow> f # fs
                        | Inl _ \<Rightarrow> fs, left)))"
  by pat_completeness auto

termination
proof (relation "measure length")
  fix buf s rest m rs
  assume a: "dropWhile (\<lambda>b. b \<noteq> START_MARKER) buf = s # rest"
    and b: "dropWhile (\<lambda>b. \<not> isMarker b) rest = m # rs"
  from dropWhile_shorter [OF a] dropWhile_shorter [OF b]
  show "(m # rs, buf) \<in> measure length" "(rs, buf) \<in> measure length" by simp_all
qed simp

declare parseStream.simps [simp del]

text \<open>Successive \<open>receive\<close> results, each appended to what the last parse kept.\<close>

fun feedStream :: "u8 list \<Rightarrow> u8 list list \<Rightarrow> SonyFrame list \<times> u8 list" where
  "feedStream left [] = ([], left)"
| "feedStream left (c # cs) =
     (let (fs, left') = parseStream (left @ c); (gs, left'') = feedStream left' cs
      in (fs @ gs, left''))"

section \<open>One turn of the loop\<close>

lemma parse_none: "dropWhile (\<lambda>b. b \<noteq> START_MARKER) buf = [] \<Longrightarrow> parseStream buf = ([], [])"
  by (subst parseStream.simps) (simp del: dropWhile_eq_Nil_conv)

lemma parse_open:
  "dropWhile (\<lambda>b. b \<noteq> START_MARKER) buf = s # rest \<Longrightarrow> dropWhile (\<lambda>b. \<not> isMarker b) rest = [] \<Longrightarrow>
   parseStream buf = ([], if MAX_FRAME_SIZE * 2 < length (s # rest) then rest else s # rest)"
  by (subst parseStream.simps) (simp del: dropWhile_eq_Nil_conv)

lemma parse_restart:
  "dropWhile (\<lambda>b. b \<noteq> START_MARKER) buf = s # rest \<Longrightarrow> dropWhile (\<lambda>b. \<not> isMarker b) rest = m # rs \<Longrightarrow>
   m = START_MARKER \<Longrightarrow> parseStream buf = parseStream (m # rs)"
  by (subst parseStream.simps) simp

lemma parse_close:
  "dropWhile (\<lambda>b. b \<noteq> START_MARKER) buf = s # rest \<Longrightarrow> dropWhile (\<lambda>b. \<not> isMarker b) rest = m # rs \<Longrightarrow>
   m \<noteq> START_MARKER \<Longrightarrow> parseStream buf =
     (case decode (s # takeWhile (\<lambda>b. \<not> isMarker b) rest @ [m]) of
        Inr f \<Rightarrow> f # fst (parseStream rs) | Inl _ \<Rightarrow> fst (parseStream rs), snd (parseStream rs))"
  by (subst parseStream.simps) (simp add: case_prod_unfold Let_def split: sum.split)

lemma dropWhile_start: "dropWhile (\<lambda>b. b \<noteq> START_MARKER) buf = s # rest \<Longrightarrow> s = START_MARKER"
  using hd_dropWhile [of "\<lambda>b. b \<noteq> START_MARKER" buf] by simp

section \<open>One frame at a time\<close>

lemma parseStream_skip:
  "START_MARKER \<notin> set noise \<Longrightarrow> parseStream (noise @ bs) = parseStream bs"
proof -
  assume "START_MARKER \<notin> set noise"
  then have "dropWhile (\<lambda>b. b \<noteq> START_MARKER) (noise @ bs) = dropWhile (\<lambda>b. b \<noteq> START_MARKER) bs"
    by (induction noise) auto
  then show ?thesis
    by (simp add: parseStream.simps [of "noise @ bs"] parseStream.simps [of bs])
qed

lemma parseStream_noise: "START_MARKER \<notin> set noise \<Longrightarrow> parseStream noise = ([], [])"
  using parseStream_skip [of noise "[]"] by (simp add: parseStream.simps [of "[]"])

lemma parseStream_frame:
  assumes "\<forall>b \<in> set body. \<not> isMarker b"
  shows "parseStream (START_MARKER # body @ END_MARKER # rs) =
    (case decode (START_MARKER # body @ [END_MARKER]) of
        Inr f \<Rightarrow> f # fst (parseStream rs) | Inl _ \<Rightarrow> fst (parseStream rs),
     snd (parseStream rs))"
proof -
  have "takeWhile (\<lambda>b. \<not> isMarker b) (body @ END_MARKER # rs) = body"
    and drop: "dropWhile (\<lambda>b. \<not> isMarker b) (body @ END_MARKER # rs) = END_MARKER # rs"
    using assms by (auto simp: isMarker_def takeWhile_append2 dropWhile_append2)
  then show ?thesis by (subst parse_close [OF _ drop]) auto
qed

lemma parseStream_restart:
  assumes "\<forall>b \<in> set body. \<not> isMarker b"
  shows "parseStream (START_MARKER # body @ START_MARKER # rs) = parseStream (START_MARKER # rs)"
proof -
  have drop: "dropWhile (\<lambda>b. \<not> isMarker b) (body @ START_MARKER # rs) = START_MARKER # rs"
    using assms by (auto simp: isMarker_def dropWhile_append2)
  show ?thesis by (rule parse_restart [OF _ drop]) auto
qed

lemma parseStream_partial:
  assumes "\<forall>b \<in> set body. \<not> isMarker b" "length body < 4096"
  shows "parseStream (START_MARKER # body) = ([], START_MARKER # body)"
  using assms by (subst parse_open [of _ START_MARKER body]) auto

section \<open>Splitting the stream\<close>

text \<open>The kept bytes are empty or an unfinished frame, unless the limit made the parser
  drop a start marker; short of that, parsing in two pieces is parsing at once.\<close>

definition atFrame :: "u8 list \<Rightarrow> bool" where
  "atFrame l \<longleftrightarrow> l = [] \<or> hd l = START_MARKER"

lemma dropWhile_cut:
  assumes "dropWhile P xs = y # ys"
  shows "dropWhile P (xs @ zs) = y # ys @ zs \<and> takeWhile P (xs @ zs) = takeWhile P xs"
  using assms by (induction xs) (auto split: if_splits)

lemma parseStream_append:
  assumes "atFrame (snd (parseStream a))"
  shows "parseStream (a @ b) =
    (fst (parseStream a) @ fst (parseStream (snd (parseStream a) @ b)),
     snd (parseStream (snd (parseStream a) @ b)))"
  using assms
proof (induction a rule: parseStream.induct)
  case (1 a)
  show ?case
  proof (cases "dropWhile (\<lambda>b. b \<noteq> START_MARKER) a")
    case Nil
    then have "START_MARKER \<notin> set a" by auto
    then show ?thesis by (simp add: parseStream_skip parseStream_noise)
  next
    case (Cons s rest)
    note a = Cons and s = dropWhile_start [OF Cons]
    have ab: "dropWhile (\<lambda>b. b \<noteq> START_MARKER) (a @ b) = s # rest @ b"
      using dropWhile_cut [OF a] by blast
    show ?thesis
    proof (cases "dropWhile (\<lambda>b. \<not> isMarker b) rest")
      case Nil
      have clean: "\<forall>b \<in> set rest. \<not> isMarker b" using Nil by simp
      note pa = parse_open [OF a Nil]
      have "parseStream a = ([], s # rest)"
      proof (cases "MAX_FRAME_SIZE * 2 < length (s # rest)")
        case True
        then have "rest \<noteq> []" "snd (parseStream a) = rest" using pa by auto
        with "1.prems" clean show ?thesis by (auto simp: atFrame_def isMarker_def)
      qed (use pa in simp)
      moreover have "parseStream (a @ b) = parseStream (s # rest @ b)"
        unfolding parseStream.simps [of "a @ b"] parseStream.simps [of "s # rest @ b"]
        by (simp add: ab s)
      ultimately show ?thesis by simp
    next
      case (Cons m rs)
      have cut: "dropWhile (\<lambda>b. \<not> isMarker b) (rest @ b) = m # rs @ b"
        "takeWhile (\<lambda>b. \<not> isMarker b) (rest @ b) = takeWhile (\<lambda>b. \<not> isMarker b) rest"
        using dropWhile_cut [OF Cons] by auto
      show ?thesis
      proof (cases "m = START_MARKER")
        case True
        from "1.IH"(1) [OF a Cons True] "1.prems" show ?thesis
          by (simp add: parse_restart [OF a Cons True] parse_restart [OF ab cut(1) True])
      next
        case False
        from "1.IH"(2) [OF a Cons False] "1.prems" show ?thesis
          by (simp add: parse_close [OF a Cons False] parse_close [OF ab cut(1) False] cut(2)
              split: sum.split)
      qed
    qed
  qed
qed

section \<open>The bytes kept between reads\<close>

text \<open>What a parse keeps: nothing, an unfinished frame within the limit, or (once the limit
  is passed) marker-free bytes that the next parse discards.\<close>

definition streamOk :: "u8 list \<Rightarrow> bool" where
  "streamOk l \<longleftrightarrow> l = [] \<or>
     (\<exists>body. l = START_MARKER # body \<and> (\<forall>b \<in> set body. \<not> isMarker b) \<and> length l \<le> 4096) \<or>
     (\<forall>b \<in> set l. \<not> isMarker b)"

lemma parseStream_keeps: "streamOk (snd (parseStream buf)) \<and> length (snd (parseStream buf)) \<le> length buf"
proof (induction buf rule: parseStream.induct)
  case (1 buf)
  show ?case
  proof (cases "dropWhile (\<lambda>b. b \<noteq> START_MARKER) buf")
    case Nil
    then show ?thesis by (simp add: parse_none streamOk_def del: dropWhile_eq_Nil_conv)
  next
    case (Cons s rest)
    note a = Cons and s = dropWhile_start [OF Cons] and len = dropWhile_shorter [OF Cons]
    show ?thesis
    proof (cases "dropWhile (\<lambda>b. \<not> isMarker b) rest")
      case Nil
      then show ?thesis using len s by (auto simp: parse_open [OF a Nil] streamOk_def)
    next
      case (Cons m rs)
      note len' = dropWhile_shorter [OF Cons]
      show ?thesis
      proof (cases "m = START_MARKER")
        case True
        with "1.IH"(1) [OF a Cons True] len len' show ?thesis
          by (auto simp: parse_restart [OF a Cons True])
      next
        case False
        with "1.IH"(2) [OF a Cons False] len len' show ?thesis
          by (auto simp: parse_close [OF a Cons False])
      qed
    qed
  qed
qed

lemma parseStream_suffix: "suffix (snd (parseStream buf)) buf"
proof (induction buf rule: parseStream.induct)
  case (1 buf)
  have drop: "suffix (dropWhile P xs) xs" for P and xs :: "u8 list"
    by (rule suffix_dropWhile)
  show ?case
  proof (cases "dropWhile (\<lambda>b. b \<noteq> START_MARKER) buf")
    case Nil
    then show ?thesis by (simp add: parse_none del: dropWhile_eq_Nil_conv)
  next
    case (Cons s rest)
    note a = Cons
    have buf: "suffix (s # rest) buf" using drop [of _ buf] a by metis
    show ?thesis
    proof (cases "dropWhile (\<lambda>b. \<not> isMarker b) rest")
      case Nil
      then show ?thesis using buf suffix_ConsD [OF buf] by (auto simp: parse_open [OF a Nil])
    next
      case (Cons m rs)
      have rest: "suffix (m # rs) buf"
        using drop [of _ rest] Cons suffix_ConsD [OF buf] by (metis suffix_order.trans)
      show ?thesis
      proof (cases "m = START_MARKER")
        case True
        with "1.IH"(1) [OF a Cons True] rest show ?thesis
          by (metis parse_restart [OF a Cons True] suffix_order.trans)
      next
        case False
        with "1.IH"(2) [OF a Cons False] suffix_ConsD [OF rest] show ?thesis
          by (auto simp: parse_close [OF a Cons False] intro: suffix_order.trans)
      qed
    qed
  qed
qed

section \<open>Reassembly\<close>

lemma encoded_frame_body:
  assumes "encode f = Inr w"
  obtains body where "w = START_MARKER # body @ [END_MARKER]" "\<forall>b \<in> set body. \<not> isMarker b"
    "length body \<le> 2046"
proof -
  have "w = START_MARKER # escape (frameBody f) @ [END_MARKER]" "length w \<le> 2048"
    using encode_shape [OF assms] by auto
  moreover have "\<forall>b \<in> set (escape (frameBody f)). \<not> isMarker b"
    using escape_no_marker by (auto simp: isMarker_def)
  ultimately show thesis using that [of "escape (frameBody f)"] by simp
qed

lemma parseStream_encoded:
  assumes "encode f = Inr w"
  shows "parseStream (w @ rs) = (f # fst (parseStream rs), snd (parseStream rs))"
proof -
  obtain body where w: "w = START_MARKER # body @ [END_MARKER]" and clean: "\<forall>b \<in> set body. \<not> isMarker b"
    using assms by (rule encoded_frame_body)
  from decode_encode [OF assms] w clean show ?thesis using parseStream_frame [OF clean, of rs] by simp
qed

text \<open>A transmission: frames, each after some line noise without a start marker.\<close>

definition transmission :: "(u8 list \<times> SonyFrame \<times> u8 list) list \<Rightarrow> bool" where
  "transmission items \<longleftrightarrow>
     (\<forall>(noise, f, w) \<in> set items. START_MARKER \<notin> set noise \<and> encode f = Inr w)"

definition wireBytes :: "(u8 list \<times> SonyFrame \<times> u8 list) list \<Rightarrow> u8 list" where
  "wireBytes items = concat (map (\<lambda>(noise, f, w). noise @ w) items)"

lemma parseStream_transmission:
  "transmission items \<Longrightarrow> parseStream (wireBytes items) = (map (\<lambda>(_, f, _). f) items, [])"
proof (induction items)
  case Nil
  then show ?case by (simp add: wireBytes_def parseStream.simps [of "[]"])
next
  case (Cons it items)
  obtain noise f w where it: "it = (noise, f, w)" by (cases it) auto
  with Cons.prems have "START_MARKER \<notin> set noise" "encode f = Inr w" "transmission items"
    by (auto simp: transmission_def)
  with Cons.IH show ?case
    by (simp add: it wireBytes_def parseStream_skip parseStream_encoded)
qed

text \<open>Any prefix of a transmission leaves the parser at a frame boundary or inside one
  frame, never over the limit.\<close>

lemma atFrame_prefix:
  assumes "transmission items" "prefix p (wireBytes items)"
  shows "atFrame (snd (parseStream p))"
  using assms
proof (induction items arbitrary: p)
  case Nil
  then show ?case by (simp add: wireBytes_def parseStream.simps [of "[]"] atFrame_def)
next
  case (Cons it items)
  obtain noise f w where it: "it = (noise, f, w)" by (cases it) auto
  with Cons.prems have noise: "START_MARKER \<notin> set noise" and w: "encode f = Inr w" and "transmission items"
    by (auto simp: transmission_def)
  have "prefix p (noise @ w @ wireBytes items)"
    using Cons.prems(2) by (simp add: it wireBytes_def)
  then consider "prefix p noise" | q where "p = noise @ q" "prefix q w"
    | q where "p = noise @ w @ q" "prefix q (wireBytes items)"
    by (auto simp: prefix_append)
  then show ?case
  proof cases
    case 1
    then have "START_MARKER \<notin> set p" using noise by (auto dest: set_mono_prefix)
    then show ?thesis by (simp add: parseStream_noise atFrame_def)
  next
    case (2 q)
    obtain body where body: "w = START_MARKER # body @ [END_MARKER]" "\<forall>b \<in> set body. \<not> isMarker b"
      "length body \<le> 2046" using w by (rule encoded_frame_body)
    from 2(2) consider "q = []" | q' where "q = START_MARKER # q'" "prefix q' body" | "q = w"
      by (auto simp: body(1) prefix_Cons prefix_snoc)
    then show ?thesis
    proof cases
      case (2 q')
      then have "\<forall>b \<in> set q'. \<not> isMarker b" "length q' < 4096"
        using body(2,3) by (auto dest: set_mono_prefix prefix_length_le)
      then show ?thesis
        using 2 \<open>p = noise @ q\<close> noise by (simp add: parseStream_skip parseStream_partial atFrame_def)
    next
      case 3
      then show ?thesis using \<open>p = noise @ q\<close> noise parseStream_encoded [OF w, of "[]"]
        by (simp add: parseStream_skip parseStream_noise [of "[]", simplified] atFrame_def)
    qed (use \<open>p = noise @ q\<close> noise in \<open>simp add: parseStream_noise atFrame_def\<close>)
  next
    case (3 q)
    then show ?thesis using Cons.IH [of q] \<open>transmission items\<close> noise w
      by (simp add: parseStream_skip parseStream_encoded)
  qed
qed

lemma feedStream_whole:
  assumes "\<And>q. prefix q (p @ concat chunks) \<Longrightarrow> atFrame (snd (parseStream q))"
  shows "(let (gs, l) = feedStream (snd (parseStream p)) chunks in (fst (parseStream p) @ gs, l))
    = parseStream (p @ concat chunks)"
  using assms
proof (induction chunks arbitrary: p)
  case Nil
  then show ?case by simp
next
  case (Cons c cs)
  have "atFrame (snd (parseStream p))" using Cons.prems [of p] by simp
  then have "parseStream (p @ c) = (fst (parseStream p) @ fst (parseStream (snd (parseStream p) @ c)),
     snd (parseStream (snd (parseStream p) @ c)))"
    by (rule parseStream_append)
  with Cons.IH [of "p @ c"] Cons.prems show ?case
    by (simp add: case_prod_unfold Let_def)
qed

text \<open>C5: The stream parser is independent of how the transport cuts the byte stream: if the
  bytes of a sequence of encoded frames, with arbitrary line noise between them that holds
  no start marker, arrive in any pieces whatsoever (partial frames, several frames in one
  read, empty reads), the parser delivers exactly those frames, in order, and keeps
  nothing back.\<close>

theorem stream_reassembly:
  assumes "transmission items" "concat chunks = wireBytes items"
  shows "feedStream [] chunks = (map (\<lambda>(_, f, _). f) items, [])"
  using feedStream_whole [of "[]" chunks] atFrame_prefix [OF assms(1)]
    parseStream_transmission [OF assms(1)] parseStream_noise [of "[]"]
  by (simp add: assms(2) case_prod_unfold Let_def prod_eq_iff)

theorem stream_reassembly_witness:
  "feedStream [] [[0x3c, 0x3e, 0x01], [0, 0, 0, 0, 0], [], [0x01, 0x3c, 0x3e, 0x01, 0x01, 0, 0, 0, 0, 0x02, 0x3c]]
   = ([mkFrame DT_Ack 0 [], mkFrame DT_Ack 1 []], [])"
proof -
  let ?items = "[([0x3c], mkFrame DT_Ack 0 [], [0x3e, 0x01, 0, 0, 0, 0, 0, 0x01, 0x3c]),
    ([], mkFrame DT_Ack 1 [], [0x3e, 0x01, 0x01, 0, 0, 0, 0, 0x02, 0x3c])]"
  have "encode (mkFrame DT_Ack 0 []) = Inr [0x3e, 0x01, 0, 0, 0, 0, 0, 0x01, 0x3c]"
    and "encode (mkFrame DT_Ack 1 []) = Inr [0x3e, 0x01, 0x01, 0, 0, 0, 0, 0x02, 0x3c]"
    by code_simp+
  then have "transmission ?items" by (simp add: transmission_def START_MARKER_def)
  from stream_reassembly [OF this, of "[[0x3c, 0x3e, 0x01], [0, 0, 0, 0, 0], [], [0x01, 0x3c, 0x3e, 0x01, 0x01, 0, 0, 0, 0, 0x02, 0x3c]]"]
  show ?thesis by (simp add: wireBytes_def)
qed

text \<open>C12: Recovery: a corrupt frame (delimited, but rejected by the decoder) or a truncated one
  (cut off by the next start marker) is dropped and costs nothing else; the frames after
  it are found exactly as if it had not been there.\<close>

theorem stream_recovers:
  assumes "\<forall>b \<in> set body. \<not> isMarker b"
  shows "(decode (START_MARKER # body @ [END_MARKER]) = Inl e \<longrightarrow>
      parseStream (START_MARKER # body @ END_MARKER # rs) = parseStream rs) \<and>
    parseStream (START_MARKER # body @ START_MARKER # rs) = parseStream (START_MARKER # rs)"
  using parseStream_frame [OF assms, of rs] parseStream_restart [OF assms, of rs] by simp

theorem stream_recovers_witness:
  "parseStream (START_MARKER # [0x0c, 0x3d] @ END_MARKER # [0x55]) = parseStream [0x55] \<and>
   parseStream (START_MARKER # [0x0c, 0x3d] @ START_MARKER # [0x55]) = parseStream (START_MARKER # [0x55])"
proof -
  have "\<forall>b \<in> set [0x0c, 0x3d]. \<not> isMarker b" by code_simp
  moreover have "decode (START_MARKER # [0x0c, 0x3d] @ [END_MARKER])
      = Inl (SonyException InvalidFrame ''No data left for escaped byte data'')"
    by code_simp
  ultimately show ?thesis using stream_recovers by blast
qed

end
