(* ===== verification/Transport.thy ===== *)
theory Transport
  imports Prelude
begin

text \<open>
  The transport interface \<open>ITransport.h\<close> and its in-memory implementation
  \<open>FakeTransport.cpp\<close>, which the repository's tests drive every layer with. The
  interface is a record of operations (the C++ virtual table) on an abstract transport
  state; the laws that the layers above rely on are the locale \<open>transport_laws\<close>.
\<close>

section \<open>The interface\<close>

text \<open>\<open>receive\<close> gets the size of the caller's buffer and returns the bytes it wrote
  there; \<open>send\<close> returns how many bytes it took.\<close>

record 't ITransport =
  t_connect :: "string \<Rightarrow> ('t, unit) prog"
  t_disconnect :: "'t \<Rightarrow> 't"
  t_isConnected :: "'t \<Rightarrow> bool"
  t_send :: "u8 list \<Rightarrow> ('t, nat) prog"
  t_receive :: "nat \<Rightarrow> ('t, u8 list) prog"

locale transport_laws =
  fixes T :: "'t ITransport"
  assumes connect_connects: "t_connect T a t = (Inr (), t') \<Longrightarrow> t_isConnected T t'"
    and disconnect_disconnects: "\<not> t_isConnected T (t_disconnect T t)"
    and send_bound: "t_send T bs t = (Inr n, t') \<Longrightarrow> n \<le> length bs"
    and receive_bound: "t_receive T cap t = (Inr bs, t') \<Longrightarrow> length bs \<le> cap"

section \<open>Discovery\<close>

text \<open>\<open>DiscoveredDevice.h\<close>: what a discovery reports of a device. \<open>IDeviceDiscovery\<close>
  has one operation, \<open>discover\<close>; the in-memory one returns the devices it was given.\<close>

record FoundDevice =
  fd_name :: string
  fd_address :: string
  fd_paired :: "bool option"
  fd_connected :: "bool option"

type_synonym FakeDeviceDiscovery = "FoundDevice list"

definition addDevice :: "FoundDevice \<Rightarrow> FakeDeviceDiscovery \<Rightarrow> FakeDeviceDiscovery" where
  "addDevice d ds = ds @ [d]"

definition setDevices :: "FoundDevice list \<Rightarrow> FakeDeviceDiscovery \<Rightarrow> FakeDeviceDiscovery" where
  "setDevices new ds = new"

definition clearDevices :: "FakeDeviceDiscovery \<Rightarrow> FakeDeviceDiscovery" where
  "clearDevices ds = []"

definition fake_discover :: "(FakeDeviceDiscovery, FoundDevice list) prog" where
  "fake_discover ds = (Inr ds, ds)"

section \<open>FakeTransport\<close>

record FakeTransport =
  ft_connected :: bool
  ft_connectedAddress :: string
  ft_incomingQueue :: "u8 list"
  ft_sentFrames :: "u8 list list"
  ft_failConnect :: bool
  ft_failConnectCode :: SonyErrorCode
  ft_simulateTimeoutOnReceive :: bool
  ft_timeoutReceiveCount :: nat
  ft_simulateTimeoutOnSend :: bool
  ft_timeoutSendCount :: nat
  ft_maxReceiveChunkSize :: "nat option"

definition FakeTransport_new :: FakeTransport where
  "FakeTransport_new =
     \<lparr>ft_connected = False, ft_connectedAddress = '''', ft_incomingQueue = [], ft_sentFrames = [],
      ft_failConnect = False, ft_failConnectCode = TransportFailure,
      ft_simulateTimeoutOnReceive = False, ft_timeoutReceiveCount = 0,
      ft_simulateTimeoutOnSend = False, ft_timeoutSendCount = 0, ft_maxReceiveChunkSize = None\<rparr>"

definition fake_connect :: "string \<Rightarrow> (FakeTransport, unit) prog" where
  "fake_connect a t =
     (if ft_failConnect t
      then (Inl (SonyException (ft_failConnectCode t) ''Simulated connection failure''), t)
      else (Inr (), t\<lparr>ft_connected := True, ft_connectedAddress := a\<rparr>))"

definition fake_disconnect :: "FakeTransport \<Rightarrow> FakeTransport" where
  "fake_disconnect t = t\<lparr>ft_connected := False\<rparr>"

definition fake_isConnected :: "FakeTransport \<Rightarrow> bool" where
  "fake_isConnected t = ft_connected t"

definition fake_send :: "u8 list \<Rightarrow> (FakeTransport, nat) prog" where
  "fake_send bs t =
     (if \<not> ft_connected t then (Inl (SonyException Disconnected ''Transport is not connected''), t)
      else if ft_simulateTimeoutOnSend t
      then (Inl (SonyException Timeout ''Simulated send timeout''),
            (if 0 < ft_timeoutSendCount t
             then t\<lparr>ft_timeoutSendCount := ft_timeoutSendCount t - 1,
                    ft_simulateTimeoutOnSend := ft_timeoutSendCount t - 1 \<noteq> 0\<rparr>
             else t))
      else (Inr (length bs), t\<lparr>ft_sentFrames := ft_sentFrames t @ [bs]\<rparr>))"

definition fake_receive :: "nat \<Rightarrow> (FakeTransport, u8 list) prog" where
  "fake_receive cap t =
     (if \<not> ft_connected t then (Inl (SonyException Disconnected ''Transport is not connected''), t)
      else if ft_simulateTimeoutOnReceive t
      then (Inl (SonyException Timeout ''Simulated receive timeout''),
            (if 0 < ft_timeoutReceiveCount t
             then t\<lparr>ft_timeoutReceiveCount := ft_timeoutReceiveCount t - 1,
                    ft_simulateTimeoutOnReceive := ft_timeoutReceiveCount t - 1 \<noteq> 0\<rparr>
             else t))
      else if ft_incomingQueue t = []
      then (Inl (SonyException Timeout ''No data available in receive queue''), t)
      else let toRead = min cap (length (ft_incomingQueue t));
               toRead = (case ft_maxReceiveChunkSize t of
                           Some m \<Rightarrow> if 0 < m then min toRead m else toRead
                         | None \<Rightarrow> toRead)
           in (Inr (take toRead (ft_incomingQueue t)),
               t\<lparr>ft_incomingQueue := drop toRead (ft_incomingQueue t)\<rparr>))"

definition fake_ops :: "FakeTransport ITransport" where
  "fake_ops = \<lparr>t_connect = fake_connect, t_disconnect = fake_disconnect,
     t_isConnected = fake_isConnected, t_send = fake_send, t_receive = fake_receive\<rparr>"

subsection \<open>The simulation interface\<close>

text \<open>Five overloads for sequences of bytes, and one for frames.\<close>

definition queueIncoming :: "u8 list \<Rightarrow> FakeTransport \<Rightarrow> FakeTransport" where
  "queueIncoming bs t = t\<lparr>ft_incomingQueue := ft_incomingQueue t @ bs\<rparr>"

definition queueIncomingFrames :: "u8 list list \<Rightarrow> FakeTransport \<Rightarrow> FakeTransport" where
  "queueIncomingFrames fs t = t\<lparr>ft_incomingQueue := ft_incomingQueue t @ concat fs\<rparr>"

definition sentFrames :: "FakeTransport \<Rightarrow> u8 list list" where
  "sentFrames t = ft_sentFrames t"

text \<open>The same as \<open>std::byte\<close>: the frames and bytes in the order they were sent.\<close>

definition sentFramesBytes :: "FakeTransport \<Rightarrow> u8 list list" where
  "sentFramesBytes t = map (map id) (ft_sentFrames t)"

definition connectedAddress :: "FakeTransport \<Rightarrow> string" where
  "connectedAddress t = ft_connectedAddress t"

definition simulateDisconnect :: "FakeTransport \<Rightarrow> FakeTransport" where
  "simulateDisconnect t = fake_disconnect t"

definition clearIncoming :: "FakeTransport \<Rightarrow> FakeTransport" where
  "clearIncoming t = t\<lparr>ft_incomingQueue := []\<rparr>"

definition incomingBytesAvailable :: "FakeTransport \<Rightarrow> nat" where
  "incomingBytesAvailable t = length (ft_incomingQueue t)"

definition sentCount :: "FakeTransport \<Rightarrow> nat" where
  "sentCount t = length (ft_sentFrames t)"

definition lastSentFrame :: "FakeTransport \<Rightarrow> u8 list" where
  "lastSentFrame t = (if ft_sentFrames t = [] then [] else last (ft_sentFrames t))"

definition allSentBytes :: "FakeTransport \<Rightarrow> u8 list" where
  "allSentBytes t = concat (ft_sentFrames t)"

definition clearSent :: "FakeTransport \<Rightarrow> FakeTransport" where
  "clearSent t = t\<lparr>ft_sentFrames := []\<rparr>"

definition setConnected :: "bool \<Rightarrow> FakeTransport \<Rightarrow> FakeTransport" where
  "setConnected b t = t\<lparr>ft_connected := b\<rparr>"

definition setFailConnect :: "bool \<Rightarrow> SonyErrorCode \<Rightarrow> FakeTransport \<Rightarrow> FakeTransport" where
  "setFailConnect b c t = t\<lparr>ft_failConnect := b, ft_failConnectCode := c\<rparr>"

definition simulateTimeoutOnReceive :: "bool \<Rightarrow> nat \<Rightarrow> FakeTransport \<Rightarrow> FakeTransport" where
  "simulateTimeoutOnReceive b n t =
     t\<lparr>ft_simulateTimeoutOnReceive := b, ft_timeoutReceiveCount := n\<rparr>"

definition simulateTimeoutOnSend :: "bool \<Rightarrow> nat \<Rightarrow> FakeTransport \<Rightarrow> FakeTransport" where
  "simulateTimeoutOnSend b n t = t\<lparr>ft_simulateTimeoutOnSend := b, ft_timeoutSendCount := n\<rparr>"

definition setMaxReceiveChunkSize :: "nat option \<Rightarrow> FakeTransport \<Rightarrow> FakeTransport" where
  "setMaxReceiveChunkSize m t = t\<lparr>ft_maxReceiveChunkSize := m\<rparr>"

lemma fake_ops_simps [simp]:
  "t_connect fake_ops = fake_connect" "t_disconnect fake_ops = fake_disconnect"
  "t_isConnected fake_ops = fake_isConnected" "t_send fake_ops = fake_send"
  "t_receive fake_ops = fake_receive"
  by (simp_all add: fake_ops_def)

interpretation fake: transport_laws fake_ops
  by unfold_locales
     (auto simp: fake_connect_def fake_isConnected_def fake_disconnect_def fake_send_def
        fake_receive_def Let_def split: if_splits option.splits)

text \<open>Everything queued is delivered, in order: what a receive returns and what it leaves
  in the queue make up the queue before it.\<close>

lemma fake_receive_queue:
  "fake_receive cap t = (Inr bs, t') \<Longrightarrow> bs @ ft_incomingQueue t' = ft_incomingQueue t"
  by (auto simp: fake_receive_def Let_def split: if_splits option.splits)

lemma fake_receive_error_keeps_queue:
  "fake_receive cap t = (Inl e, t') \<Longrightarrow> ft_incomingQueue t' = ft_incomingQueue t"
  by (auto simp: fake_receive_def Let_def split: if_splits option.splits)

end
