(* ===== verification/Link.thy ===== *)
theory Link
  imports FrameCodec
begin

text \<open>
  The interface between the protocol classes and the session: \<open>send\<close> (a frame and a
  timeout in milliseconds, wait for the acknowledgement) and \<open>sendAndAwaitResponse\<close> (the
  expected opcode and subtype too), on an abstract link state. The protocol classes hold a
  reference to a \<open>SonyProtocolSession\<close> and call nothing else on it.
\<close>

record 's Link =
  lk_send :: "SonyFrame \<Rightarrow> nat \<Rightarrow> ('s, unit) prog"
  lk_request :: "SonyFrame \<Rightarrow> u8 \<Rightarrow> int \<Rightarrow> nat \<Rightarrow> ('s, SonyFrame) prog"

text \<open>The match against an expected opcode and, when it is not negative, a subtype.\<close>

definition responseMatches :: "u8 \<Rightarrow> int \<Rightarrow> u8 list \<Rightarrow> bool" where
  "responseMatches opcode subtype p \<longleftrightarrow>
     p \<noteq> [] \<and> p ! 0 = opcode \<and> (subtype < 0 \<or> (2 \<le> length p \<and> p ! 1 = byteOf subtype))"

text \<open>The data frame \<open>SonyFrame{.type = DataMdr, .payload = p}\<close>.\<close>

definition mdrFrame :: "u8 list \<Rightarrow> SonyFrame" where
  "mdrFrame p = mkFrame DT_DataMdr 0 p"

text \<open>What the clients rely on: \<open>sent s\<close>, the data payloads handed to the transport so far,
  grows by at most the payload given to the call, and a response matches what was asked.\<close>

locale link_laws =
  fixes L :: "'s Link" and sent :: "'s \<Rightarrow> u8 list list"
  assumes send_sent: "sent (snd (lk_send L (mdrFrame p) ms s)) \<in> {sent s, sent s @ [p]}"
    and request_sent: "sent (snd (lk_request L (mdrFrame p) op sub ms s)) \<in> {sent s, sent s @ [p]}"
    and request_match: "lk_request L f op sub ms s = (Inr r, s') \<Longrightarrow> responseMatches op sub (fr_payload r)"
begin

lemma emits_send [emits_intros]:
  assumes "ok p" shows "emits sent ok (lk_send L (mdrFrame p) ms)"
  unfolding emits_def
proof
  fix s
  from send_sent [of p ms s] assms
  show "\<exists>xs. sent (snd (lk_send L (mdrFrame p) ms s)) = sent s @ xs \<and> list_all ok xs"
    by (auto intro: exI [of _ "[]"] exI [of _ "[p]"])
qed

lemma emits_request [emits_intros]:
  assumes "ok p" shows "emits sent ok (lk_request L (mdrFrame p) op sub ms)"
  unfolding emits_def
proof
  fix s
  from request_sent [of p op sub ms s] assms
  show "\<exists>xs. sent (snd (lk_request L (mdrFrame p) op sub ms s)) = sent s @ xs \<and> list_all ok xs"
    by (auto intro: exI [of _ "[]"] exI [of _ "[p]"])
qed

end

end
