(* ===== verification/Session.thy ===== *)
theory Session
  imports StreamParser Transport Link
begin

text \<open>
  \<open>SonyProtocolSession\<close>: one connection to the headphones. A reader turns received bytes
  into frames, acknowledges data frames, matches them against the pending request and hands
  the rest to the notification callbacks; \<open>send\<close> and \<open>sendAndAwaitResponse\<close> write a
  frame and wait. Every block the code runs under \<open>_sessionMtx\<close> or \<open>_writeMtx\<close> is one
  step here.

  The wait loops are modelled with the reader's iterations made explicit:
  \<open>waitReader T P n s\<close> runs the reader until the wake-up predicate \<open>P\<close> holds or \<open>n\<close>
  iterations have passed, the deadline. \<open>polls ms\<close>, a parameter, is how many reader
  iterations the scheduler fits before a deadline of \<open>ms\<close> milliseconds; every result
  holds for all of them. Logging is left out. \<open>ss_written\<close> and \<open>ss_notified\<close> are
  ghost logs: the frames handed to the transport and the callback invocations.
\<close>

section \<open>State\<close>

record PendingRequest =
  pr_expectedOpcode :: u8
  pr_expectedSubtype :: int
  pr_hasResponse :: bool
  pr_response :: SonyFrame
  pr_hasAck :: bool
  pr_expectedAckSeq :: u8

text \<open>A callback is a number that identifies it, \<open>None\<close> an empty \<open>std::function\<close>.\<close>

record 't Session =
  ss_transport :: "'t option"
  ss_running :: bool
  ss_sequence :: u8
  ss_streamBuffer :: "u8 list"
  ss_pendingRequest :: "PendingRequest option"
  ss_unmatchedFrames :: "SonyFrame list"
  ss_hasAck :: bool
  ss_expectedAckSeq :: u8
  ss_notificationCallbacks :: "nat option list"
  ss_lastSeenDataSeq :: "u8 option"
  ss_written :: "SonyFrame list"
  ss_notified :: "(nat \<times> SonyFrame) list"

definition newSession :: "'t option \<Rightarrow> 't Session" where
  "newSession t = \<lparr>ss_transport = t, ss_running = False, ss_sequence = 0, ss_streamBuffer = [],
     ss_pendingRequest = None, ss_unmatchedFrames = [], ss_hasAck = False, ss_expectedAckSeq = 0,
     ss_notificationCallbacks = [], ss_lastSeenDataSeq = None, ss_written = [], ss_notified = []\<rparr>"

definition isConnected :: "'t ITransport \<Rightarrow> 't Session \<Rightarrow> bool" where
  "isConnected T s \<longleftrightarrow> ss_running s \<and>
     (case ss_transport s of None \<Rightarrow> False | Some t \<Rightarrow> t_isConnected T t)"

section \<open>Writing\<close>

text \<open>The \<open>while (sent < size)\<close> loop over the bytes not yet taken.\<close>

function sendAll :: "'t ITransport \<Rightarrow> u8 list \<Rightarrow> ('t, unit) prog" where
  "sendAll T bs t =
     (if bs = [] then (Inr (), t)
      else case t_send T bs t of
          (Inl e, t') \<Rightarrow> (Inl e, t')
        | (Inr n, t') \<Rightarrow>
            if n = 0 then (Inl (SonyException Disconnected ''Bluetooth send returned EOF''), t')
            else sendAll T (drop n bs) t')"
  by pat_completeness auto
termination by (relation "measure (\<lambda>(T, bs, t). length bs)") auto

declare sendAll.simps [simp del]

definition writeFrame :: "'t ITransport \<Rightarrow> SonyFrame \<Rightarrow> ('t Session, unit) prog" where
  "writeFrame T f s =
     (case ss_transport s of
        None \<Rightarrow> (Inl (SonyException Disconnected ''Transport not connected''), s)
      | Some t \<Rightarrow>
          if \<not> t_isConnected T t
          then (Inl (SonyException Disconnected ''Transport not connected''), s)
          else case encode f of
            Inl e \<Rightarrow> (Inl e, s)
          | Inr encoded \<Rightarrow>
              case sendAll T encoded t of
                (Inr _, t') \<Rightarrow> (Inr (), s\<lparr>ss_transport := Some t', ss_written := ss_written s @ [f]\<rparr>)
              | (Inl e, t') \<Rightarrow>
                  (Inl e, s\<lparr>ss_transport := Some t', ss_written := ss_written s @ [f],
                            ss_running := (if isTimeout e then ss_running s else False)\<rparr>))"

definition sendAck :: "'t ITransport \<Rightarrow> u8 \<Rightarrow> ('t Session, unit) prog" where
  "sendAck T seqNumber = writeFrame T (mkFrame DT_Ack seqNumber [])"

section \<open>Receiving\<close>

definition pushUnmatched :: "SonyFrame \<Rightarrow> SonyFrame list \<Rightarrow> SonyFrame list" where
  "pushUnmatched f q = (let q' = q @ [f] in if 32 < length q' then tl q' else q')"

definition notifyAll :: "SonyFrame \<Rightarrow> 't Session \<Rightarrow> 't Session" where
  "notifyAll f s = s\<lparr>ss_notified := ss_notified s @
     map (\<lambda>cb. (cb, f)) (List.map_filter id (ss_notificationCallbacks s))\<rparr>"

text \<open>The request the frame answers, if any.\<close>

definition matchPending :: "SonyFrame \<Rightarrow> 't Session \<Rightarrow> PendingRequest option" where
  "matchPending f s =
     (case ss_pendingRequest s of
        None \<Rightarrow> None
      | Some p \<Rightarrow>
          if \<not> pr_hasResponse p \<and>
             responseMatches (pr_expectedOpcode p) (pr_expectedSubtype p) (fr_payload f)
          then Some p else None)"

definition handleDecodedFrame :: "'t ITransport \<Rightarrow> SonyFrame \<Rightarrow> 't Session \<Rightarrow> 't Session" where
  "handleDecodedFrame T f s =
     (if fr_type f = DT_Ack then
        s\<lparr>ss_hasAck := True,
          ss_sequence := (if fr_seq f \<le> 1 then fr_seq f else ss_sequence s),
          ss_pendingRequest := map_option (\<lambda>p. p\<lparr>pr_hasAck := True\<rparr>) (ss_pendingRequest s)\<rparr>
      else if fr_type f = DT_DataMdr then
        let s1 = snd (sendAck T (1 - (fr_seq f AND 1)) s)
        in if ss_lastSeenDataSeq s1 = Some (fr_seq f) then s1
           else let s2 = s1\<lparr>ss_lastSeenDataSeq := Some (fr_seq f)\<rparr>
             in case matchPending f s2 of
                  Some p \<Rightarrow> s2\<lparr>ss_pendingRequest := Some (p\<lparr>pr_response := f, pr_hasResponse := True\<rparr>)\<rparr>
                | None \<Rightarrow> notifyAll f
                    (s2\<lparr>ss_unmatchedFrames := pushUnmatched f (ss_unmatchedFrames s2)\<rparr>)
      else s)"

definition handleIncomingBytes :: "'t ITransport \<Rightarrow> u8 list \<Rightarrow> 't Session \<Rightarrow> 't Session" where
  "handleIncomingBytes T bytes s =
     (let (frames, left) = parseStream (ss_streamBuffer s @ bytes)
      in fold (handleDecodedFrame T) frames (s\<lparr>ss_streamBuffer := left\<rparr>))"

text \<open>One iteration of \<open>_readerLoop\<close>, with its 1024-byte buffer. The loop only runs on a
  session with a transport (\<open>start\<close> checks it).\<close>

definition readerStep :: "'t ITransport \<Rightarrow> 't Session \<Rightarrow> 't Session" where
  "readerStep T s =
     (if \<not> ss_running s then s
      else case ss_transport s of
        None \<Rightarrow> s\<lparr>ss_running := False\<rparr>
      | Some t \<Rightarrow>
          (case t_receive T 1024 t of
             (Inr bytes, t') \<Rightarrow>
               if bytes = [] then s\<lparr>ss_transport := Some t', ss_running := False\<rparr>
               else handleIncomingBytes T bytes (s\<lparr>ss_transport := Some t'\<rparr>)
           | (Inl e, t') \<Rightarrow>
               if isTimeout e then s\<lparr>ss_transport := Some t'\<rparr>
               else s\<lparr>ss_transport := Some t', ss_running := False\<rparr>))"

fun waitReader :: "'t ITransport \<Rightarrow> ('t Session \<Rightarrow> bool) \<Rightarrow> nat \<Rightarrow> 't Session \<Rightarrow> 't Session" where
  "waitReader T P 0 s = s"
| "waitReader T P (Suc n) s = (if P s then s else waitReader T P n (readerStep T s))"

section \<open>Sequence numbers\<close>

definition nextSequenceNumber :: "'t Session \<Rightarrow> u8 \<times> 't Session" where
  "nextSequenceNumber s =
     (let cur = ss_sequence s;
          cur = (if 1 < cur \<and> cur < 254 then cur AND 1 else cur)
      in (cur, s\<lparr>ss_sequence := cur + 1\<rparr>))"

definition setSequenceNumber :: "u8 \<Rightarrow> 't Session \<Rightarrow> 't Session" where
  "setSequenceNumber q s = s\<lparr>ss_sequence := q\<rparr>"

text \<open>Both senders stamp data frames with the next sequence number.\<close>

definition stampFrame :: "SonyFrame \<Rightarrow> 't Session \<Rightarrow> SonyFrame \<times> 't Session" where
  "stampFrame f s =
     (if fr_type f = DT_DataMdr
      then let (q, s') = nextSequenceNumber s in (f\<lparr>fr_seq := q\<rparr>, s')
      else (f, s))"

section \<open>Sending and waiting for the acknowledgement\<close>

definition prepareSend :: "SonyFrame \<Rightarrow> 't Session \<Rightarrow> SonyFrame \<times> 't Session" where
  "prepareSend f s =
     (let (g, s1) = stampFrame f s in (g, s1\<lparr>ss_expectedAckSeq := fr_seq g, ss_hasAck := False\<rparr>))"

definition ackWake :: "'t ITransport \<Rightarrow> 't Session \<Rightarrow> bool" where
  "ackWake T s \<longleftrightarrow> \<not> ss_running s \<or> \<not> isConnected T s \<or> ss_hasAck s"

definition finishSend :: "'t ITransport \<Rightarrow> ('t Session, unit) prog" where
  "finishSend T s =
     (if \<not> isConnected T s \<or> \<not> ss_running s
      then (Inl (SonyException Disconnected ''Transport disconnected while waiting for ACK''), s)
      else if \<not> ackWake T s \<or> \<not> ss_hasAck s
      then (Inl (SonyException Timeout ''Timeout waiting for ACK''), s)
      else (Inr (), s\<lparr>ss_hasAck := False\<rparr>))"

definition session_send :: "'t ITransport \<Rightarrow> (nat \<Rightarrow> nat) \<Rightarrow> SonyFrame \<Rightarrow> nat \<Rightarrow> ('t Session, unit) prog" where
  "session_send T polls f timeout s =
     (if \<not> isConnected T s
      then (Inl (SonyException Disconnected ''Transport not connected''), s)
      else let (g, s1) = prepareSend f s
        in bindP (writeFrame T g)
             (\<lambda>_ s2. finishSend T (waitReader T (ackWake T) (polls timeout) s2)) s1)"

section \<open>Requests and responses\<close>

text \<open>The first buffered frame that matches, removed from the buffer.\<close>

fun takeMatching :: "u8 \<Rightarrow> int \<Rightarrow> SonyFrame list \<Rightarrow> (SonyFrame \<times> SonyFrame list) option" where
  "takeMatching opcode subtype [] = None"
| "takeMatching opcode subtype (f # fs) =
     (if responseMatches opcode subtype (fr_payload f) then Some (f, fs)
      else map_option (apsnd ((#) f)) (takeMatching opcode subtype fs))"

definition prepareRequest :: "SonyFrame \<Rightarrow> u8 \<Rightarrow> int \<Rightarrow> 't Session \<Rightarrow> SonyFrame \<times> 't Session" where
  "prepareRequest f retOpcode retSubtype s =
     (let (g, s1) = stampFrame f s;
          p = \<lparr>pr_expectedOpcode = retOpcode, pr_expectedSubtype = retSubtype,
               pr_hasResponse = False, pr_response = mkFrame DT_DataMdr 0 [],
               pr_hasAck = False, pr_expectedAckSeq = fr_seq g\<rparr>;
          s2 = s1\<lparr>ss_expectedAckSeq := fr_seq g, ss_hasAck := False\<rparr>
      in case takeMatching retOpcode retSubtype (ss_unmatchedFrames s2) of
           None \<Rightarrow> (g, s2\<lparr>ss_pendingRequest := Some p\<rparr>)
         | Some (r, rest) \<Rightarrow>
             (g, s2\<lparr>ss_pendingRequest := Some (p\<lparr>pr_response := r, pr_hasResponse := True\<rparr>),
                    ss_unmatchedFrames := rest\<rparr>))"

definition pendingAnswered :: "'t Session \<Rightarrow> bool" where
  "pendingAnswered s \<longleftrightarrow>
     (case ss_pendingRequest s of None \<Rightarrow> False | Some p \<Rightarrow> pr_hasResponse p)"

definition responseWake :: "'t ITransport \<Rightarrow> 't Session \<Rightarrow> bool" where
  "responseWake T s \<longleftrightarrow> \<not> ss_running s \<or> \<not> isConnected T s \<or> pendingAnswered s"

definition finishRequest :: "'t ITransport \<Rightarrow> ('t Session, SonyFrame) prog" where
  "finishRequest T s =
     (if \<not> isConnected T s \<or> \<not> ss_running s
      then (Inl (SonyException Disconnected ''Transport disconnected while waiting for response''),
            s\<lparr>ss_pendingRequest := None\<rparr>)
      else case ss_pendingRequest s of
          None \<Rightarrow> (Inl (SonyException Timeout ''Timeout waiting for response from device''), s)
        | Some p \<Rightarrow>
            if \<not> pr_hasResponse p
            then (Inl (SonyException Timeout ''Timeout waiting for response from device''),
                  s\<lparr>ss_pendingRequest := None\<rparr>)
            else (Inr (pr_response p), s\<lparr>ss_hasAck := False, ss_pendingRequest := None\<rparr>))"

definition sendAndAwaitResponse ::
    "'t ITransport \<Rightarrow> (nat \<Rightarrow> nat) \<Rightarrow> SonyFrame \<Rightarrow> u8 \<Rightarrow> int \<Rightarrow> nat \<Rightarrow> ('t Session, SonyFrame) prog" where
  "sendAndAwaitResponse T polls f retOpcode retSubtype timeout s =
     (if \<not> isConnected T s
      then (Inl (SonyException Disconnected ''Transport not connected''), s)
      else let (g, s1) = prepareRequest f retOpcode retSubtype s
        in bindP (writeFrame T g)
             (\<lambda>_ s2. finishRequest T (waitReader T (responseWake T) (polls timeout) s2)) s1)"

section \<open>Connecting and disconnecting\<close>

definition clearSession :: "'t Session \<Rightarrow> 't Session" where
  "clearSession s = s\<lparr>ss_streamBuffer := [], ss_lastSeenDataSeq := None, ss_unmatchedFrames := [],
     ss_hasAck := False, ss_pendingRequest := None\<rparr>"

definition session_disconnect :: "'t ITransport \<Rightarrow> 't Session \<Rightarrow> 't Session" where
  "session_disconnect T s =
     (clearSession (s\<lparr>ss_running := False,
        ss_transport := map_option (t_disconnect T) (ss_transport s)\<rparr>))\<lparr>ss_sequence := 0\<rparr>"

definition session_start :: "'t ITransport \<Rightarrow> ('t Session, unit) prog" where
  "session_start T s =
     (if \<not> (case ss_transport s of None \<Rightarrow> False | Some t \<Rightarrow> t_isConnected T t)
      then (Inl (SonyException Disconnected ''Transport is not connected''), s)
      else if ss_running s then (Inr (), s)
      else (Inr (), (clearSession s)\<lparr>ss_running := True\<rparr>))"

definition session_connect :: "'t ITransport \<Rightarrow> string \<Rightarrow> ('t Session, unit) prog" where
  "session_connect T address s =
     (let s1 = (if isConnected T s \<or> ss_running s then session_disconnect T s else s)
      in case ss_transport s1 of
           None \<Rightarrow> (Inl (SonyException TransportFailure ''No transport configured''), s1)
         | Some t \<Rightarrow>
             (case t_connect T address t of
                (Inl e, t') \<Rightarrow> (Inl e, s1\<lparr>ss_transport := Some t'\<rparr>)
              | (Inr _, t') \<Rightarrow> session_start T (s1\<lparr>ss_transport := Some t'\<rparr>)))"

definition onNotification :: "nat option \<Rightarrow> 't Session \<Rightarrow> 't Session" where
  "onNotification cb s = s\<lparr>ss_notificationCallbacks := ss_notificationCallbacks s @ [cb]\<rparr>"

section \<open>What writing changes\<close>

text \<open>A write touches the transport, the log and, on a hard error, the running flag.\<close>

lemma writeFrame_frame [simp]:
  "ss_sequence (snd (writeFrame T f s)) = ss_sequence s"
  "ss_streamBuffer (snd (writeFrame T f s)) = ss_streamBuffer s"
  "ss_pendingRequest (snd (writeFrame T f s)) = ss_pendingRequest s"
  "ss_unmatchedFrames (snd (writeFrame T f s)) = ss_unmatchedFrames s"
  "ss_hasAck (snd (writeFrame T f s)) = ss_hasAck s"
  "ss_expectedAckSeq (snd (writeFrame T f s)) = ss_expectedAckSeq s"
  "ss_notificationCallbacks (snd (writeFrame T f s)) = ss_notificationCallbacks s"
  "ss_lastSeenDataSeq (snd (writeFrame T f s)) = ss_lastSeenDataSeq s"
  "ss_notified (snd (writeFrame T f s)) = ss_notified s"
  by (simp_all add: writeFrame_def split: option.split sum.split prod.split)

lemma writeFrame_written:
  "\<exists>w. ss_written (snd (writeFrame T f s)) = ss_written s @ w \<and> (w = [] \<or> w = [f])"
  by (auto simp: writeFrame_def split: option.split sum.split prod.split)

lemma writeFrame_ok:
  "writeFrame T f s = (Inr u, s') \<Longrightarrow>
     ss_written s' = ss_written s @ [f] \<and> ss_running s' = ss_running s"
  by (auto simp: writeFrame_def split: option.splits sum.splits prod.splits if_splits)

lemma sendAck_frame [simp]:
  "ss_sequence (snd (sendAck T q s)) = ss_sequence s"
  "ss_streamBuffer (snd (sendAck T q s)) = ss_streamBuffer s"
  "ss_pendingRequest (snd (sendAck T q s)) = ss_pendingRequest s"
  "ss_unmatchedFrames (snd (sendAck T q s)) = ss_unmatchedFrames s"
  "ss_hasAck (snd (sendAck T q s)) = ss_hasAck s"
  "ss_notificationCallbacks (snd (sendAck T q s)) = ss_notificationCallbacks s"
  "ss_lastSeenDataSeq (snd (sendAck T q s)) = ss_lastSeenDataSeq s"
  "ss_notified (snd (sendAck T q s)) = ss_notified s"
  by (simp_all add: sendAck_def)

section \<open>The session invariant\<close>

definition pendingOk :: "'t Session \<Rightarrow> bool" where
  "pendingOk s \<longleftrightarrow> (\<forall>p. ss_pendingRequest s = Some p \<longrightarrow> pr_hasResponse p \<longrightarrow>
     responseMatches (pr_expectedOpcode p) (pr_expectedSubtype p) (fr_payload (pr_response p)))"

text \<open>At most 32 buffered frames, a sequence number that stays a toggling bit (0, 1, or 2
  before it is reduced), a stream buffer that holds at most one unfinished frame and stays
  below the limit plus one read, and a recorded response that matches its request.\<close>

definition sessionInv :: "'t Session \<Rightarrow> bool" where
  "sessionInv s \<longleftrightarrow> length (ss_unmatchedFrames s) \<le> 32 \<and> ss_sequence s \<le> 2 \<and>
     streamOk (ss_streamBuffer s) \<and> length (ss_streamBuffer s) \<le> 5119 \<and> pendingOk s"

lemma sessionInv_new: "sessionInv (newSession t)"
  by (simp add: sessionInv_def newSession_def streamOk_def pendingOk_def)

lemma length_pushUnmatched: "length q \<le> 32 \<Longrightarrow> length (pushUnmatched f q) \<le> 32"
  by (simp add: pushUnmatched_def Let_def)

lemma sessionInv_writeFrame: "sessionInv s \<Longrightarrow> sessionInv (snd (writeFrame T f s))"
  by (simp add: sessionInv_def pendingOk_def)

lemma sessionInv_sendAck: "sessionInv s \<Longrightarrow> sessionInv (snd (sendAck T q s))"
  by (simp add: sendAck_def sessionInv_writeFrame)

lemma sessionInv_frame: "sessionInv s \<Longrightarrow> sessionInv (handleDecodedFrame T f s)"
proof -
  assume inv: "sessionInv s"
  let ?s1 = "snd (sendAck T (1 - (fr_seq f AND 1)) s)"
  have inv1: "sessionInv ?s1" using inv by (rule sessionInv_sendAck)
  have le: "x \<le> 1 \<Longrightarrow> x \<le> 2" for x :: u8 by unat_arith
  show ?thesis
    using inv inv1
    by (auto simp: handleDecodedFrame_def sessionInv_def pendingOk_def Let_def notifyAll_def
        matchPending_def length_pushUnmatched le split: option.split if_splits)
qed

lemma sessionInv_frames: "sessionInv s \<Longrightarrow> sessionInv (fold (handleDecodedFrame T) fs s)"
  by (induction fs arbitrary: s) (simp_all add: sessionInv_frame)

lemma streamOk_bound:
  assumes "streamOk l" "length l \<le> 5119" "length c \<le> 1024"
  shows "length (snd (parseStream (l @ c))) \<le> 5119"
proof (cases "START_MARKER \<in> set l")
  case False
  then have "parseStream (l @ c) = parseStream c" by (rule parseStream_skip)
  with parseStream_keeps [of c] assms(3) show ?thesis by simp
next
  case True
  then have "length l \<le> 4096" using assms(1) by (auto simp: streamOk_def isMarker_def)
  let ?l = "snd (parseStream (l @ c))"
  from parseStream_keeps [of "l @ c"] have ok: "streamOk ?l" "length ?l \<le> length l + length c" by auto
  show ?thesis
  proof (cases "START_MARKER \<in> set ?l")
    case True
    with ok(1) show ?thesis by (auto simp: streamOk_def isMarker_def)
  next
    case no: False
    have "length ?l < length (l @ c)"
    proof (rule ccontr)
      assume "\<not> length ?l < length (l @ c)"
      with ok(2) have "length ?l = length (l @ c)" by simp
      moreover obtain zs where "l @ c = zs @ ?l"
        using parseStream_suffix [of "l @ c"] by (auto simp: suffix_def)
      ultimately have "?l = l @ c" by (metis append_self_conv2 length_0_conv length_append self_append_conv add_cancel_left_left)
      with no True show False by simp
    qed
    with \<open>length l \<le> 4096\<close> assms(3) show ?thesis by simp
  qed
qed

context transport_laws
begin

lemma sessionInv_readerStep:
  assumes inv: "sessionInv s" shows "sessionInv (readerStep T s)"
proof -
  have bytes: "sessionInv (handleIncomingBytes T bytes (s\<lparr>ss_transport := t'\<rparr>))"
    if "length bytes \<le> 1024" for bytes t'
  proof -
    from inv have "length (snd (parseStream (ss_streamBuffer s @ bytes))) \<le> 5119"
      using that by (intro streamOk_bound) (auto simp: sessionInv_def)
    then have "sessionInv (s\<lparr>ss_transport := t', ss_streamBuffer := snd (parseStream (ss_streamBuffer s @ bytes))\<rparr>)"
      using inv parseStream_keeps by (auto simp: sessionInv_def pendingOk_def)
    then show ?thesis
      by (simp add: handleIncomingBytes_def case_prod_unfold Let_def sessionInv_frames)
  qed
  have same: "sessionInv (s\<lparr>ss_transport := t'\<rparr>)" "sessionInv (s\<lparr>ss_running := r\<rparr>)"
    "sessionInv (s\<lparr>ss_transport := t', ss_running := r\<rparr>)" for t' r
    using inv by (auto simp: sessionInv_def pendingOk_def)
  show ?thesis
    using inv by (auto simp: readerStep_def same bytes dest: receive_bound
        split: option.split prod.split sum.split)
qed

lemma sessionInv_wait: "sessionInv s \<Longrightarrow> sessionInv (waitReader T P n s)"
  by (induction n arbitrary: s) (simp_all add: sessionInv_readerStep)

end

section \<open>Requests and their answers\<close>

text \<open>While a request is pending, its opcode and subtype stay what they were.\<close>

definition pendingFor :: "u8 \<Rightarrow> int \<Rightarrow> 't Session \<Rightarrow> bool" where
  "pendingFor op sub s \<longleftrightarrow> pendingOk s \<and>
     (\<exists>p. ss_pendingRequest s = Some p \<and> pr_expectedOpcode p = op \<and> pr_expectedSubtype p = sub)"

lemma takeMatching_matches:
  "takeMatching op sub fs = Some (f, rest) \<Longrightarrow> responseMatches op sub (fr_payload f)"
  by (induction fs arbitrary: rest) (auto split: if_splits)

lemma length_takeMatching:
  "takeMatching op sub fs = Some (f, rest) \<Longrightarrow> length fs = Suc (length rest)"
  by (induction fs arbitrary: rest) (auto split: if_splits)

lemma pendingFor_prepare: "pendingFor op sub (snd (prepareRequest f op sub s))"
  by (auto simp: prepareRequest_def pendingFor_def pendingOk_def Let_def case_prod_unfold
      dest: takeMatching_matches split: option.split)

lemma pendingFor_write: "pendingFor op sub s \<Longrightarrow> pendingFor op sub (snd (writeFrame T f s))"
  by (simp add: pendingFor_def pendingOk_def)

lemma pendingFor_frame: "pendingFor op sub s \<Longrightarrow> pendingFor op sub (handleDecodedFrame T f s)"
  by (auto simp: handleDecodedFrame_def pendingFor_def pendingOk_def Let_def notifyAll_def
      matchPending_def split: option.split if_splits)

lemma pendingFor_frames:
  "pendingFor op sub s \<Longrightarrow> pendingFor op sub (fold (handleDecodedFrame T) fs s)"
  by (induction fs arbitrary: s) (simp_all add: pendingFor_frame)

lemma pendingFor_bytes: "pendingFor op sub s \<Longrightarrow> pendingFor op sub (handleIncomingBytes T bs s)"
  by (auto simp: handleIncomingBytes_def pendingFor_def pendingOk_def Let_def case_prod_unfold
      intro!: pendingFor_frames [unfolded pendingFor_def pendingOk_def])

lemma pendingFor_readerStep: "pendingFor op sub s \<Longrightarrow> pendingFor op sub (readerStep T s)"
proof -
  assume p: "pendingFor op sub s"
  then have "pendingFor op sub (s\<lparr>ss_transport := t'\<rparr>)" "pendingFor op sub (s\<lparr>ss_running := r\<rparr>)"
    "pendingFor op sub (s\<lparr>ss_transport := t', ss_running := r\<rparr>)" for t' r
    by (auto simp: pendingFor_def pendingOk_def)
  with p show ?thesis
    by (auto simp: readerStep_def pendingFor_bytes split: option.split prod.split sum.split)
qed

lemma pendingFor_wait: "pendingFor op sub s \<Longrightarrow> pendingFor op sub (waitReader T P n s)"
  by (induction n arbitrary: s) (simp_all add: pendingFor_readerStep)

lemma finishRequest_matches:
  "finishRequest T s = (Inr r, s') \<Longrightarrow> pendingFor op sub s \<Longrightarrow> responseMatches op sub (fr_payload r)"
  by (auto simp: finishRequest_def pendingFor_def pendingOk_def split: option.splits if_splits)

lemma request_matches:
  assumes "sendAndAwaitResponse T polls f op sub ms s = (Inr r, s')"
  shows "responseMatches op sub (fr_payload r)"
proof -
  obtain g s1 where prep: "prepareRequest f op sub s = (g, s1)" by fastforce
  then have "pendingFor op sub s1" using pendingFor_prepare [of op sub f s] by simp
  moreover obtain u s2 where w: "writeFrame T g s1 = (Inr u, s2)"
    and fin: "finishRequest T (waitReader T (responseWake T) (polls ms) s2) = (Inr r, s')"
    using assms prep
    by (auto simp: sendAndAwaitResponse_def bindP_def split: if_splits prod.splits sum.splits)
  ultimately have "pendingFor op sub s2" using pendingFor_write [of op sub s1 T g] by simp
  then show ?thesis using finishRequest_matches [OF fin] pendingFor_wait by blast
qed

section \<open>The data payloads on the wire\<close>

definition mdrSent :: "'t Session \<Rightarrow> u8 list list" where
  "mdrSent s = map fr_payload (filter (\<lambda>f. fr_type f = DT_DataMdr) (ss_written s))"

lemma mdrSent_sendAck [simp]: "mdrSent (snd (sendAck T q s)) = mdrSent s"
  using writeFrame_written [of T "mkFrame DT_Ack q []" s]
  by (auto simp: mdrSent_def sendAck_def)

lemma mdrSent_frame [simp]: "mdrSent (handleDecodedFrame T f s) = mdrSent s"
proof -
  have "ss_written (handleDecodedFrame T f s) = ss_written s \<or>
     ss_written (handleDecodedFrame T f s) = ss_written (snd (sendAck T (1 - (fr_seq f AND 1)) s))"
    by (auto simp: handleDecodedFrame_def Let_def notifyAll_def split: option.split)
  then show ?thesis
    by (metis mdrSent_def mdrSent_sendAck)
qed

lemma mdrSent_bytes [simp]: "mdrSent (handleIncomingBytes T bs s) = mdrSent s"
proof -
  have "mdrSent (fold (handleDecodedFrame T) fs s) = mdrSent s" for fs s
    by (induction fs arbitrary: s) simp_all
  then show ?thesis
    by (simp add: handleIncomingBytes_def case_prod_unfold Let_def) (simp add: mdrSent_def)
qed

lemma mdrSent_cong: "ss_written s = ss_written s' \<Longrightarrow> mdrSent s = mdrSent s'"
  by (simp add: mdrSent_def)

lemma mdrSent_readerStep [simp]: "mdrSent (readerStep T s) = mdrSent s"
  by (auto simp: readerStep_def split: option.split prod.split sum.split intro: mdrSent_cong)

lemma mdrSent_wait [simp]: "mdrSent (waitReader T P n s) = mdrSent s"
  by (induction n arbitrary: s) simp_all

lemma mdrSent_write:
  "mdrSent (snd (writeFrame T f s)) \<in>
     {mdrSent s, mdrSent s @ (if fr_type f = DT_DataMdr then [fr_payload f] else [])}"
  using writeFrame_written [of T f s] by (auto simp: mdrSent_def)

lemma mdrSent_finish [simp]:
  "mdrSent (snd (finishSend T s)) = mdrSent s" "mdrSent (snd (finishRequest T s)) = mdrSent s"
  by (auto simp: finishSend_def finishRequest_def mdrSent_def split: option.split)

lemma prepare_frames:
  "fr_payload (fst (prepareSend f s)) = fr_payload f" "fr_type (fst (prepareSend f s)) = fr_type f"
  "ss_written (snd (prepareSend f s)) = ss_written s"
  "fr_payload (fst (prepareRequest f op sub s)) = fr_payload f"
  "fr_type (fst (prepareRequest f op sub s)) = fr_type f"
  "ss_written (snd (prepareRequest f op sub s)) = ss_written s"
  by (auto simp: prepareSend_def prepareRequest_def stampFrame_def nextSequenceNumber_def
      Let_def case_prod_unfold split: option.split)

lemma mdrSent_send:
  "mdrSent (snd (session_send T polls (mdrFrame p) ms s)) \<in> {mdrSent s, mdrSent s @ [p]}"
proof (cases "isConnected T s")
  case True
  obtain g s1 where prep: "prepareSend (mdrFrame p) s = (g, s1)" by fastforce
  with prepare_frames(1-3) [of "mdrFrame p" s]
  have "fr_payload g = p" "fr_type g = DT_DataMdr" "mdrSent s1 = mdrSent s"
    by (auto simp: mdrFrame_def mdrSent_def)
  with mdrSent_write [of T g s1] show ?thesis
    by (auto simp: session_send_def True prep bindP_def split: prod.split sum.split)
qed (simp add: session_send_def)

lemma mdrSent_request:
  "mdrSent (snd (sendAndAwaitResponse T polls (mdrFrame p) op sub ms s)) \<in> {mdrSent s, mdrSent s @ [p]}"
proof (cases "isConnected T s")
  case True
  obtain g s1 where prep: "prepareRequest (mdrFrame p) op sub s = (g, s1)" by fastforce
  with prepare_frames(4-6) [of "mdrFrame p" op sub s]
  have "fr_payload g = p" "fr_type g = DT_DataMdr" "mdrSent s1 = mdrSent s"
    by (auto simp: mdrFrame_def mdrSent_def)
  with mdrSent_write [of T g s1] show ?thesis
    by (auto simp: sendAndAwaitResponse_def True prep bindP_def split: prod.split sum.split)
qed (simp add: sendAndAwaitResponse_def)

section \<open>The session as a link\<close>

definition session_link :: "'t ITransport \<Rightarrow> (nat \<Rightarrow> nat) \<Rightarrow> 't Session Link" where
  "session_link T polls = \<lparr>lk_send = session_send T polls, lk_request = sendAndAwaitResponse T polls\<rparr>"

interpretation sess: link_laws "session_link T polls" mdrSent for T polls
  by (unfold_locales, unfold session_link_def Link.simps)
     (rule mdrSent_send, rule mdrSent_request, rule request_matches)

end
