(* ===== verification/SessionSpec.thy ===== *)
theory SessionSpec
  imports Session
begin

text \<open>
  What a session promises, without transports, bytes and markers: a view of the state that
  frames act on one by one. The session refines it for every transport and every way the
  bytes are cut; over a transport that delivers what was queued (\<open>FakeTransport\<close>) a
  reader that runs long enough brings the view to the state after all transmitted frames.
\<close>

section \<open>The specification\<close>

record SessionView =
  sv_sequence :: u8
  sv_hasAck :: bool
  sv_pending :: "PendingRequest option"
  sv_unmatched :: "SonyFrame list"
  sv_lastSeen :: "u8 option"
  sv_callbacks :: "nat option list"
  sv_notified :: "(nat \<times> SonyFrame) list"

definition absSession :: "'t Session \<Rightarrow> SessionView" where
  "absSession s = \<lparr>sv_sequence = ss_sequence s, sv_hasAck = ss_hasAck s,
     sv_pending = ss_pendingRequest s, sv_unmatched = ss_unmatchedFrames s,
     sv_lastSeen = ss_lastSeenDataSeq s, sv_callbacks = ss_notificationCallbacks s,
     sv_notified = ss_notified s\<rparr>"

lemma absSession_simps [simp]:
  "sv_sequence (absSession s) = ss_sequence s" "sv_hasAck (absSession s) = ss_hasAck s"
  "sv_pending (absSession s) = ss_pendingRequest s" "sv_unmatched (absSession s) = ss_unmatchedFrames s"
  "sv_lastSeen (absSession s) = ss_lastSeenDataSeq s"
  "sv_callbacks (absSession s) = ss_notificationCallbacks s"
  "sv_notified (absSession s) = ss_notified s"
  by (simp_all add: absSession_def)

text \<open>An acknowledgement: its sequence number, when it is one, becomes the next to send.\<close>

definition spec_ack :: "SonyFrame \<Rightarrow> SessionView \<Rightarrow> SessionView" where
  "spec_ack f v = v\<lparr>sv_hasAck := True,
     sv_sequence := (if fr_seq f \<in> {0, 1} then fr_seq f else sv_sequence v),
     sv_pending := map_option (\<lambda>p. p\<lparr>pr_hasAck := True\<rparr>) (sv_pending v)\<rparr>"

text \<open>The request that is open and that the frame answers.\<close>

definition answers :: "SonyFrame \<Rightarrow> PendingRequest \<Rightarrow> bool" where
  "answers f p \<longleftrightarrow> \<not> pr_hasResponse p \<and>
     responseMatches (pr_expectedOpcode p) (pr_expectedSubtype p) (fr_payload f)"

definition spec_data :: "SonyFrame \<Rightarrow> SessionView \<Rightarrow> SessionView" where
  "spec_data f v =
     (if sv_lastSeen v = Some (fr_seq f) then v
      else if \<exists>p \<in> set_option (sv_pending v). answers f p
      then v\<lparr>sv_lastSeen := Some (fr_seq f),
             sv_pending := map_option (\<lambda>p. p\<lparr>pr_response := f, pr_hasResponse := True\<rparr>) (sv_pending v)\<rparr>
      else v\<lparr>sv_lastSeen := Some (fr_seq f), sv_unmatched := pushUnmatched f (sv_unmatched v),
             sv_notified := sv_notified v @
               map (\<lambda>cb. (cb, f)) (List.map_filter id (sv_callbacks v))\<rparr>)"

definition spec_frame :: "SonyFrame \<Rightarrow> SessionView \<Rightarrow> SessionView" where
  "spec_frame f v =
     (if fr_type f = DT_Ack then spec_ack f v
      else if fr_type f = DT_DataMdr then spec_data f v else v)"

section \<open>Refinement\<close>

lemma absSession_write [simp]: "absSession (snd (writeFrame T f s)) = absSession s"
  by (simp add: absSession_def)

lemma absSession_sendAck [simp]: "absSession (snd (sendAck T q s)) = absSession s"
  by (simp add: sendAck_def)

lemma absSession_local [simp]:
  "absSession (s\<lparr>ss_transport := t\<rparr>) = absSession s" "absSession (s\<lparr>ss_running := r\<rparr>) = absSession s"
  "absSession (s\<lparr>ss_streamBuffer := b\<rparr>) = absSession s"
  by (simp_all add: absSession_def)

lemma le_one_byte: "(x :: u8) \<le> 1 \<longleftrightarrow> x \<in> {0, 1}"
proof
  assume "x \<le> 1"
  then have "unat x \<le> 1" by (simp add: word_le_nat_alt)
  then have "unat x = unat (0 :: u8) \<or> unat x = unat (1 :: u8)" by auto
  then show "x \<in> {0, 1}" by (simp only: word_unat_eq_iff [symmetric]) simp
qed auto

lemma refine_data:
  assumes "s1 = snd (sendAck T (1 - (fr_seq f AND 1)) s)"
  shows "absSession (if ss_lastSeenDataSeq s1 = Some (fr_seq f) then s1
     else let s2 = s1\<lparr>ss_lastSeenDataSeq := Some (fr_seq f)\<rparr>
       in case matchPending f s2 of
            Some p \<Rightarrow> s2\<lparr>ss_pendingRequest := Some (p\<lparr>pr_response := f, pr_hasResponse := True\<rparr>)\<rparr>
          | None \<Rightarrow> notifyAll f (s2\<lparr>ss_unmatchedFrames := pushUnmatched f (ss_unmatchedFrames s2)\<rparr>))
     = spec_data f (absSession s)"
  unfolding assms
  by (cases "ss_pendingRequest s")
     (auto simp: absSession_def spec_data_def answers_def matchPending_def notifyAll_def Let_def)

lemma refine_frame: "absSession (handleDecodedFrame T f s) = spec_frame f (absSession s)"
proof (cases "fr_type f = DT_Ack")
  case True
  then show ?thesis
    by (auto simp: handleDecodedFrame_def spec_frame_def spec_ack_def absSession_def le_one_byte)
next
  case False
  with refine_data [OF refl, of T f s] show ?thesis
    by (simp add: handleDecodedFrame_def spec_frame_def Let_def)
qed

lemma refine_frames: "absSession (fold (handleDecodedFrame T) fs s) = fold spec_frame fs (absSession s)"
  by (induction fs arbitrary: s) (simp_all add: refine_frame)

lemma refine_bytes:
  "absSession (handleIncomingBytes T bs s)
   = fold spec_frame (fst (parseStream (ss_streamBuffer s @ bs))) (absSession s)"
  by (simp add: handleIncomingBytes_def case_prod_unfold Let_def refine_frames)

section \<open>Over a transport that delivers\<close>

definition goodFake :: "FakeTransport \<Rightarrow> bool" where
  "goodFake t \<longleftrightarrow> ft_connected t \<and> \<not> ft_simulateTimeoutOnReceive t \<and> \<not> ft_simulateTimeoutOnSend t"

text \<open>A session that reads from such a transport.\<close>

definition live :: "FakeTransport Session \<Rightarrow> bool" where
  "live s \<longleftrightarrow> ss_running s \<and> (\<exists>t. ss_transport s = Some t \<and> goodFake t)"

definition incoming :: "FakeTransport Session \<Rightarrow> u8 list" where
  "incoming s = (case ss_transport s of None \<Rightarrow> [] | Some t \<Rightarrow> ft_incomingQueue t)"

lemma live_connected: "live s \<Longrightarrow> isConnected fake_ops s"
  by (auto simp: live_def isConnected_def goodFake_def fake_isConnected_def)

lemma sendAll_good:
  assumes "goodFake t"
  shows "sendAll fake_ops bs t =
    (Inr (), if bs = [] then t else t\<lparr>ft_sentFrames := ft_sentFrames t @ [bs]\<rparr>)"
  using assms by (simp add: sendAll.simps fake_send_def goodFake_def)

lemma write_good:
  assumes "live s"
  shows "live (snd (writeFrame fake_ops f s))" "incoming (snd (writeFrame fake_ops f s)) = incoming s"
    "encode f = Inr w \<Longrightarrow> fst (writeFrame fake_ops f s) = Inr ()"
    "encode f = Inr w \<Longrightarrow> ss_written (snd (writeFrame fake_ops f s)) = ss_written s @ [f]"
  using assms
  by (auto simp: writeFrame_def live_def incoming_def sendAll_good goodFake_def fake_isConnected_def
      split: sum.split)

lemma live_cong [simp]:
  "live (s\<lparr>ss_lastSeenDataSeq := a\<rparr>) = live s" "live (s\<lparr>ss_pendingRequest := b\<rparr>) = live s"
  "live (s\<lparr>ss_unmatchedFrames := c\<rparr>) = live s" "live (s\<lparr>ss_notified := d\<rparr>) = live s"
  "live (s\<lparr>ss_hasAck := e\<rparr>) = live s" "live (s\<lparr>ss_sequence := g\<rparr>) = live s"
  "live (s\<lparr>ss_expectedAckSeq := h\<rparr>) = live s" "live (s\<lparr>ss_streamBuffer := i\<rparr>) = live s"
  by (simp_all add: live_def)

lemma incoming_cong [simp]:
  "incoming (s\<lparr>ss_lastSeenDataSeq := a\<rparr>) = incoming s"
  "incoming (s\<lparr>ss_pendingRequest := b\<rparr>) = incoming s"
  "incoming (s\<lparr>ss_unmatchedFrames := c\<rparr>) = incoming s" "incoming (s\<lparr>ss_notified := d\<rparr>) = incoming s"
  "incoming (s\<lparr>ss_hasAck := e\<rparr>) = incoming s" "incoming (s\<lparr>ss_sequence := g\<rparr>) = incoming s"
  "incoming (s\<lparr>ss_expectedAckSeq := h\<rparr>) = incoming s"
  "incoming (s\<lparr>ss_streamBuffer := i\<rparr>) = incoming s"
  by (simp_all add: incoming_def)

lemma frame_good:
  assumes "live s"
  shows "live (handleDecodedFrame fake_ops f s)" "incoming (handleDecodedFrame fake_ops f s) = incoming s"
  using assms
  by (simp_all add: handleDecodedFrame_def Let_def notifyAll_def sendAck_def write_good split: option.split)

lemma frames_good:
  "live s \<Longrightarrow> live (fold (handleDecodedFrame fake_ops) fs s) \<and>
    incoming (fold (handleDecodedFrame fake_ops) fs s) = incoming s"
  by (induction fs arbitrary: s) (simp_all add: frame_good)

lemma handleDecodedFrame_buffer [simp]: "ss_streamBuffer (handleDecodedFrame T f s) = ss_streamBuffer s"
  by (simp add: handleDecodedFrame_def Let_def notifyAll_def split: option.split)

lemma frames_buffer [simp]: "ss_streamBuffer (fold (handleDecodedFrame T) fs s) = ss_streamBuffer s"
  by (induction fs arbitrary: s) simp_all

text \<open>One iteration of the reader takes a non-empty piece off the queue, if there is one.\<close>

lemma reader_good:
  assumes "live s" and q: "incoming s \<noteq> []"
  obtains c where "c \<noteq> []" "incoming s = c @ incoming (readerStep fake_ops s)"
    "live (readerStep fake_ops s)"
    "ss_streamBuffer (readerStep fake_ops s) = snd (parseStream (ss_streamBuffer s @ c))"
    "absSession (readerStep fake_ops s) = fold spec_frame (fst (parseStream (ss_streamBuffer s @ c))) (absSession s)"
proof -
  from assms obtain t where t: "ss_transport s = Some t" "goodFake t" "ss_running s"
    and ne: "ft_incomingQueue t \<noteq> []" by (auto simp: live_def incoming_def)
  obtain c t' where rc: "fake_receive 1024 t = (Inr c, t')" and c: "c \<noteq> []" and t': "goodFake t'"
    using t ne by (auto simp: fake_receive_def goodFake_def Let_def split: option.split)
  let ?s = "s\<lparr>ss_transport := Some t'\<rparr>"
  have step: "readerStep fake_ops s = handleIncomingBytes fake_ops c ?s"
    using t rc c by (simp add: readerStep_def)
  let ?p = "parseStream (ss_streamBuffer s @ c)"
  have live': "live (?s\<lparr>ss_streamBuffer := snd ?p\<rparr>)" using t t' by (simp add: live_def)
  have form: "readerStep fake_ops s =
      fold (handleDecodedFrame fake_ops) (fst ?p) (?s\<lparr>ss_streamBuffer := snd ?p\<rparr>)"
    by (simp add: step handleIncomingBytes_def case_prod_unfold Let_def)
  show thesis
  proof (rule that [OF c])
    show "incoming s = c @ incoming (readerStep fake_ops s)"
      using frames_good [OF live'] fake_receive_queue [OF rc] t
      by (simp add: form) (simp add: incoming_def)
    show "live (readerStep fake_ops s)" using frames_good [OF live'] by (simp add: form)
    show "ss_streamBuffer (readerStep fake_ops s) = snd ?p" by (simp add: form)
    show "absSession (readerStep fake_ops s) = fold spec_frame (fst ?p) (absSession s)"
      by (simp add: form refine_frames)
  qed
qed

section \<open>Reading everything that was transmitted\<close>

text \<open>After the prefix \<open>p\<close> of the transmission has been read, from the view \<open>v\<close>.\<close>

definition consumed :: "(u8 list \<times> SonyFrame \<times> u8 list) list \<Rightarrow> SessionView \<Rightarrow> u8 list \<Rightarrow>
    FakeTransport Session \<Rightarrow> bool" where
  "consumed items v p s \<longleftrightarrow> live s \<and> p @ incoming s = wireBytes items \<and>
     ss_streamBuffer s = snd (parseStream p) \<and>
     absSession s = fold spec_frame (fst (parseStream p)) v"

abbreviation framesOf :: "(u8 list \<times> SonyFrame \<times> u8 list) list \<Rightarrow> SonyFrame list" where
  "framesOf items \<equiv> map (\<lambda>(_, f, _). f) items"

lemma consumed_start:
  "live s \<Longrightarrow> incoming s = wireBytes items \<Longrightarrow> ss_streamBuffer s = [] \<Longrightarrow>
   consumed items (absSession s) [] s"
  by (simp add: consumed_def parseStream_noise)

lemma consumed_end:
  "transmission items \<Longrightarrow> consumed items v (wireBytes items) s \<Longrightarrow>
   absSession s = fold spec_frame (framesOf items) v \<and> incoming s = []"
  by (simp add: consumed_def parseStream_transmission)

lemma consumed_step:
  assumes tr: "transmission items" and c: "consumed items v p s" and ne: "incoming s \<noteq> []"
  shows "\<exists>p'. consumed items v p' (readerStep fake_ops s) \<and>
    length (incoming (readerStep fake_ops s)) < length (incoming s)"
proof -
  from c have live: "live s" by (simp add: consumed_def)
  obtain b where b: "b \<noteq> []" "incoming s = b @ incoming (readerStep fake_ops s)"
    "live (readerStep fake_ops s)"
    "ss_streamBuffer (readerStep fake_ops s) = snd (parseStream (ss_streamBuffer s @ b))"
    "absSession (readerStep fake_ops s) = fold spec_frame (fst (parseStream (ss_streamBuffer s @ b))) (absSession s)"
    using reader_good [OF live ne] by blast
  have "prefix p (wireBytes items)" using c unfolding consumed_def prefix_def by metis
  then have "atFrame (snd (parseStream p))" by (rule atFrame_prefix [OF tr])
  from parseStream_append [OF this, of b] b c
  have "consumed items v (p @ b) (readerStep fake_ops s)"
    by (simp add: consumed_def)
  moreover have "length (incoming (readerStep fake_ops s)) < length (incoming s)"
    using b(1) by (simp add: b(2))
  ultimately show ?thesis by blast
qed

lemma reader_idle:
  assumes "live s" "incoming s = []" shows "readerStep fake_ops s = s"
proof -
  from assms obtain t where "ss_transport s = Some t" "goodFake t" "ss_running s" "ft_incomingQueue t = []"
    by (auto simp: live_def incoming_def)
  then show ?thesis by (simp add: readerStep_def fake_receive_def goodFake_def)
qed

lemma wait_idle: "live s \<Longrightarrow> incoming s = [] \<Longrightarrow> waitReader fake_ops P n s = s"
  by (induction n) (simp_all add: reader_idle)

text \<open>A waiter with enough iterations stops because it was woken, or has read everything.\<close>

lemma wait_consumes:
  assumes tr: "transmission items" and "consumed items v p s" "length (incoming s) \<le> n"
  shows "\<exists>p'. consumed items v p' (waitReader fake_ops P n s) \<and>
    (P (waitReader fake_ops P n s) \<or> p' = wireBytes items)"
  using assms(2-3)
proof (induction n arbitrary: p s)
  case 0
  then have "p = wireBytes items" by (auto simp: consumed_def)
  with 0 show ?case by auto
next
  case (Suc n)
  consider "P s" | "incoming s = []" | "\<not> P s" "incoming s \<noteq> []" by blast
  then show ?case
  proof cases
    case 2
    with Suc.prems have "p = wireBytes items" "live s" by (auto simp: consumed_def)
    with Suc.prems show ?thesis by (auto simp: wait_idle [OF \<open>live s\<close> 2] simp del: waitReader.simps)
  next
    case 3
    from consumed_step [OF tr Suc.prems(1) 3(2)] obtain p' where
      "consumed items v p' (readerStep fake_ops s)"
      "length (incoming (readerStep fake_ops s)) < length (incoming s)" by blast
    with Suc.IH [of p' "readerStep fake_ops s"] Suc.prems(2) 3(1) show ?thesis by simp
  qed (use Suc.prems in auto)
qed

section \<open>What the view comes to\<close>

lemma spec_hasAck: "sv_hasAck v \<Longrightarrow> sv_hasAck (fold spec_frame fs v)"
  by (induction fs arbitrary: v) (auto simp: spec_frame_def spec_ack_def spec_data_def)

lemma spec_acked:
  assumes "f \<in> set fs" "fr_type f = DT_Ack" shows "sv_hasAck (fold spec_frame fs v)"
proof -
  from assms(1) obtain xs ys where "fs = xs @ f # ys" by (auto dest: split_list)
  moreover have "sv_hasAck (spec_frame f w)" for w using assms(2) by (simp add: spec_frame_def spec_ack_def)
  ultimately show ?thesis by (simp add: spec_hasAck)
qed

text \<open>The sequence number of the last data frame.\<close>

fun seqAfter :: "u8 option \<Rightarrow> SonyFrame list \<Rightarrow> u8 option" where
  "seqAfter q [] = q"
| "seqAfter q (f # fs) = seqAfter (if fr_type f = DT_DataMdr then Some (fr_seq f) else q) fs"

lemma spec_lastSeen: "sv_lastSeen (fold spec_frame fs v) = seqAfter (sv_lastSeen v) fs"
proof (induction fs arbitrary: v)
  case (Cons f fs)
  have "sv_lastSeen (spec_frame f v) = (if fr_type f = DT_DataMdr then Some (fr_seq f) else sv_lastSeen v)"
    by (auto simp: spec_frame_def spec_ack_def spec_data_def)
  with Cons show ?case by simp
qed simp

text \<open>A request for \<open>op\<close>, \<open>sub\<close> is open, and if answered, by a frame of \<open>A\<close>.\<close>

definition openFor :: "u8 \<Rightarrow> int \<Rightarrow> SonyFrame set \<Rightarrow> SessionView \<Rightarrow> bool" where
  "openFor op sub A v \<longleftrightarrow> (\<exists>p. sv_pending v = Some p \<and> pr_expectedOpcode p = op \<and>
     pr_expectedSubtype p = sub \<and> (pr_hasResponse p \<longrightarrow> pr_response p \<in> A))"

definition answered :: "SessionView \<Rightarrow> bool" where
  "answered v \<longleftrightarrow> (\<exists>p. sv_pending v = Some p \<and> pr_hasResponse p)"

lemma answered_open: "answered v \<Longrightarrow> openFor op sub A v \<Longrightarrow>
    \<exists>q. sv_pending v = Some q \<and> pr_hasResponse q \<and> pr_response q \<in> A"
  by (auto simp: answered_def openFor_def)

lemma openFor_frame: "openFor op sub A v \<Longrightarrow> f \<in> A \<Longrightarrow> openFor op sub A (spec_frame f v)"
  by (auto simp: openFor_def spec_frame_def spec_ack_def spec_data_def)

lemma openFor_frames:
  "openFor op sub A v \<Longrightarrow> set fs \<subseteq> A \<Longrightarrow> openFor op sub A (fold spec_frame fs v)"
  by (induction fs arbitrary: v) (auto intro: openFor_frame)

lemma answered_frames: "answered v \<Longrightarrow> answered (fold spec_frame fs v)"
proof (induction fs arbitrary: v)
  case (Cons f fs)
  from Cons.prems have "answered (spec_frame f v)"
    by (auto simp: answered_def spec_frame_def spec_ack_def spec_data_def)
  then show ?case using Cons.IH by simp
qed simp

lemma spec_answered:
  assumes "openFor op sub A v" "set fs \<subseteq> A" "fs = pre @ r # post"
    and r: "fr_type r = DT_DataMdr" "responseMatches op sub (fr_payload r)"
    and new: "seqAfter (sv_lastSeen v) pre \<noteq> Some (fr_seq r)"
  shows "answered (fold spec_frame fs v)"
proof -
  let ?v = "fold spec_frame pre v"
  have "openFor op sub A ?v" using assms(1-3) by (auto intro: openFor_frames)
  moreover have "sv_lastSeen ?v \<noteq> Some (fr_seq r)" using new by (simp add: spec_lastSeen)
  ultimately have "answered (spec_frame r ?v)"
    using r by (auto simp: openFor_def answered_def answers_def spec_frame_def spec_data_def)
  then show ?thesis by (simp add: assms(3) answered_frames)
qed

section \<open>Calls that complete\<close>

lemma prepare_local:
  "ss_streamBuffer (snd (prepareSend f s)) = ss_streamBuffer s" "live (snd (prepareSend f s)) = live s"
  "incoming (snd (prepareSend f s)) = incoming s"
  "ss_streamBuffer (snd (prepareRequest f op sub s)) = ss_streamBuffer s"
  "live (snd (prepareRequest f op sub s)) = live s"
  "incoming (snd (prepareRequest f op sub s)) = incoming s"
  "ss_lastSeenDataSeq (snd (prepareRequest f op sub s)) = ss_lastSeenDataSeq s"
  by (simp_all add: prepareSend_def prepareRequest_def stampFrame_def nextSequenceNumber_def Let_def
      case_prod_unfold split: option.split)

lemma takeMatching_member: "takeMatching op sub fs = Some (f, rest) \<Longrightarrow> f \<in> set fs"
  by (induction fs arbitrary: rest) (auto split: if_splits)

lemma openFor_prepare:
  "openFor op sub (set (ss_unmatchedFrames s) \<union> A) (absSession (snd (prepareRequest f op sub s)))"
  using takeMatching_member [of op sub "ss_unmatchedFrames s"]
  by (auto simp: prepareRequest_def openFor_def absSession_def stampFrame_def nextSequenceNumber_def
      Let_def case_prod_unfold split: option.split)

text \<open>The frames read so far are frames of the transmission.\<close>

lemma consumed_frames:
  assumes tr: "transmission items" and c: "consumed items v p s"
  shows "set (fst (parseStream p)) \<subseteq> set (framesOf items)"
proof -
  have w: "p @ incoming s = wireBytes items" using c by (simp add: consumed_def)
  then have "prefix p (wireBytes items)" unfolding prefix_def by metis
  from parseStream_append [OF atFrame_prefix [OF tr this], of "incoming s"] w
  have "prefix (fst (parseStream p)) (framesOf items)"
    by (simp add: parseStream_transmission [OF tr])
  then show ?thesis by (rule set_mono_prefix)
qed

lemma write_live:
  assumes "live s" "length (fr_payload f) \<le> 1016"
  obtains s' where "writeFrame fake_ops f s = (Inr (), s')" "live s'" "incoming s' = incoming s"
    "ss_streamBuffer s' = ss_streamBuffer s" "absSession s' = absSession s"
proof -
  obtain w where "encode f = Inr w" using encode_total [OF assms(2)] by blast
  with write_good [OF assms(1), of f] have "writeFrame fake_ops f s = (Inr (), snd (writeFrame fake_ops f s))"
    by (simp add: prod_eq_iff)
  with write_good(1,2) [OF assms(1), of f] show thesis
    by (intro that [of "snd (writeFrame fake_ops f s)"]) simp_all
qed

text \<open>A session on a transport with the given bytes to deliver.\<close>

definition fakeSession :: "u8 list \<Rightarrow> FakeTransport Session" where
  "fakeSession bs =
     (newSession (Some (FakeTransport_new\<lparr>ft_connected := True, ft_incomingQueue := bs\<rparr>)))\<lparr>ss_running := True\<rparr>"

lemma fakeSession_live: "live (fakeSession bs)" "incoming (fakeSession bs) = bs"
  "ss_streamBuffer (fakeSession bs) = []" "ss_lastSeenDataSeq (fakeSession bs) = None"
  "ss_unmatchedFrames (fakeSession bs) = []"
  by (simp_all add: fakeSession_def newSession_def live_def incoming_def goodFake_def FakeTransport_new_def)

text \<open>An acknowledgement and a battery answer, with a stray byte between them.\<close>

definition ackWire :: "u8 list" where "ackWire = [0x3e, 0x01, 0x01, 0, 0, 0, 0, 0x02, 0x3c]"
definition batteryWire :: "u8 list" where
  "batteryWire = [0x3e, 0x0c, 0, 0, 0, 0, 0x04, 0x11, 0, 80, 1, 0x72, 0x3c]"
definition batteryItems :: "(u8 list \<times> SonyFrame \<times> u8 list) list" where
  "batteryItems = [([], mkFrame DT_Ack 1 [], ackWire),
     ([0x55], mkFrame DT_DataMdr 0 [0x11, 0, 80, 1], batteryWire)]"

lemma batteryItems_transmission: "transmission batteryItems"
proof -
  have "encode (mkFrame DT_Ack 1 []) = Inr ackWire"
    "encode (mkFrame DT_DataMdr 0 [0x11, 0, 80, 1]) = Inr batteryWire"
    by code_simp+
  then show ?thesis by (simp add: transmission_def batteryItems_def marker_defs)
qed

lemma battery_frames:
  "framesOf batteryItems = [mkFrame DT_Ack 1 []] @ mkFrame DT_DataMdr 0 [0x11, 0, 80, 1] # []"
  "length (wireBytes batteryItems) = 23"
  by (simp_all add: batteryItems_def wireBytes_def ackWire_def batteryWire_def)





section \<open>Delivery and acknowledgement\<close>

lemma wait_funpow: "waitReader T (\<lambda>_. False) n s = (readerStep T ^^ n) s"
  by (induction n arbitrary: s) (simp_all add: funpow_swap1)

text \<open>C6: The reader delivers. Whatever the transport chops the bytes of a transmission into
  (at most 1024 per read, or fewer), a reader that runs one iteration per byte brings the
  session to the state that the specification reaches from the transmitted frames alone:
  sequence number, pending request, buffered frames, notifications and all. Noise, frame
  boundaries and chunk sizes leave no trace.\<close>

theorem reader_delivers:
  assumes "live s" "ss_streamBuffer s = []" "transmission items" "incoming s = wireBytes items"
    and "length (wireBytes items) \<le> n"
  shows "absSession ((readerStep fake_ops ^^ n) s) = fold spec_frame (framesOf items) (absSession s)"
proof -
  have "consumed items (absSession s) [] s" using assms by (intro consumed_start) simp_all
  from wait_consumes [OF assms(3) this, where n = n and P = "\<lambda>_. False"] assms
  have "consumed items (absSession s) (wireBytes items) ((readerStep fake_ops ^^ n) s)"
    by (auto simp: wait_funpow)
  then show ?thesis using consumed_end [OF assms(3)] by blast
qed

theorem reader_delivers_witness:
  "absSession ((readerStep fake_ops ^^ 23) (fakeSession (wireBytes batteryItems)))
   = fold spec_frame (framesOf batteryItems) (absSession (fakeSession (wireBytes batteryItems)))"
  by (rule reader_delivers)
     (simp_all only: fakeSession_live batteryItems_transmission battery_frames order_refl)

definition ackFor :: "SonyFrame \<Rightarrow> SonyFrame" where
  "ackFor f = mkFrame DT_Ack (1 - (fr_seq f AND 1)) []"

lemma frame_written:
  assumes "live s"
  shows "ss_written (handleDecodedFrame fake_ops f s)
    = ss_written s @ (if fr_type f = DT_DataMdr then [ackFor f] else [])"
proof -
  obtain w where "encode (ackFor f) = Inr w" using encode_total [of "ackFor f"] by (auto simp: ackFor_def)
  with write_good(4) [OF assms this] have "ss_written (snd (sendAck fake_ops (1 - (fr_seq f AND 1)) s)) =
      ss_written s @ [ackFor f]"
    by (simp add: sendAck_def ackFor_def)
  then show ?thesis
    by (auto simp: handleDecodedFrame_def Let_def notifyAll_def split: option.split)
qed

text \<open>C8: Exactly one acknowledgement per data frame, with the toggled sequence bit, in the
  order of the frames, and none for any other frame; repetitions are acknowledged too but
  change nothing that a client can see.\<close>

theorem frames_acknowledged:
  assumes "live s"
  shows "ss_written (fold (handleDecodedFrame fake_ops) fs s)
      = ss_written s @ map ackFor (filter (\<lambda>f. fr_type f = DT_DataMdr) fs) \<and>
    (fr_type f = DT_DataMdr \<longrightarrow> ss_lastSeenDataSeq s = Some (fr_seq f) \<longrightarrow>
       absSession (handleDecodedFrame fake_ops f s) = absSession s)"
proof
  show "ss_written (fold (handleDecodedFrame fake_ops) fs s)
      = ss_written s @ map ackFor (filter (\<lambda>f. fr_type f = DT_DataMdr) fs)"
    using assms by (induction fs arbitrary: s) (auto simp: frame_good frame_written)
  show "fr_type f = DT_DataMdr \<longrightarrow> ss_lastSeenDataSeq s = Some (fr_seq f) \<longrightarrow>
       absSession (handleDecodedFrame fake_ops f s) = absSession s"
    by (simp add: refine_frame spec_frame_def spec_data_def)
qed

theorem frames_acknowledged_witness:
  "absSession (handleDecodedFrame fake_ops (mkFrame DT_DataMdr 1 [0x25])
     ((fakeSession [])\<lparr>ss_lastSeenDataSeq := Some 1\<rparr>)) = absSession ((fakeSession [])\<lparr>ss_lastSeenDataSeq := Some 1\<rparr>)"
  using frames_acknowledged [of "(fakeSession [])\<lparr>ss_lastSeenDataSeq := Some 1\<rparr>" "[]" "mkFrame DT_DataMdr 1 [0x25]"]
  by (simp add: fakeSession_live)

text \<open>C9: Every new data frame goes to exactly one place: it answers the open request and is
  not notified, or it is buffered for a later request and handed once to every registered
  callback.\<close>

theorem frame_routed:
  assumes "fr_type f = DT_DataMdr" "ss_lastSeenDataSeq s \<noteq> Some (fr_seq f)"
    and s'_def: "s' = handleDecodedFrame T f s"
  shows "if \<exists>p. ss_pendingRequest s = Some p \<and> answers f p
    then (\<exists>p. ss_pendingRequest s' = Some p \<and> pr_hasResponse p \<and> pr_response p = f) \<and>
      ss_unmatchedFrames s' = ss_unmatchedFrames s \<and> ss_notified s' = ss_notified s
    else ss_pendingRequest s' = ss_pendingRequest s \<and>
      last (ss_unmatchedFrames s') = f \<and>
      ss_notified s' = ss_notified s @ map (\<lambda>cb. (cb, f)) (List.map_filter id (ss_notificationCallbacks s))"
proof -
  have "absSession s' = spec_data f (absSession s)"
    using assms(1) by (simp add: s'_def refine_frame spec_frame_def)
  then have v: "ss_pendingRequest s' = sv_pending (spec_data f (absSession s))"
    "ss_unmatchedFrames s' = sv_unmatched (spec_data f (absSession s))"
    "ss_notified s' = sv_notified (spec_data f (absSession s))"
    by (metis absSession_simps)+
  have "last (pushUnmatched f q) = f" for q by (cases q) (auto simp: pushUnmatched_def Let_def)
  with assms(2) show ?thesis
    unfolding v by (cases "ss_pendingRequest s") (auto simp: spec_data_def)
qed

theorem frame_routed_witness:
  "ss_notified (handleDecodedFrame fake_ops (mkFrame DT_DataMdr 1 [0x25])
     ((fakeSession [])\<lparr>ss_notificationCallbacks := [Some 7, None]\<rparr>)) = [(7, mkFrame DT_DataMdr 1 [0x25])]"
  using frame_routed [of "mkFrame DT_DataMdr 1 [0x25]" "(fakeSession [])\<lparr>ss_notificationCallbacks := [Some 7, None]\<rparr>", OF _ _ refl, of fake_ops]
  by (simp add: fakeSession_def newSession_def List.map_filter_def)

end
