(* ===== verification/SessionConcurrency.thy ===== *)
theory SessionConcurrency
  imports SessionSpec
begin

text \<open>
  The session's threads, interleaved. The callers, one at a time under \<open>_sendMtx\<close>, prepare,
  write, wait and finish; the reader receives and parses, then handles frame by frame; another
  thread may disconnect or start the session at any moment in between. Each block that the
  code runs under \<open>_sessionMtx\<close> or \<open>_writeMtx\<close> is one step. The big-step operations of
  \<open>Session\<close> are particular runs of this system.
\<close>

section \<open>The system\<close>

text \<open>Where the caller that holds \<open>_sendMtx\<close> is.\<close>

datatype SenderPhase =
    Idle
  | SendReady SonyFrame
  | SendWaiting
  | RequestReady SonyFrame u8 int
  | RequestWaiting u8 int

text \<open>\<open>sy_inbox\<close> are the frames that the reader has parsed and not yet handled,
  \<open>sy_answers\<close> the responses returned so far, each with what was asked for.\<close>

record 't System =
  sy_session :: "'t Session"
  sy_phase :: SenderPhase
  sy_inbox :: "SonyFrame list"
  sy_answers :: "(u8 \<times> int \<times> SonyFrame) list"

definition initSystem :: "'t option \<Rightarrow> 't System" where
  "initSystem t = \<lparr>sy_session = newSession t, sy_phase = Idle, sy_inbox = [], sy_answers = []\<rparr>"

text \<open>The part of \<open>_readerLoop\<close> before the frames are handled: one \<open>receive\<close>, appended and
  parsed under the lock.\<close>

definition readerRecv :: "'t ITransport \<Rightarrow> 't Session \<Rightarrow> SonyFrame list \<times> 't Session" where
  "readerRecv T s =
     (if \<not> ss_running s then ([], s)
      else case ss_transport s of
        None \<Rightarrow> ([], s\<lparr>ss_running := False\<rparr>)
      | Some t \<Rightarrow>
          (case t_receive T 1024 t of
             (Inr bytes, t') \<Rightarrow>
               if bytes = [] then ([], s\<lparr>ss_transport := Some t', ss_running := False\<rparr>)
               else let (frames, left) = parseStream (ss_streamBuffer s @ bytes)
                 in (frames, s\<lparr>ss_transport := Some t', ss_streamBuffer := left\<rparr>)
           | (Inl e, t') \<Rightarrow>
               ([], s\<lparr>ss_transport := Some t', ss_running := (if isTimeout e then ss_running s else False)\<rparr>)))"

text \<open>\<open>disconnect\<close> joins the reader first, so its inbox is empty. A \<open>connect\<close> of a session that does not
  run any more clears it without waiting for the reader, which may then handle what it still has
  (\<open>ReaderThread\<close> has the steps in between).\<close>

inductive sysStep :: "'t ITransport \<Rightarrow> 't System \<Rightarrow> 't System \<Rightarrow> bool" for T :: "'t ITransport" where
  SendPrepare: "sy_phase y = Idle \<Longrightarrow> isConnected T (sy_session y) \<Longrightarrow>
     prepareSend f (sy_session y) = (g, s') \<Longrightarrow>
     sysStep T y (y\<lparr>sy_session := s', sy_phase := SendReady g\<rparr>)"
| SendWrite: "sy_phase y = SendReady g \<Longrightarrow> writeFrame T g (sy_session y) = (Inr u, s') \<Longrightarrow>
     sysStep T y (y\<lparr>sy_session := s', sy_phase := SendWaiting\<rparr>)"
| SendWriteFails: "sy_phase y = SendReady g \<Longrightarrow> writeFrame T g (sy_session y) = (Inl e, s') \<Longrightarrow>
     sysStep T y (y\<lparr>sy_session := s', sy_phase := Idle\<rparr>)"
| SendFinish: "sy_phase y = SendWaiting \<Longrightarrow> finishSend T (sy_session y) = (r, s') \<Longrightarrow>
     sysStep T y (y\<lparr>sy_session := s', sy_phase := Idle\<rparr>)"
| RequestPrepare: "sy_phase y = Idle \<Longrightarrow> isConnected T (sy_session y) \<Longrightarrow>
     prepareRequest f op sub (sy_session y) = (g, s') \<Longrightarrow>
     sysStep T y (y\<lparr>sy_session := s', sy_phase := RequestReady g op sub\<rparr>)"
| RequestWrite: "sy_phase y = RequestReady g op sub \<Longrightarrow> writeFrame T g (sy_session y) = (Inr u, s') \<Longrightarrow>
     sysStep T y (y\<lparr>sy_session := s', sy_phase := RequestWaiting op sub\<rparr>)"
| RequestWriteFails: "sy_phase y = RequestReady g op sub \<Longrightarrow> writeFrame T g (sy_session y) = (Inl e, s') \<Longrightarrow>
     sysStep T y (y\<lparr>sy_session := s', sy_phase := Idle\<rparr>)"
| RequestFinish: "sy_phase y = RequestWaiting op sub \<Longrightarrow> finishRequest T (sy_session y) = (Inr r, s') \<Longrightarrow>
     sysStep T y (y\<lparr>sy_session := s', sy_phase := Idle, sy_answers := sy_answers y @ [(op, sub, r)]\<rparr>)"
| RequestFails: "sy_phase y = RequestWaiting op sub \<Longrightarrow> finishRequest T (sy_session y) = (Inl e, s') \<Longrightarrow>
     sysStep T y (y\<lparr>sy_session := s', sy_phase := Idle\<rparr>)"
| Receive: "sy_inbox y = [] \<Longrightarrow> readerRecv T (sy_session y) = (fs, s') \<Longrightarrow>
     sysStep T y (y\<lparr>sy_session := s', sy_inbox := fs\<rparr>)"
| Handle: "sy_inbox y = f # fs \<Longrightarrow>
     sysStep T y (y\<lparr>sy_session := handleDecodedFrame T f (sy_session y), sy_inbox := fs\<rparr>)"
| Disconnect: "sy_inbox y = [] \<Longrightarrow>
     sysStep T y (y\<lparr>sy_session := session_disconnect T (sy_session y)\<rparr>)"
| Connect: "(ss_running (sy_session y) \<longrightarrow> sy_inbox y = []) \<Longrightarrow> session_connect T a (sy_session y) = (r, s') \<Longrightarrow>
     sysStep T y (y\<lparr>sy_session := s'\<rparr>)"

inductive_cases sysStepE: "sysStep T y y'"

abbreviation sysRun :: "'t ITransport \<Rightarrow> 't System \<Rightarrow> 't System \<Rightarrow> bool" where
  "sysRun T \<equiv> (sysStep T)\<^sup>*\<^sup>*"

section \<open>Invariants of every interleaving\<close>

text \<open>The pending request, if any, is the one the caller waits for.\<close>

definition pendingIs :: "u8 \<Rightarrow> int \<Rightarrow> 't Session \<Rightarrow> bool" where
  "pendingIs op sub s \<longleftrightarrow> ss_pendingRequest s = None \<or> pendingFor op sub s"

definition phaseOk :: "SenderPhase \<Rightarrow> 't Session \<Rightarrow> bool" where
  "phaseOk ph s = (case ph of RequestReady g op sub \<Rightarrow> pendingIs op sub s
     | RequestWaiting op sub \<Rightarrow> pendingIs op sub s | _ \<Rightarrow> True)"

definition answersOk :: "(u8 \<times> int \<times> SonyFrame) list \<Rightarrow> bool" where
  "answersOk as \<longleftrightarrow> list_all (\<lambda>(op, sub, r). responseMatches op sub (fr_payload r)) as"

definition sysInv :: "'t System \<Rightarrow> bool" where
  "sysInv y \<longleftrightarrow> sessionInv (sy_session y) \<and> phaseOk (sy_phase y) (sy_session y) \<and> answersOk (sy_answers y)"

lemma pendingIs_write: "pendingIs op sub s \<Longrightarrow> pendingIs op sub (snd (writeFrame T f s))"
  by (auto simp: pendingIs_def pendingFor_write)

lemma pendingIs_frame: "pendingIs op sub s \<Longrightarrow> pendingIs op sub (handleDecodedFrame T f s)"
proof (cases "ss_pendingRequest s")
  case None
  then have "ss_pendingRequest (handleDecodedFrame T f s) = None"
    by (simp add: handleDecodedFrame_def Let_def notifyAll_def matchPending_def)
  then show ?thesis by (simp add: pendingIs_def)
qed (auto simp: pendingIs_def pendingFor_frame)

lemma phaseOk_keep:
  assumes "\<And>op sub. pendingIs op sub s \<Longrightarrow> pendingIs op sub s'" "phaseOk ph s"
  shows "phaseOk ph s'"
  using assms by (auto simp: phaseOk_def split: SenderPhase.splits)

lemma sessionInv_fields:
  "ss_unmatchedFrames s' = ss_unmatchedFrames s \<Longrightarrow> ss_sequence s' = ss_sequence s \<Longrightarrow>
   ss_streamBuffer s' = ss_streamBuffer s \<Longrightarrow> ss_pendingRequest s' = ss_pendingRequest s \<Longrightarrow>
   sessionInv s' = sessionInv s"
  by (simp add: sessionInv_def pendingOk_def)

lemma next_sequence:
  assumes "ss_sequence s \<le> 2"
  shows "fst (nextSequenceNumber s) \<le> 1" "ss_sequence (snd (nextSequenceNumber s)) \<le> 2"
proof -
  have "unat (ss_sequence s) \<le> 2" using assms by (simp add: word_le_nat_alt)
  then have "unat (ss_sequence s) = 0 \<or> unat (ss_sequence s) = 1 \<or> unat (ss_sequence s) = 2" by linarith
  moreover have "ss_sequence s = of_nat (unat (ss_sequence s))" by simp
  ultimately have "ss_sequence s = 0 \<or> ss_sequence s = 1 \<or> ss_sequence s = 2"
    by (elim disjE) (simp_all only: of_nat_0 of_nat_1 of_nat_numeral, simp_all)
  then show "fst (nextSequenceNumber s) \<le> 1" "ss_sequence (snd (nextSequenceNumber s)) \<le> 2"
    by (elim disjE; simp add: nextSequenceNumber_def Let_def)+
qed

lemma sessionInv_stamp: "sessionInv s \<Longrightarrow> sessionInv (snd (stampFrame f s))"
proof -
  assume inv: "sessionInv s"
  then have "ss_sequence (snd (nextSequenceNumber s)) \<le> 2"
    by (intro next_sequence) (simp add: sessionInv_def)
  with inv show ?thesis
    by (auto simp: stampFrame_def sessionInv_def pendingOk_def nextSequenceNumber_def Let_def case_prod_unfold)
qed

lemma sessionInv_prepareSend: "sessionInv s \<Longrightarrow> sessionInv (snd (prepareSend f s))"
  using sessionInv_stamp [of s f]
  by (simp add: prepareSend_def Let_def case_prod_unfold sessionInv_def pendingOk_def)

lemma sessionInv_prepareRequest: "sessionInv s \<Longrightarrow> sessionInv (snd (prepareRequest f op sub s))"
  using sessionInv_stamp [of s f]
  by (auto simp: prepareRequest_def Let_def case_prod_unfold sessionInv_def pendingOk_def
      dest: takeMatching_matches length_takeMatching split: option.split)

lemma sessionInv_finish:
  "sessionInv s \<Longrightarrow> sessionInv (snd (finishSend T s))" "sessionInv s \<Longrightarrow> sessionInv (snd (finishRequest T s))"
  by (auto simp: finishSend_def finishRequest_def sessionInv_def pendingOk_def split: option.split)

lemma sessionInv_disconnect: "sessionInv s \<Longrightarrow> sessionInv (session_disconnect T s)"
  by (simp add: session_disconnect_def clearSession_def sessionInv_def streamOk_def pendingOk_def)

lemma sessionInv_start: "sessionInv s \<Longrightarrow> sessionInv (snd (session_start T s))"
  by (simp add: session_start_def clearSession_def sessionInv_def streamOk_def pendingOk_def)

lemma sessionInv_transport: "sessionInv s \<Longrightarrow> sessionInv (s\<lparr>ss_transport := t\<rparr>)"
  by (simp add: sessionInv_def pendingOk_def)

lemma sessionInv_connect:
  assumes "sessionInv s" shows "sessionInv (snd (session_connect T a s))"
proof -
  define s1 where "s1 = (if isConnected T s \<or> ss_running s then session_disconnect T s else s)"
  have inv1: "sessionInv s1" using assms by (simp add: s1_def sessionInv_disconnect)
  have "session_connect T a s = (case ss_transport s1 of
        None \<Rightarrow> (Inl (SonyException TransportFailure ''No transport configured''), s1)
      | Some t \<Rightarrow> (case t_connect T a t of
            (Inl e, t') \<Rightarrow> (Inl e, s1\<lparr>ss_transport := Some t'\<rparr>)
          | (Inr _, t') \<Rightarrow> session_start T (s1\<lparr>ss_transport := Some t'\<rparr>)))"
    by (simp only: session_connect_def Let_def s1_def)
  then show ?thesis
    using inv1 by (auto simp: sessionInv_transport sessionInv_start split: option.split prod.split sum.split)
qed

lemma pending_finish:
  "ss_pendingRequest (snd (finishSend T s)) = ss_pendingRequest s"
  by (simp add: finishSend_def)

lemma pendingIs_cong: "ss_pendingRequest s' = ss_pendingRequest s \<Longrightarrow> pendingIs op sub s' = pendingIs op sub s"
  by (simp add: pendingIs_def pendingFor_def pendingOk_def)

lemma pendingIs_cleared: "ss_pendingRequest s = None \<Longrightarrow> pendingIs op sub s"
  by (simp add: pendingIs_def)

lemma connect_pending:
  "ss_pendingRequest (snd (session_connect T a s)) \<in> {None, ss_pendingRequest s}"
proof -
  have start: "ss_pendingRequest (snd (session_start T s')) \<in> {None, ss_pendingRequest s'}" for s'
    by (simp add: session_start_def clearSession_def)
  define s1 where "s1 = (if isConnected T s \<or> ss_running s then session_disconnect T s else s)"
  have s1: "ss_pendingRequest s1 \<in> {None, ss_pendingRequest s}"
    by (simp add: s1_def session_disconnect_def clearSession_def)
  have "session_connect T a s = (case ss_transport s1 of
        None \<Rightarrow> (Inl (SonyException TransportFailure ''No transport configured''), s1)
      | Some t \<Rightarrow> (case t_connect T a t of
            (Inl e, t') \<Rightarrow> (Inl e, s1\<lparr>ss_transport := Some t'\<rparr>)
          | (Inr _, t') \<Rightarrow> session_start T (s1\<lparr>ss_transport := Some t'\<rparr>)))"
    by (simp only: session_connect_def Let_def s1_def)
  moreover have "ss_pendingRequest (snd (session_start T (s1\<lparr>ss_transport := t\<rparr>))) \<in> {None, ss_pendingRequest s}" for t
    using start [of "s1\<lparr>ss_transport := t\<rparr>"] s1 by auto
  ultimately show ?thesis using s1 by (auto split: option.split prod.split sum.split)
qed

lemma readerRecv_pending: "ss_pendingRequest (snd (readerRecv T s)) = ss_pendingRequest s"
  by (simp add: readerRecv_def case_prod_unfold Let_def split: option.split sum.split)

context transport_laws
begin

lemma sessionInv_recv:
  assumes inv: "sessionInv s" shows "sessionInv (snd (readerRecv T s))"
proof -
  have bytes: "sessionInv (s\<lparr>ss_transport := t', ss_streamBuffer := snd (parseStream (ss_streamBuffer s @ bytes))\<rparr>)"
    if "length bytes \<le> 1024" for bytes t'
  proof -
    from inv have "length (snd (parseStream (ss_streamBuffer s @ bytes))) \<le> 5119"
      using that by (intro streamOk_bound) (auto simp: sessionInv_def)
    then show ?thesis using inv parseStream_keeps by (auto simp: sessionInv_def pendingOk_def)
  qed
  have same: "sessionInv (s\<lparr>ss_transport := t'\<rparr>)" "sessionInv (s\<lparr>ss_running := r\<rparr>)"
    "sessionInv (s\<lparr>ss_transport := t', ss_running := r\<rparr>)" for t' r
    using inv by (auto simp: sessionInv_def pendingOk_def)
  have bound: "fst (t_receive T 1024 t) = Inr bs \<Longrightarrow> length bs \<le> 1024" for t bs
    using receive_bound [of 1024 t bs "snd (t_receive T 1024 t)"] by (simp add: prod_eq_iff)
  show ?thesis
    using inv by (auto simp: readerRecv_def same bytes bound Let_def case_prod_unfold
        split: option.split sum.split)
qed

lemma sysInv_step:
  assumes step: "sysStep T y y'" and inv: "sysInv y"
  shows "sysInv y'"
proof -
  note sinv = inv [unfolded sysInv_def, THEN conjunct1]
  note rest = inv [unfolded sysInv_def, THEN conjunct2]
  from step show ?thesis
  proof cases
    case (SendPrepare f g s')
    with sinv rest sessionInv_prepareSend [of "sy_session y" f] show ?thesis
      by (simp add: sysInv_def phaseOk_def)
  next
    case (SendWrite g u s')
    with sinv rest sessionInv_writeFrame [of "sy_session y" T g] show ?thesis
      by (simp add: sysInv_def phaseOk_def)
  next
    case (SendWriteFails g e s')
    with sinv rest sessionInv_writeFrame [of "sy_session y" T g] show ?thesis
      by (simp add: sysInv_def phaseOk_def)
  next
    case (SendFinish r s')
    with sinv rest sessionInv_finish(1) [of "sy_session y" T] show ?thesis
      by (simp add: sysInv_def phaseOk_def)
  next
    case (RequestPrepare f op sub g s')
    with sinv rest sessionInv_prepareRequest [of "sy_session y" f op sub]
      pendingFor_prepare [of op sub f "sy_session y"] show ?thesis
      by (simp add: sysInv_def phaseOk_def pendingIs_def)
  next
    case (RequestWrite g op sub u s')
    with sinv rest sessionInv_writeFrame [of "sy_session y" T g]
      pendingIs_write [of op sub "sy_session y" T g] show ?thesis
      by (simp add: sysInv_def phaseOk_def)
  next
    case (RequestWriteFails g op sub e s')
    with sinv rest sessionInv_writeFrame [of "sy_session y" T g] show ?thesis
      by (simp add: sysInv_def phaseOk_def)
  next
    case (RequestFinish op sub r s')
    from RequestFinish(3) have "ss_pendingRequest (sy_session y) \<noteq> None"
      by (auto simp: finishRequest_def split: if_splits option.splits)
    with rest RequestFinish(2) have "pendingFor op sub (sy_session y)"
      by (simp add: phaseOk_def pendingIs_def)
    from finishRequest_matches [OF RequestFinish(3) this]
    have "responseMatches op sub (fr_payload r)" .
    with RequestFinish sinv rest sessionInv_finish(2) [of "sy_session y" T] show ?thesis
      by (simp add: sysInv_def phaseOk_def answersOk_def)
  next
    case (RequestFails op sub e s')
    with sinv rest sessionInv_finish(2) [of "sy_session y" T] show ?thesis
      by (simp add: sysInv_def phaseOk_def)
  next
    case (Receive fs s')
    then have s': "s' = snd (readerRecv T (sy_session y))" by simp
    have "phaseOk (sy_phase y) s'"
      using rest pendingIs_cong [OF readerRecv_pending] unfolding s' by (blast intro: phaseOk_keep)
    with Receive(1) sinv rest sessionInv_recv [of "sy_session y"] show ?thesis
      by (simp add: sysInv_def s')
  next
    case (Handle f fs)
    have "phaseOk (sy_phase y) (handleDecodedFrame T f (sy_session y))"
      using rest pendingIs_frame by (blast intro: phaseOk_keep)
    with Handle(1) sinv rest sessionInv_frame show ?thesis by (simp add: sysInv_def)
  next
    case Disconnect
    have "ss_pendingRequest (session_disconnect T (sy_session y)) = None"
      by (simp add: session_disconnect_def clearSession_def)
    then have "phaseOk (sy_phase y) (session_disconnect T (sy_session y))"
      using rest pendingIs_cleared by (blast intro: phaseOk_keep)
    with Disconnect(1) sinv rest sessionInv_disconnect show ?thesis by (simp add: sysInv_def)
  next
    case (Connect a r s')
    then have s': "s' = snd (session_connect T a (sy_session y))" by simp
    have "pendingIs op sub s'" if "pendingIs op sub (sy_session y)" for op sub
      using connect_pending [of T a "sy_session y"] that pendingIs_cong [of s' "sy_session y"] pendingIs_cleared [of s']
      unfolding s' by auto
    then have "phaseOk (sy_phase y) s'" using rest by (blast intro: phaseOk_keep)
    with Connect(1) sinv rest sessionInv_connect [of "sy_session y" T a] show ?thesis
      by (simp add: sysInv_def s')
  qed
qed

lemma sysInv_run: "sysRun T y y' \<Longrightarrow> sysInv y \<Longrightarrow> sysInv y'"
  by (induction rule: rtranclp_induct) (auto intro: sysInv_step)

end

lemma sysInv_init: "sysInv (initSystem t)"
  using sessionInv_new [of t] by (simp add: sysInv_def initSystem_def phaseOk_def answersOk_def)

section \<open>The big steps are runs\<close>

lemma readerStep_recv:
  "readerStep T s = fold (handleDecodedFrame T) (fst (readerRecv T s)) (snd (readerRecv T s))"
  by (auto simp: readerStep_def readerRecv_def handleIncomingBytes_def Let_def case_prod_unfold
      split: option.split sum.split)

lemma run_handle:
  "sysRun T (y\<lparr>sy_session := s, sy_inbox := fs\<rparr>)
     (y\<lparr>sy_session := fold (handleDecodedFrame T) fs s, sy_inbox := []\<rparr>)"
proof (induction fs arbitrary: s)
  case (Cons f fs)
  have "sysStep T (y\<lparr>sy_session := s, sy_inbox := f # fs\<rparr>)
      (y\<lparr>sy_session := handleDecodedFrame T f s, sy_inbox := fs\<rparr>)"
    using sysStep.Handle [of "y\<lparr>sy_session := s, sy_inbox := f # fs\<rparr>" f fs T] by simp
  with Cons [of "handleDecodedFrame T f s"] show ?case
    by (simp add: converse_rtranclp_into_rtranclp)
qed simp

lemma run_reader:
  assumes "sy_inbox y = []"
  shows "sysRun T y (y\<lparr>sy_session := readerStep T (sy_session y)\<rparr>)"
proof -
  obtain fs s' where r: "readerRecv T (sy_session y) = (fs, s')" by fastforce
  have "sysRun T (y\<lparr>sy_session := s', sy_inbox := fs\<rparr>)
      (y\<lparr>sy_session := readerStep T (sy_session y), sy_inbox := []\<rparr>)"
    using run_handle [where s = s' and fs = fs and y = y and T = T] by (simp add: readerStep_recv r)
  with sysStep.Receive [OF assms r] have "sysRun T y (y\<lparr>sy_session := readerStep T (sy_session y), sy_inbox := []\<rparr>)"
    by (rule converse_rtranclp_into_rtranclp)
  with assms show ?thesis by (cases y) simp
qed

lemma run_wait:
  "sy_inbox y = [] \<Longrightarrow> sysRun T y (y\<lparr>sy_session := waitReader T P n (sy_session y)\<rparr>)"
proof (induction n arbitrary: y)
  case (Suc n)
  from run_reader [OF Suc.prems] Suc.IH [of "y\<lparr>sy_session := readerStep T (sy_session y)\<rparr>"] Suc.prems
  show ?case by (auto intro: rtranclp_trans)
qed simp

lemma send_run:
  assumes "isConnected T s" "session_send T polls f ms s = (r, s')"
  shows "sysRun T \<lparr>sy_session = s, sy_phase = Idle, sy_inbox = [], sy_answers = as\<rparr>
    \<lparr>sy_session = s', sy_phase = Idle, sy_inbox = [], sy_answers = as\<rparr>"
proof -
  let ?y = "\<lambda>s ph. \<lparr>sy_session = s, sy_phase = ph, sy_inbox = [], sy_answers = as\<rparr>"
  obtain g s1 where prep: "prepareSend f s = (g, s1)" by fastforce
  obtain r2 s2 where wr: "writeFrame T g s1 = (r2, s2)" by fastforce
  have one: "sysStep T (?y s Idle) (?y s1 (SendReady g))"
    using sysStep.SendPrepare [of "?y s Idle" T f g s1] assms(1) prep by simp
  show ?thesis
  proof (cases r2)
    case (Inl e)
    have two: "sysStep T (?y s1 (SendReady g)) (?y s2 Idle)"
      using sysStep.SendWriteFails [of "?y s1 (SendReady g)" g T e s2] wr Inl by simp
    have "s' = s2"
      using assms(2) by (simp add: session_send_def assms(1) prep bindP_def wr Inl)
    with one two show ?thesis by (auto intro: converse_rtranclp_into_rtranclp)
  next
    case (Inr u)
    let ?s3 = "waitReader T (ackWake T) (polls ms) s2"
    have two: "sysStep T (?y s1 (SendReady g)) (?y s2 SendWaiting)"
      using sysStep.SendWrite [of "?y s1 (SendReady g)" g T u s2] wr Inr by simp
    have wait: "sysRun T (?y s2 SendWaiting) (?y ?s3 SendWaiting)"
      using run_wait [of "?y s2 SendWaiting" T "ackWake T" "polls ms"] by simp
    have "finishSend T ?s3 = (r, s')"
      using assms(2) by (simp add: session_send_def assms(1) prep bindP_def wr Inr)
    then have last: "sysStep T (?y ?s3 SendWaiting) (?y s' Idle)"
      using sysStep.SendFinish [of "?y ?s3 SendWaiting" T r s'] by simp
    from one two have "sysRun T (?y s Idle) (?y s2 SendWaiting)" by auto
    with wait last show ?thesis by (meson rtranclp.rtrancl_into_rtrancl rtranclp_trans)
  qed
qed

lemma request_run:
  assumes "isConnected T s" "sendAndAwaitResponse T polls f op sub ms s = (r, s')"
  shows "sysRun T \<lparr>sy_session = s, sy_phase = Idle, sy_inbox = [], sy_answers = as\<rparr>
    \<lparr>sy_session = s', sy_phase = Idle, sy_inbox = [],
     sy_answers = as @ (case r of Inr x \<Rightarrow> [(op, sub, x)] | Inl _ \<Rightarrow> [])\<rparr>"
proof -
  let ?y = "\<lambda>s ph. \<lparr>sy_session = s, sy_phase = ph, sy_inbox = [], sy_answers = as\<rparr>"
  obtain g s1 where prep: "prepareRequest f op sub s = (g, s1)" by fastforce
  obtain r2 s2 where wr: "writeFrame T g s1 = (r2, s2)" by fastforce
  have one: "sysStep T (?y s Idle) (?y s1 (RequestReady g op sub))"
    using sysStep.RequestPrepare [of "?y s Idle" T f op sub g s1] assms(1) prep by simp
  show ?thesis
  proof (cases r2)
    case (Inl e)
    have two: "sysStep T (?y s1 (RequestReady g op sub)) (?y s2 Idle)"
      using sysStep.RequestWriteFails [of "?y s1 (RequestReady g op sub)" g op sub T e s2] wr Inl by simp
    have "r = Inl e" "s' = s2"
      using assms(2) by (simp_all add: sendAndAwaitResponse_def assms(1) prep bindP_def wr Inl)
    with one two show ?thesis by (auto intro: converse_rtranclp_into_rtranclp)
  next
    case (Inr u)
    let ?s3 = "waitReader T (responseWake T) (polls ms) s2"
    have two: "sysStep T (?y s1 (RequestReady g op sub)) (?y s2 (RequestWaiting op sub))"
      using sysStep.RequestWrite [of "?y s1 (RequestReady g op sub)" g op sub T u s2] wr Inr by simp
    have wait: "sysRun T (?y s2 (RequestWaiting op sub)) (?y ?s3 (RequestWaiting op sub))"
      using run_wait [of "?y s2 (RequestWaiting op sub)" T "responseWake T" "polls ms"] by simp
    have fin: "finishRequest T ?s3 = (r, s')"
      using assms(2) by (simp add: sendAndAwaitResponse_def assms(1) prep bindP_def wr Inr)
    have last: "sysStep T (?y ?s3 (RequestWaiting op sub)) \<lparr>sy_session = s', sy_phase = Idle, sy_inbox = [],
        sy_answers = as @ (case r of Inr x \<Rightarrow> [(op, sub, x)] | Inl _ \<Rightarrow> [])\<rparr>"
      using sysStep.RequestFinish [of "?y ?s3 (RequestWaiting op sub)" op sub T _ s']
        sysStep.RequestFails [of "?y ?s3 (RequestWaiting op sub)" op sub T _ s'] fin
      by (cases r) auto
    from one two have "sysRun T (?y s Idle) (?y s2 (RequestWaiting op sub))" by auto
    with wait last show ?thesis by (meson rtranclp.rtrancl_into_rtrancl rtranclp_trans)
  qed
qed



text \<open>A concrete run: connect to a transport that holds an acknowledgement and an answer, and
  ask for the battery.\<close>

definition batteryTransport :: FakeTransport where
  "batteryTransport = FakeTransport_new\<lparr>ft_incomingQueue := wireBytes batteryItems\<rparr>"

lemma connect_fake:
  "session_connect fake_ops a (newSession (Some batteryTransport)) =
     (Inr (), (fakeSession (wireBytes batteryItems))\<lparr>ss_transport := Some (batteryTransport
        \<lparr>ft_connected := True, ft_connectedAddress := a\<rparr>)\<rparr>)"
  by (simp add: session_connect_def newSession_def isConnected_def fake_connect_def batteryTransport_def
      FakeTransport_new_def session_start_def fake_isConnected_def clearSession_def fakeSession_def)

lemma battery_run:
  "\<exists>y r. sysRun fake_ops (initSystem (Some batteryTransport)) y \<and> sy_answers y = [(0x11, 0, r)]"
proof -
  let ?s = "(fakeSession (wireBytes batteryItems))\<lparr>ss_transport := Some (batteryTransport
        \<lparr>ft_connected := True, ft_connectedAddress := ''a''\<rparr>)\<rparr>"
  have step: "sysStep fake_ops (initSystem (Some batteryTransport))
      \<lparr>sy_session = ?s, sy_phase = Idle, sy_inbox = [], sy_answers = []\<rparr>"
    using sysStep.Connect [of "initSystem (Some batteryTransport)" fake_ops "''a''"]
    by (simp add: initSystem_def connect_fake)
  have conn: "isConnected fake_ops ?s"
    by (simp add: isConnected_def fakeSession_def newSession_def fake_isConnected_def)
  have "\<not> isl (fst (sendAndAwaitResponse fake_ops (\<lambda>_. 30) (mkFrame DT_DataMdr 0 [0x10, 0]) 0x11 0 1000 ?s))"
    by code_simp
  then obtain r s' where "sendAndAwaitResponse fake_ops (\<lambda>_. 30) (mkFrame DT_DataMdr 0 [0x10, 0]) 0x11 0 1000 ?s = (Inr r, s')"
    by (metis prod.collapse sum.collapse(2))
  from request_run [OF conn this, of "[]"]
  have "sysRun fake_ops \<lparr>sy_session = ?s, sy_phase = Idle, sy_inbox = [], sy_answers = []\<rparr>
      \<lparr>sy_session = s', sy_phase = Idle, sy_inbox = [], sy_answers = [(0x11, 0, r)]\<rparr>" by simp
  with step have "sysRun fake_ops (initSystem (Some batteryTransport))
      \<lparr>sy_session = s', sy_phase = Idle, sy_inbox = [], sy_answers = [(0x11, 0, r)]\<rparr>"
    by (rule converse_rtranclp_into_rtranclp)
  then show ?thesis by (metis System.select_convs(4))
qed



end
