(* ===== verification/ReaderThread.thy ===== *)
theory ReaderThread
  imports SessionConcurrency
begin

text \<open>
  The reader thread of \<open>SonyProtocolSession\<close>: who starts it, who waits for it, and when. The
  operations of the owner of a session (\<open>connect\<close>, \<open>start\<close>, \<open>disconnect\<close>, the destructor) are
  lists of instructions, one for each store to \<open>_running\<close>, block under \<open>_sessionMtx\<close>, call of the
  transport or use of the thread handle; the reader is a program counter; both, and the threads
  that send, are interleaved. \<open>Session\<close> and \<open>SessionConcurrency\<close> take a join for granted, here
  it is a step that waits. A callback may run instructions too, on the reader's own thread.
\<close>

section \<open>Instructions of the owner\<close>

datatype Instr =
    StopRunning
  | JoinReader
  | DropTransport
  | ClearAll
  | DisconnectIfUp
  | OpenTransport string
  | CheckTransport
  | CheckStopped
  | ClearForStart
  | SetRunning
  | SpawnReader
  | FreeSession

text \<open>\<open>_stopReader\<close> and \<open>_startReader\<close>, and the operations over them. \<open>FreeSession\<close> is the
  destruction of the members, the \<open>std::thread\<close> among them.\<close>

definition stopReader_code :: "Instr list" where
  "stopReader_code = [StopRunning, JoinReader]"

definition startReader_code :: "Instr list" where
  "startReader_code = stopReader_code @ [SetRunning, SpawnReader]"

definition disconnect_code :: "Instr list" where
  "disconnect_code = stopReader_code @ [DropTransport, ClearAll]"

definition start_code :: "Instr list" where
  "start_code = [CheckTransport, CheckStopped, ClearForStart] @ startReader_code"

definition connect_code :: "string \<Rightarrow> Instr list" where
  "connect_code a = [DisconnectIfUp, OpenTransport a] @ start_code"

definition destructor_code :: "Instr list" where
  "destructor_code = disconnect_code @ [FreeSession]"

lemmas code_defs = connect_code_def start_code_def startReader_code_def disconnect_code_def
  destructor_code_def stopReader_code_def

datatype OwnerCall = Connect string | Start | Disconnect | Destroy

fun callCode :: "OwnerCall \<Rightarrow> Instr list" where
  "callCode (Connect a) = connect_code a"
| "callCode Start = start_code"
| "callCode Disconnect = disconnect_code"
| "callCode Destroy = destructor_code"

section \<open>The threads\<close>

text \<open>Where a reader is: before the test of \<open>_running\<close>, in \<open>receive\<close>, with bytes to parse, with
  frames to handle, in a callback (with what is left of it, and the frames after), behind the
  loop, and gone.\<close>

datatype ReaderPc =
    AtTop
  | AtReceive
  | Received "u8 list"
  | Handling "SonyFrame list"
  | InCallback "Instr list" "SonyFrame list"
  | AtExit
  | Ended

text \<open>\<open>th_handle\<close> is \<open>_readerThread\<close>, \<open>None\<close> when it is not joinable; readers are numbered in the order
  they were started. \<open>th_died\<close>: \<open>std::terminate\<close> was called.\<close>

record 't Threads =
  th_session :: "'t Session"
  th_todo :: "Instr list"
  th_handle :: "nat option"
  th_readers :: "ReaderPc list"
  th_died :: bool
  th_freed :: bool

definition newThreads :: "'t option \<Rightarrow> 't Threads" where
  "newThreads t = \<lparr>th_session = newSession t, th_todo = [], th_handle = None, th_readers = [],
     th_died = False, th_freed = False\<rparr>"

abbreviation onSession :: "('t Session \<Rightarrow> 't Session) \<Rightarrow> 't Threads \<Rightarrow> 't Threads" where
  "onSession f y \<equiv> y\<lparr>th_session := f (th_session y)\<rparr>"

text \<open>One instruction, on the reader \<open>self\<close> or (\<open>None\<close>) on the owner's thread: what is left to do,
  and the new state. An exception leaves nothing to do. Assigning to a joinable handle or
  destroying one ends the process. No reader joins itself.\<close>

fun execInstr :: "'t ITransport \<Rightarrow> nat option \<Rightarrow> Instr \<Rightarrow> Instr list \<Rightarrow> 't Threads \<Rightarrow> Instr list \<times> 't Threads" where
  "execInstr T self StopRunning k y = (k, onSession (ss_running_update (\<lambda>_. False)) y)"
| "execInstr T self JoinReader k y =
     (k, if th_handle y \<noteq> None \<and> th_handle y \<noteq> self then y\<lparr>th_handle := None\<rparr> else y)"
| "execInstr T self DropTransport k y = (k, onSession (\<lambda>s. s\<lparr>ss_transport := map_option (t_disconnect T) (ss_transport s)\<rparr>) y)"
| "execInstr T self ClearAll k y = (k, onSession (\<lambda>s. (clearSession s)\<lparr>ss_sequence := 0\<rparr>) y)"
| "execInstr T self DisconnectIfUp k y =
     (if isConnected T (th_session y) \<or> ss_running (th_session y) then disconnect_code @ k else k, y)"
| "execInstr T self (OpenTransport a) k y =
     (case ss_transport (th_session y) of
        None \<Rightarrow> ([], y)
      | Some t \<Rightarrow> (case t_connect T a t of
            (Inl e, t') \<Rightarrow> ([], onSession (ss_transport_update (\<lambda>_. Some t')) y)
          | (Inr _, t') \<Rightarrow> (k, onSession (ss_transport_update (\<lambda>_. Some t')) y)))"
| "execInstr T self CheckTransport k y =
     (case ss_transport (th_session y) of
        None \<Rightarrow> ([], y) | Some t \<Rightarrow> (if t_isConnected T t then k else [], y))"
| "execInstr T self CheckStopped k y = (if ss_running (th_session y) then [] else k, y)"
| "execInstr T self ClearForStart k y = (k, onSession clearSession y)"
| "execInstr T self SetRunning k y = (k, onSession (ss_running_update (\<lambda>_. True)) y)"
| "execInstr T self SpawnReader k y =
     (k, if th_handle y = None
         then y\<lparr>th_handle := Some (length (th_readers y)), th_readers := th_readers y @ [AtTop]\<rparr>
         else y\<lparr>th_died := True\<rparr>)"
| "execInstr T self FreeSession k y = ([], y\<lparr>th_freed := True, th_died := th_died y \<or> th_handle y \<noteq> None\<rparr>)"

text \<open>A join waits for the reader to end.\<close>

definition mayGo :: "nat option \<Rightarrow> Instr \<Rightarrow> 't Threads \<Rightarrow> bool" where
  "mayGo self i y \<longleftrightarrow> (case th_handle y of
      None \<Rightarrow> True
    | Some j \<Rightarrow> i \<noteq> JoinReader \<or> self = Some j \<or> th_readers y ! j = Ended)"

section \<open>Steps of the reader and of the senders\<close>

text \<open>One \<open>receive\<close>. A time-out goes back to the test of \<open>_running\<close>, which the code makes before
  it sleeps and again at the loop's head.\<close>

definition receiveOnce :: "'t ITransport \<Rightarrow> 't Session \<Rightarrow> ReaderPc \<times> 't Session" where
  "receiveOnce T s =
     (case ss_transport s of
        None \<Rightarrow> (AtExit, s)
      | Some t \<Rightarrow>
          (case t_receive T 1024 t of
             (Inr bytes, t') \<Rightarrow> (if bytes = [] then AtExit else Received bytes, s\<lparr>ss_transport := Some t'\<rparr>)
           | (Inl e, t') \<Rightarrow> (if isTimeout e then AtTop else AtExit, s\<lparr>ss_transport := Some t'\<rparr>)))"

text \<open>A step of a reader outside callbacks; \<open>code\<close> is what the callbacks do, if the frame gets to
  them.\<close>

fun readerMove :: "'t ITransport \<Rightarrow> Instr list \<Rightarrow> ReaderPc \<Rightarrow> 't Session \<Rightarrow> ReaderPc \<times> 't Session" where
  "readerMove T code AtTop s = (if ss_running s then AtReceive else AtExit, s)"
| "readerMove T code AtReceive s = receiveOnce T s"
| "readerMove T code (Received bytes) s =
     (let (frames, left) = parseStream (ss_streamBuffer s @ bytes)
      in (Handling frames, s\<lparr>ss_streamBuffer := left\<rparr>))"
| "readerMove T code (Handling []) s = (AtTop, s)"
| "readerMove T code (Handling (f # fs)) s =
     (let s' = handleDecodedFrame T f s
      in (if ss_notified s' = ss_notified s then Handling fs else InCallback code fs, s'))"
| "readerMove T code (InCallback k fs) s = (InCallback k fs, s)"
| "readerMove T code AtExit s = (Ended, s\<lparr>ss_running := False\<rparr>)"
| "readerMove T code Ended s = (Ended, s)"

text \<open>Reader \<open>j\<close> takes a step, if it can.\<close>

definition readerGo :: "'t ITransport \<Rightarrow> Instr list \<Rightarrow> nat \<Rightarrow> 't Threads \<Rightarrow> 't Threads option" where
  "readerGo T code j y =
     (if length (th_readers y) \<le> j then None
      else case th_readers y ! j of
          Ended \<Rightarrow> None
        | InCallback [] fs \<Rightarrow> Some (y\<lparr>th_readers := (th_readers y)[j := Handling fs]\<rparr>)
        | InCallback (i # k) fs \<Rightarrow>
            if mayGo (Some j) i y
            then let (k', y') = execInstr T (Some j) i k y
              in Some (y'\<lparr>th_readers := (th_readers y')[j := InCallback k' fs]\<rparr>)
            else None
        | pc \<Rightarrow> let (pc', s') = readerMove T code pc (th_session y)
            in Some (y\<lparr>th_session := s', th_readers := (th_readers y)[j := pc']\<rparr>))"

text \<open>The blocks of \<open>send\<close> and \<open>sendAndAwaitResponse\<close>, and \<open>onNotification\<close>, on whatever thread.\<close>

datatype SenderStep =
    PrepareSend SonyFrame
  | PrepareRequest SonyFrame u8 int
  | WriteFrame SonyFrame
  | FinishSend
  | FinishRequest
  | Register "nat option"

fun senderGo :: "'t ITransport \<Rightarrow> SenderStep \<Rightarrow> 't Session \<Rightarrow> 't Session" where
  "senderGo T (PrepareSend f) s = snd (prepareSend f s)"
| "senderGo T (PrepareRequest f op sub) s = snd (prepareRequest f op sub s)"
| "senderGo T (WriteFrame f) s = snd (writeFrame T f s)"
| "senderGo T FinishSend s = snd (finishSend T s)"
| "senderGo T FinishRequest s = snd (finishRequest T s)"
| "senderGo T (Register cb) s = onNotification cb s"

section \<open>The scheduler\<close>

text \<open>Who goes next: the owner begins an operation or takes a step of the one it is in, a reader
  goes on, a sender does.\<close>

datatype Choice = Begin OwnerCall | OwnerStep | ReaderStep nat "Instr list" | Sender SenderStep

fun go :: "'t ITransport \<Rightarrow> Choice \<Rightarrow> 't Threads \<Rightarrow> 't Threads option" where
  "go T (Begin c) y = (if th_todo y = [] \<and> \<not> th_freed y then Some (y\<lparr>th_todo := callCode c\<rparr>) else None)"
| "go T OwnerStep y =
     (case th_todo y of
        [] \<Rightarrow> None
      | i # k \<Rightarrow>
          if mayGo None i y
          then let (k', y') = execInstr T None i k y in Some (y'\<lparr>th_todo := k'\<rparr>)
          else None)"
| "go T (ReaderStep j code) y = readerGo T code j y"
| "go T (Sender c) y = (if th_freed y then None else Some (onSession (senderGo T c) y))"

fun goAll :: "'t ITransport \<Rightarrow> Choice list \<Rightarrow> 't Threads \<Rightarrow> 't Threads option" where
  "goAll T [] y = Some y"
| "goAll T (c # cs) y = (case go T c y of None \<Rightarrow> None | Some y' \<Rightarrow> goAll T cs y')"

text \<open>\<open>may y c\<close>: the owner may begin \<open>c\<close> in \<open>y\<close>; \<open>cbs\<close>: what callbacks may do.\<close>

fun allowed :: "('t Threads \<Rightarrow> OwnerCall \<Rightarrow> bool) \<Rightarrow> Instr list list \<Rightarrow> 't Threads \<Rightarrow> Choice \<Rightarrow> bool" where
  "allowed may cbs y (Begin c) = may y c"
| "allowed may cbs y (ReaderStep j code) = (code = [] \<or> code \<in> set cbs)"
| "allowed may cbs y OwnerStep = True"
| "allowed may cbs y (Sender c) = True"

inductive reach :: "'t ITransport \<Rightarrow> ('t Threads \<Rightarrow> OwnerCall \<Rightarrow> bool) \<Rightarrow> Instr list list \<Rightarrow> 't Threads \<Rightarrow> bool"
  for T may cbs where
  fresh: "reach T may cbs (newThreads t)"
| step: "reach T may cbs y \<Longrightarrow> allowed may cbs y c \<Longrightarrow> go T c y = Some y' \<Longrightarrow> reach T may cbs y'"

inductive_cases reachE: "reach T may cbs y"

fun allAllowed :: "'t ITransport \<Rightarrow> ('t Threads \<Rightarrow> OwnerCall \<Rightarrow> bool) \<Rightarrow> Instr list list \<Rightarrow> Choice list \<Rightarrow> 't Threads \<Rightarrow> bool" where
  "allAllowed T may cbs [] y = True"
| "allAllowed T may cbs (c # cs) y = (allowed may cbs y c \<and>
     (case go T c y of None \<Rightarrow> True | Some y' \<Rightarrow> allAllowed T may cbs cs y'))"

lemma reach_goAll:
  "reach T may cbs y \<Longrightarrow> allAllowed T may cbs cs y \<Longrightarrow> goAll T cs y = Some y' \<Longrightarrow> reach T may cbs y'"
  by (induction cs arbitrary: y) (auto split: option.splits intro: reach.step)

section \<open>The invariant\<close>

text \<open>What an owner's code must look like, given whether the handle is known to be empty: every
  join right after the stop, a start of a reader only on an empty handle and right after
  \<open>_running\<close> was set, the end only on an empty handle.\<close>

fun okCode :: "bool \<Rightarrow> Instr list \<Rightarrow> bool" where
  "okCode n [] = True"
| "okCode n (StopRunning # k) = (case k of JoinReader # k' \<Rightarrow> okCode True k' | _ \<Rightarrow> False)"
| "okCode n (SetRunning # k) = (case k of SpawnReader # k' \<Rightarrow> n \<and> okCode False k' | _ \<Rightarrow> False)"
| "okCode n (FreeSession # k) = (n \<and> k = [])"
| "okCode n (JoinReader # k) = False"
| "okCode n (SpawnReader # k) = False"
| "okCode n (i # k) = okCode n k"

lemma okCode_known: "okCode n k \<Longrightarrow> okCode True k"
  by (induction n k rule: okCode.induct) (auto split: list.splits Instr.splits)

lemma okCode_disconnect: "okCode n k \<Longrightarrow> okCode m (disconnect_code @ k)"
  using okCode_known by (auto simp: code_defs)

lemma okCode_call: "okCode n (callCode c)"
  by (cases c) (simp_all add: code_defs)

text \<open>Callbacks may disconnect, but not start anything.\<close>

definition quiet :: "Instr list \<Rightarrow> bool" where
  "quiet code \<longleftrightarrow> set code \<subseteq> {StopRunning, JoinReader, DropTransport, ClearAll}"

lemma quiet_disconnect: "quiet disconnect_code"
  by (simp add: quiet_def code_defs)

fun quietPc :: "ReaderPc \<Rightarrow> bool" where
  "quietPc (InCallback k fs) = quiet k"
| "quietPc pc = True"

text \<open>What is left to do, between the two instructions of such a pair too.\<close>

definition todoOk :: "bool \<Rightarrow> bool \<Rightarrow> Instr list \<Rightarrow> bool" where
  "todoOk running n todo \<longleftrightarrow> okCode n todo \<or>
     (\<exists>k. todo = JoinReader # k \<and> \<not> running \<and> okCode True k) \<or>
     (\<exists>k. todo = SpawnReader # k \<and> n \<and> okCode False k)"

definition alive :: "'t Threads \<Rightarrow> nat \<Rightarrow> bool" where
  "alive y j \<longleftrightarrow> j < length (th_readers y) \<and> th_readers y ! j \<noteq> Ended"

definition readersOk :: "'t Threads \<Rightarrow> bool" where
  "readersOk y \<longleftrightarrow> list_all quietPc (th_readers y) \<and> (\<forall>j. alive y j \<longrightarrow> th_handle y = Some j) \<and>
     pred_option (\<lambda>j. j < length (th_readers y)) (th_handle y)"

text \<open>A session that runs has a reader, or gets it next.\<close>

definition fed :: "'t Threads \<Rightarrow> bool" where
  "fed y \<longleftrightarrow> (\<exists>j. alive y j) \<or> (\<exists>k. th_todo y = SpawnReader # k)"

definition threadsOk :: "'t Threads \<Rightarrow> bool" where
  "threadsOk y \<longleftrightarrow> \<not> th_died y \<and> readersOk y \<and>
     todoOk (ss_running (th_session y)) (th_handle y = None) (th_todo y) \<and>
     (th_freed y \<longrightarrow> th_todo y = [] \<and> th_handle y = None) \<and> (ss_running (th_session y) \<longrightarrow> fed y)"

lemma threadsOk_new: "threadsOk (newThreads t)"
  by (simp add: threadsOk_def newThreads_def readersOk_def todoOk_def newSession_def alive_def)

subsection \<open>Nobody but the owner sets \<open>_running\<close>\<close>

lemma writeFrame_stopped: "\<not> ss_running s \<Longrightarrow> \<not> ss_running (snd (writeFrame T f s))"
  by (simp add: writeFrame_def split: option.split sum.split prod.split)

lemma senderGo_stopped: "\<not> ss_running s \<Longrightarrow> \<not> ss_running (senderGo T c s)"
  by (cases c) (simp_all add: writeFrame_stopped prepareSend_def prepareRequest_def finishSend_def finishRequest_def
      stampFrame_def nextSequenceNumber_def onNotification_def Let_def split: option.split)

lemma handleDecodedFrame_stopped: "\<not> ss_running s \<Longrightarrow> \<not> ss_running (handleDecodedFrame T f s)"
  by (simp add: handleDecodedFrame_def sendAck_def notifyAll_def Let_def writeFrame_stopped split: option.split)

lemma receiveOnce_running [simp]: "ss_running (snd (receiveOnce T s)) = ss_running s"
  by (simp add: receiveOnce_def split: option.split sum.split prod.split)

lemma readerMove_stopped: "\<not> ss_running s \<Longrightarrow> \<not> ss_running (snd (readerMove T code pc s))"
  by (induction T code pc s rule: readerMove.induct)
    (simp_all add: Let_def case_prod_unfold handleDecodedFrame_stopped)

lemmas stopped_simps = writeFrame_stopped senderGo_stopped handleDecodedFrame_stopped readerMove_stopped

subsection \<open>Every step keeps it\<close>

lemma alive_session [simp]: "alive (y\<lparr>th_session := s\<rparr>) = alive y"
  by (rule ext) (simp add: alive_def)

lemma readersOk_session [simp]: "readersOk (y\<lparr>th_session := s\<rparr>) = readersOk y"
  by (simp add: readersOk_def)

lemma threadsOk_session:
  assumes "threadsOk y" "\<not> ss_running (th_session y) \<longrightarrow> \<not> ss_running s"
  shows "threadsOk (y\<lparr>th_session := s\<rparr>)"
  using assms by (auto simp: threadsOk_def fed_def todoOk_def)

lemma alive_handle: "readersOk y \<Longrightarrow> alive y j \<Longrightarrow> th_handle y = Some j"
  by (simp add: readersOk_def)

lemma alive_pc: "alive (y\<lparr>th_readers := (th_readers y)[j := pc]\<rparr>) i =
    (i < length (th_readers y) \<and> (if i = j then pc else th_readers y ! i) \<noteq> Ended)"
  by (auto simp: alive_def)

lemma threadsOk_pc:
  assumes ok: "threadsOk y" and j: "alive y j" and pc: "quietPc pc" "pc = Ended \<Longrightarrow> \<not> ss_running (th_session y)"
  shows "threadsOk (y\<lparr>th_readers := (th_readers y)[j := pc]\<rparr>)"
proof -
  let ?y = "y\<lparr>th_readers := (th_readers y)[j := pc]\<rparr>"
  from ok have r: "readersOk y" by (simp add: threadsOk_def)
  with j have h: "th_handle y = Some j" by (simp add: alive_handle)
  have "alive y i" if "alive ?y i" for i using that j by (cases "i = j") (simp_all add: alive_pc alive_def)
  with r have "\<forall>i. alive ?y i \<longrightarrow> th_handle y = Some i" by (blast intro: alive_handle)
  moreover have "list_all quietPc ((th_readers y)[j := pc])"
    using r pc(1) set_update_subset_insert [of "th_readers y" j pc] by (auto simp: readersOk_def list_all_iff)
  ultimately have "readersOk ?y" using r by (simp add: readersOk_def)
  moreover have "fed ?y" if "ss_running (th_session y)"
  proof -
    have "alive ?y j" using that pc(2) j by (auto simp: alive_def)
    then show ?thesis by (auto simp: fed_def)
  qed
  ultimately show ?thesis using ok by (simp add: threadsOk_def)
qed

lemma quiet_exec:
  assumes "quiet (i # k)" "th_handle y = Some j"
  shows "fst (execInstr T (Some j) i k y) = k"
    "snd (execInstr T (Some j) i k y) = y\<lparr>th_session := th_session (snd (execInstr T (Some j) i k y))\<rparr>"
    "\<not> ss_running (th_session y) \<Longrightarrow> \<not> ss_running (th_session (snd (execInstr T (Some j) i k y)))"
  using assms by (cases i; simp add: quiet_def clearSession_def)+

lemma readerMove_pc:
  "quiet code \<Longrightarrow> quietPc pc \<Longrightarrow> quietPc (fst (readerMove T code pc s))"
  "fst (readerMove T code pc s) = Ended \<Longrightarrow> \<not> ss_running (snd (readerMove T code pc s)) \<or> pc = Ended"
  by (induction T code pc s rule: readerMove.induct)
    (auto simp: Let_def case_prod_unfold receiveOnce_def split: option.splits sum.splits prod.splits if_splits)

text \<open>The three ways a reader goes on.\<close>

lemma readerGo_cases:
  assumes "readerGo T code j y = Some y'"
  obtains (callback_done) fs where "j < length (th_readers y)" "th_readers y ! j = InCallback [] fs"
      "y' = y\<lparr>th_readers := (th_readers y)[j := Handling fs]\<rparr>"
  | (callback) i k fs k' z where "j < length (th_readers y)" "th_readers y ! j = InCallback (i # k) fs"
      "execInstr T (Some j) i k y = (k', z)" "y' = z\<lparr>th_readers := (th_readers z)[j := InCallback k' fs]\<rparr>"
  | (move) "j < length (th_readers y)" "th_readers y ! j \<noteq> Ended" "\<forall>k fs. th_readers y ! j \<noteq> InCallback k fs"
      "y' = y\<lparr>th_session := snd (readerMove T code (th_readers y ! j) (th_session y)),
        th_readers := (th_readers y)[j := fst (readerMove T code (th_readers y ! j) (th_session y))]\<rparr>"
proof (cases "length (th_readers y) \<le> j")
  case True
  with assms show thesis by (simp add: readerGo_def)
next
  case False
  then have lt: "j < length (th_readers y)" by simp
  show thesis
  proof (cases "th_readers y ! j")
    case (InCallback k fs)
    show thesis
    proof (cases k)
      case Nil
      with assms False InCallback callback_done lt show thesis by (simp add: readerGo_def)
    next
      case (Cons i k)
      with assms False InCallback show thesis
        by (auto simp: readerGo_def lt split: prod.splits if_splits intro!: callback)
    qed
  qed (use assms False lt in \<open>simp_all add: readerGo_def case_prod_unfold Let_def move del: readerMove.simps\<close>)
qed

lemma readerGo_ok:
  assumes go: "readerGo T code j y = Some y'" and ok: "threadsOk y" and quiet: "quiet code"
  shows "threadsOk y'"
  using go
proof (cases rule: readerGo_cases)
  case (callback_done fs)
  with ok threadsOk_pc [of y j "Handling fs"] show ?thesis by (simp add: alive_def)
next
  case (callback i k fs k' z)
  then have l: "alive y j" by (simp add: alive_def)
  from ok have r: "readersOk y" by (simp add: threadsOk_def)
  from r l have h: "th_handle y = Some j" by (rule alive_handle)
  from r have "quietPc (th_readers y ! j)" using callback(1) by (simp add: readersOk_def list_all_length)
  with callback(2) have q: "quiet (i # k)" by simp
  then obtain s where s: "execInstr T (Some j) i k y = (k, y\<lparr>th_session := s\<rparr>)"
      "\<not> ss_running (th_session y) \<longrightarrow> \<not> ss_running s"
    using quiet_exec [OF _ h] by (metis prod.collapse)
  from q have "quiet k" by (simp add: quiet_def)
  with s(1) threadsOk_pc [OF threadsOk_session [OF ok s(2)], of j "InCallback k fs"] callback l
  show ?thesis by simp
next
  case move
  let ?m = "readerMove T code (th_readers y ! j) (th_session y)"
  from ok move(1) have "quietPc (th_readers y ! j)" by (simp add: threadsOk_def readersOk_def list_all_length)
  with quiet have q: "quietPc (fst ?m)" by (rule readerMove_pc)
  have e: "\<not> ss_running (snd ?m)" if "fst ?m = Ended" using readerMove_pc(2) [OF that] move(2) by blast
  have "threadsOk (y\<lparr>th_session := snd ?m\<rparr>)"
    using ok by (rule threadsOk_session) (simp add: readerMove_stopped)
  from threadsOk_pc [OF this, of j "fst ?m"] move q e show ?thesis by (simp add: alive_def)
qed

text \<open>The owner's instructions. A start of a reader finds the handle empty, a join an ended reader.\<close>

lemma okCode_head:
  "okCode n (StopRunning # k) \<longleftrightarrow> (\<exists>k'. k = JoinReader # k' \<and> okCode True k')"
  "okCode n (SetRunning # k) \<longleftrightarrow> (\<exists>k'. k = SpawnReader # k' \<and> n \<and> okCode False k')"
  by (auto split: list.splits Instr.splits)

declare okCode.simps(2,3) [simp del] okCode_head [simp]

lemma alive_todo [simp]: "alive (y\<lparr>th_todo := k\<rparr>) = alive y"
  by (rule ext) (simp add: alive_def)

lemma alive_handle_update [simp]: "alive (y\<lparr>th_handle := h\<rparr>) = alive y"
  by (rule ext) (simp add: alive_def)

lemma alive_none: "readersOk y \<Longrightarrow> th_handle y = None \<Longrightarrow> \<not> alive y j"
  using alive_handle by fastforce

lemma threadsOk_todo:
  assumes "threadsOk y" "\<not> th_freed y" "\<not> (\<exists>k. th_todo y = SpawnReader # k)"
    "ss_running s \<longrightarrow> ss_running (th_session y)" "okCode (th_handle y = None) k"
  shows "threadsOk (y\<lparr>th_session := s, th_todo := k\<rparr>)"
  using assms by (auto simp: threadsOk_def readersOk_def todoOk_def fed_def alive_def)

lemma owner_join:
  assumes ok: "threadsOk y" and todo: "th_todo y = JoinReader # k" and go: "mayGo None JoinReader y"
  shows "threadsOk (y\<lparr>th_handle := None, th_todo := k\<rparr>)"
proof -
  from ok todo have run: "\<not> ss_running (th_session y)" and k: "okCode True k" and r: "readersOk y"
    and nf: "\<not> th_freed y" and nd: "\<not> th_died y"
    by (auto simp: threadsOk_def todoOk_def)
  have none: "\<not> alive y j" for j
  proof
    assume a: "alive y j"
    with r have "th_handle y = Some j" by (rule alive_handle)
    with go a show False by (simp add: mayGo_def alive_def)
  qed
  from r none have "readersOk (y\<lparr>th_handle := None, th_todo := k\<rparr>)" by (simp add: readersOk_def alive_def)
  with run k nf nd show ?thesis by (simp add: threadsOk_def todoOk_def)
qed

lemma owner_spawn:
  assumes ok: "threadsOk y" and todo: "th_todo y = SpawnReader # k"
  shows "th_handle y = None"
    "threadsOk (y\<lparr>th_handle := Some (length (th_readers y)), th_readers := th_readers y @ [AtTop], th_todo := k\<rparr>)"
proof -
  from ok todo show h: "th_handle y = None" by (auto simp: threadsOk_def todoOk_def)
  from ok todo have k: "okCode False k" and r: "readersOk y" and nf: "\<not> th_freed y" and nd: "\<not> th_died y"
    by (auto simp: threadsOk_def todoOk_def)
  let ?y = "y\<lparr>th_handle := Some (length (th_readers y)), th_readers := th_readers y @ [AtTop], th_todo := k\<rparr>"
  have one: "alive ?y j \<longleftrightarrow> j = length (th_readers y)" for j
    using alive_none [OF r h] by (auto simp: alive_def nth_append less_Suc_eq)
  with r have "readersOk ?y" by (simp add: readersOk_def)
  with k nf nd one show "threadsOk ?y" by (auto simp: threadsOk_def todoOk_def fed_def)
qed

lemma owner_ok:
  assumes go: "go T OwnerStep y = Some y'" and ok: "threadsOk y"
  shows "threadsOk y'"
proof -
  from go obtain i k where todo: "th_todo y = i # k" and may: "mayGo None i y"
    and y': "y' = (snd (execInstr T None i k y))\<lparr>th_todo := fst (execInstr T None i k y)\<rparr>"
    by (auto split: list.splits if_splits prod.splits)
  from ok todo have nf: "\<not> th_freed y" and nd: "\<not> th_died y" and r: "readersOk y"
    and code: "todoOk (ss_running (th_session y)) (th_handle y = None) (i # k)"
    by (auto simp: threadsOk_def)
  show ?thesis
  proof (cases "i = JoinReader \<or> i = SpawnReader")
    case True
    then show ?thesis
    proof
      assume i: "i = JoinReader"
      with todo ok may have "threadsOk (y\<lparr>th_handle := None, th_todo := k\<rparr>)" by (simp add: owner_join)
      moreover have "y' = y\<lparr>th_handle := None, th_todo := k\<rparr>" using y' i by simp
      ultimately show ?thesis by simp
    next
      assume i: "i = SpawnReader"
      with owner_spawn [OF ok, of k] todo y' show ?thesis by simp
    qed
  next
    case False
    with code have c: "okCode (th_handle y = None) (i # k)" by (simp add: todoOk_def)
    have keep: "threadsOk (y\<lparr>th_session := s, th_todo := k'\<rparr>)"
      if "ss_running s \<longrightarrow> ss_running (th_session y)" "okCode (th_handle y = None) k'" for s k'
      using that ok nf todo False by (intro threadsOk_todo) auto
    note here = keep [of "th_session y", simplified]
    show ?thesis
    proof (cases i)
      case StopRunning
      with c y' ok nf show ?thesis by (auto simp: threadsOk_def todoOk_def readersOk_def alive_def)
    next
      case SetRunning
      with c y' ok nf show ?thesis by (auto simp: threadsOk_def todoOk_def readersOk_def alive_def fed_def)
    next
      case FreeSession
      with c y' ok show ?thesis
        using alive_none [OF r] todo by (auto simp: threadsOk_def todoOk_def readersOk_def alive_def fed_def)
    next
      case DisconnectIfUp
      with c y' here okCode_disconnect [of _ k "th_handle y = None"] show ?thesis by auto
    next
      case (OpenTransport a)
      with c y' keep here show ?thesis by (auto split: option.split sum.split prod.split)
    next
      case CheckTransport
      with c y' here show ?thesis by (auto split: option.split)
    next
      case CheckStopped
      with c y' here show ?thesis by auto
    qed (use c y' keep False in \<open>auto simp: clearSession_def\<close>)
  qed
qed

lemma go_ok:
  assumes "go T c y = Some y'" "allowed may cbs y c" "list_all quiet cbs" "threadsOk y"
  shows "threadsOk y'"
proof (cases c)
  case (Begin call)
  with assms(1) have "th_todo y = []" "\<not> th_freed y" "y' = y\<lparr>th_todo := callCode call\<rparr>"
    by (simp_all split: if_splits)
  with threadsOk_todo [of y "th_session y" "callCode call"] assms(4) okCode_call show ?thesis by simp
next
  case OwnerStep
  with assms show ?thesis by (blast intro: owner_ok)
next
  case (ReaderStep j code)
  with assms(2,3) have "quiet code" by (auto simp: quiet_def list_all_iff)
  with ReaderStep assms show ?thesis by (auto intro: readerGo_ok)
next
  case (Sender step)
  with assms(1) have "y' = y\<lparr>th_session := senderGo T step (th_session y)\<rparr>" by (simp split: if_splits)
  with assms(4) show ?thesis by (simp add: threadsOk_session stopped_simps)
qed

lemma reach_ok: "reach T may cbs y \<Longrightarrow> list_all quiet cbs \<Longrightarrow> threadsOk y"
  by (induction rule: reach.induct) (auto intro: threadsOk_new go_ok)

section \<open>Waiting for the reader\<close>

lemma parseStream_count: "length (fst (parseStream buf)) \<le> length buf"
proof (induction buf rule: length_induct)
  case (1 buf)
  show ?case
  proof (cases "dropWhile (\<lambda>b. b \<noteq> START_MARKER) buf")
    case Nil
    then show ?thesis by (simp add: parse_none)
  next
    case (Cons s rest)
    from dropWhile_shorter [OF Cons] have rest: "length rest < length buf" .
    show ?thesis
    proof (cases "dropWhile (\<lambda>b. \<not> isMarker b) rest")
      case Nil
      with parse_open [OF Cons] show ?thesis by simp
    next
      case (Cons m rs)
      note inner = this
      from dropWhile_shorter [OF inner] rest have len: "length rs < length buf" "length (m # rs) < length buf" by simp_all
      with 1 have ih: "length (fst (parseStream rs)) \<le> length rs"
        "length (fst (parseStream (m # rs))) \<le> length (m # rs)" by blast+
      show ?thesis
      proof (cases "m = START_MARKER")
        case True
        with parse_restart [OF \<open>dropWhile (\<lambda>b. b \<noteq> START_MARKER) buf = s # rest\<close> inner] ih len
        show ?thesis by simp
      next
        case False
        with parse_close [OF \<open>dropWhile (\<lambda>b. b \<noteq> START_MARKER) buf = s # rest\<close> inner] ih len
        show ?thesis by (simp split: sum.split)
      qed
    qed
  qed
qed

text \<open>How many steps a reader has left once \<open>_running\<close> is false, if no callback has more than
  \<open>K\<close> instructions and \<open>b\<close> bytes are buffered.\<close>

fun budget :: "nat \<Rightarrow> nat \<Rightarrow> ReaderPc \<Rightarrow> nat" where
  "budget K b AtReceive = 5 + (b + 1024) * (K + 2)"
| "budget K b (Received bs) = 4 + (b + length bs) * (K + 2)"
| "budget K b (Handling fs) = 3 + length fs * (K + 2)"
| "budget K b (InCallback code fs) = 4 + length fs * (K + 2) + length code"
| "budget K b AtTop = 2"
| "budget K b AtExit = 1"
| "budget K b Ended = 0"

definition bufferLen :: "'t Threads \<Rightarrow> nat" where
  "bufferLen y = length (ss_streamBuffer (th_session y))"

lemma senderGo_buffer [simp]: "ss_streamBuffer (senderGo T c s) = ss_streamBuffer s"
  by (cases c) (simp_all add: prepareSend_def prepareRequest_def finishSend_def finishRequest_def
      stampFrame_def nextSequenceNumber_def onNotification_def Let_def split: option.split)

lemma receiveOnce_buffer [simp]: "ss_streamBuffer (snd (receiveOnce T s)) = ss_streamBuffer s"
  by (simp add: receiveOnce_def split: option.split sum.split prod.split)

context transport_laws
begin

lemma receiveOnce_budget: "budget K b (fst (receiveOnce T s)) < budget K b AtReceive"
proof -
  have "(b + length bs) * (K + 2) \<le> (b + 1024) * (K + 2)" if "t_receive T 1024 t = (Inr bs, t')" for t bs t'
    using receive_bound [OF that] by (intro mult_le_mono1) simp
  then have "budget K b (Received bs) < budget K b AtReceive" if "t_receive T 1024 t = (Inr bs, t')" for t bs t'
    unfolding budget.simps using that by (intro add_less_le_mono) simp_all
  then show ?thesis
    by (simp add: receiveOnce_def del: budget.simps(1,2) split: option.split sum.split prod.split) simp
qed

lemma readerMove_budget:
  assumes "\<not> ss_running s" "length code \<le> K" "pc \<noteq> Ended" "\<forall>k fs. pc \<noteq> InCallback k fs"
  shows "budget K (length (ss_streamBuffer (snd (readerMove T code pc s)))) (fst (readerMove T code pc s))
    < budget K (length (ss_streamBuffer s)) pc"
proof (cases pc)
  case AtReceive
  with receiveOnce_budget [of K "length (ss_streamBuffer s)" s] show ?thesis by simp
next
  case (Received bs)
  have "length (fst (parseStream (ss_streamBuffer s @ bs))) \<le> length (ss_streamBuffer s) + length bs"
    using parseStream_count [of "ss_streamBuffer s @ bs"] by simp
  then have "length (fst (parseStream (ss_streamBuffer s @ bs))) * (K + 2)
      \<le> (length (ss_streamBuffer s) + length bs) * (K + 2)" by (rule mult_le_mono1)
  with Received show ?thesis by (simp add: Let_def case_prod_unfold)
next
  case (Handling fs)
  with assms show ?thesis by (cases fs) (auto simp: Let_def)
qed (use assms in simp_all)

end

text \<open>What the reader that the handle names has left.\<close>

definition remaining :: "nat \<Rightarrow> 't Threads \<Rightarrow> nat" where
  "remaining K y = (case th_handle y of None \<Rightarrow> 0 | Some j \<Rightarrow> budget K (bufferLen y) (th_readers y ! j))"

lemma readerGo_alive: "readerGo T code j y = Some y' \<Longrightarrow> alive y j"
  by (auto simp: readerGo_def alive_def split: if_splits ReaderPc.splits)

context transport_laws
begin

lemma readerGo_remaining:
  assumes go: "readerGo T code j y = Some y'" and ok: "threadsOk y" and run: "\<not> ss_running (th_session y)"
    and len: "length code \<le> K"
  shows "remaining K y' < remaining K y \<and> th_todo y' = th_todo y \<and> \<not> ss_running (th_session y')"
proof -
  from ok have r: "readersOk y" by (simp add: threadsOk_def)
  from go have a: "alive y j" by (rule readerGo_alive)
  with r have h: "th_handle y = Some j" by (rule alive_handle)
  from a have lt: "j < length (th_readers y)" by (simp add: alive_def)
  from go show ?thesis
  proof (cases rule: readerGo_cases)
    case (callback_done fs)
    with h run show ?thesis by (simp add: remaining_def bufferLen_def)
  next
    case (callback i k fs k' z)
    from r lt have "quietPc (th_readers y ! j)" by (simp add: readersOk_def list_all_length)
    with callback(2) have q: "quiet (i # k)" by simp
    note exec = quiet_exec [OF q h, of T, unfolded callback(3)]
    from exec(1,2) have "k' = k" and z: "z = y\<lparr>th_session := th_session z\<rparr>" by simp_all
    from z have "th_handle z = Some j" "th_readers z = th_readers y" "th_todo z = th_todo y"
      using h by (metis Threads.ext_inject Threads.surjective Threads.update_convs(1))+
    with callback \<open>k' = k\<close> exec(3) run h lt show ?thesis by (simp add: remaining_def)
  next
    case move
    with readerMove_budget [OF run len move(2,3)] readerMove_stopped [OF run] h show ?thesis
      by (simp add: remaining_def bufferLen_def)
  qed
qed

end

fun readerSteps :: "Choice list \<Rightarrow> nat" where
  "readerSteps [] = 0"
| "readerSteps (ReaderStep j code # cs) = Suc (readerSteps cs)"
| "readerSteps (c # cs) = readerSteps cs"

text \<open>While the owner waits, others go on, but the steps of the reader are counted.\<close>

definition waiting :: "'t Threads \<Rightarrow> bool" where
  "waiting y \<longleftrightarrow> threadsOk y \<and> \<not> ss_running (th_session y) \<and> th_todo y \<noteq> []"

context transport_laws
begin

lemma go_waiting:
  assumes w: "waiting y" and go: "go T c y = Some y'" "allowed may cbs y c" "c \<noteq> OwnerStep"
    and cbs: "list_all quiet cbs" "list_all (\<lambda>code. length code \<le> K) cbs"
  shows "waiting y' \<and> th_todo y' = th_todo y \<and> readerSteps [c] + remaining K y' \<le> remaining K y"
proof -
  from go_ok [OF go(1,2) cbs(1)] w have ok: "threadsOk y'" by (simp add: waiting_def)
  show ?thesis
  proof (cases c)
    case (Begin call)
    with w go(1) show ?thesis by (simp add: waiting_def)
  next
    case (ReaderStep j code)
    with go(2) cbs(2) have "length code \<le> K" by (auto simp: list_all_iff)
    with readerGo_remaining [of code j y y' K] ReaderStep go(1) w ok show ?thesis by (simp add: waiting_def)
  next
    case (Sender step)
    with go(1) have "y' = y\<lparr>th_session := senderGo T step (th_session y)\<rparr>" by (simp split: if_splits)
    with Sender w ok show ?thesis
      by (simp add: waiting_def stopped_simps remaining_def bufferLen_def split: option.split)
  qed (use go(3) in simp)
qed

lemma goAll_waiting:
  assumes "waiting y" "goAll T cs y = Some y'" "allAllowed T may cbs cs y" "OwnerStep \<notin> set cs"
    "list_all quiet cbs" "list_all (\<lambda>code. length code \<le> K) cbs"
  shows "waiting y' \<and> th_todo y' = th_todo y \<and> readerSteps cs + remaining K y' \<le> remaining K y"
  using assms
proof (induction cs arbitrary: y)
  case (Cons c cs)
  then obtain z where z: "go T c y = Some z" "goAll T cs z = Some y'" by (auto split: option.splits)
  have step: "waiting z \<and> th_todo z = th_todo y \<and> readerSteps [c] + remaining K z \<le> remaining K y"
    using Cons.prems z(1) by (intro go_waiting [where may = may and cbs = cbs]) auto
  with Cons z have "waiting y' \<and> th_todo y' = th_todo z \<and> readerSteps cs + remaining K y' \<le> remaining K z"
    by (auto split: option.splits)
  with step show ?case by (cases c) auto
qed simp

text \<open>And the reader can go on until it has ended.\<close>

lemma waiting_progress:
  assumes "waiting y" "th_todo y = JoinReader # k"
  shows "mayGo None JoinReader y \<or> (\<exists>j y'. readerGo T [] j y = Some y')"
proof (cases "th_handle y")
  case (Some j)
  from assms(1) Some have j: "j < length (th_readers y)" by (simp add: waiting_def threadsOk_def readersOk_def)
  have moves: "readerGo T [] j y \<noteq> None"
    if "th_readers y ! j \<noteq> Ended" "\<forall>k fs. th_readers y ! j \<noteq> InCallback k fs"
    using that j by (simp add: readerGo_def case_prod_unfold Let_def split: ReaderPc.split)
  show ?thesis
  proof (cases "th_readers y ! j")
    case (InCallback code fs)
    show ?thesis
    proof (cases code)
      case Nil
      with InCallback j show ?thesis by (intro disjI2 exI [of _ j]) (simp add: readerGo_def)
    next
      case (Cons i c)
      with InCallback j Some show ?thesis
        by (intro disjI2 exI [of _ j]) (simp add: readerGo_def mayGo_def case_prod_unfold Let_def)
    qed
  qed (use moves Some in \<open>auto simp: mayGo_def\<close>)
qed (simp add: mayGo_def)

end

section \<open>Concrete runs\<close>

abbreviation anyCall :: "'t Threads \<Rightarrow> OwnerCall \<Rightarrow> bool" where
  "anyCall \<equiv> \<lambda>y c. True"

lemma reach_run:
  "goAll T cs (newThreads t) = Some y \<Longrightarrow> allAllowed T may cbs cs (newThreads t) \<Longrightarrow> reach T may cbs y"
  using reach_goAll [OF reach.fresh] .

text \<open>A connect, whole.\<close>

definition connectRun :: "Choice list" where
  "connectRun = Begin (Connect ''a'') # replicate 9 OwnerStep"

text \<open>A disconnect that gets to wait for a reader whose callback disconnects too.\<close>

definition waitRun :: "Choice list" where
  "waitRun = Sender (Register (Some 0)) # connectRun @
     replicate 4 (ReaderStep 0 disconnect_code) @ [Begin Disconnect, OwnerStep]"

definition reportTransport :: FakeTransport where
  "reportTransport = FakeTransport_new\<lparr>ft_incomingQueue :=
     concat (map (\<lambda>f. case encode f of Inr w \<Rightarrow> w | Inl e \<Rightarrow> [])
       [mkFrame DT_DataMdr 0 [0x11, 0, 40, 0], mkFrame DT_DataMdr 1 [0x11, 0, 30, 0]])\<rparr>"

lemma waitRun_state:
  "map_option (\<lambda>y. (th_todo y, th_readers y, th_handle y)) (goAll fake_ops waitRun (newThreads (Some reportTransport))) =
     Some ([JoinReader, DropTransport, ClearAll],
       [InCallback disconnect_code [mkFrame DT_DataMdr 1 [0x11, 0, 30, 0]]], Some 0)"
  by code_simp

lemma waitRun_allowed:
  "allAllowed fake_ops anyCall [disconnect_code] waitRun (newThreads (Some reportTransport))"
  by code_simp

text \<open>A link that takes no more bytes: the reader's own acknowledgement fails, which clears
  \<open>_running\<close> while it still has a frame to handle.\<close>

definition deaf_ops :: "FakeTransport ITransport" where
  "deaf_ops = fake_ops\<lparr>t_send := \<lambda>bs t. (Inr 0, t)\<rparr>"

definition restartRun :: "Choice list" where
  "restartRun = connectRun @ replicate 4 (ReaderStep 0 []) @ Begin (Connect ''a'') # replicate 5 OwnerStep @
     replicate 4 (ReaderStep 0 []) @ replicate 4 OwnerStep"

lemma restartRun_state:
  "map_option (\<lambda>y. (th_todo y, th_readers y, ss_running (th_session y), ss_lastSeenDataSeq (th_session y),
       map fr_payload (ss_unmatchedFrames (th_session y))))
     (goAll deaf_ops restartRun (newThreads (Some reportTransport))) =
   Some ([], [Ended, AtTop], True, Some 1, [[0x11, 0, 30, 0]])"
  by code_simp

text \<open>The link keeps the contract of a transport; the reader of the new connection has received
  nothing, but an old report waits to answer its first request, and the headset's next frame is
  taken for a repetition if it has sequence number 1.\<close>

lemma deaf_laws: "transport_laws deaf_ops"
  using fake.connect_connects fake.disconnect_disconnects fake.receive_bound
  by unfold_locales (auto simp: deaf_ops_def)

lemma restart_keeps_old_frames:
  "\<exists>y. reach deaf_ops anyCall [] y \<and> th_todo y = [] \<and> th_readers y = [Ended, AtTop] \<and> ss_running (th_session y) \<and>
     ss_lastSeenDataSeq (th_session y) = Some 1 \<and>
     map fr_payload (ss_unmatchedFrames (th_session y)) = [[0x11, 0, 30, 0]]"
proof -
  obtain y where y: "goAll deaf_ops restartRun (newThreads (Some reportTransport)) = Some y"
    using restartRun_state by (cases "goAll deaf_ops restartRun (newThreads (Some reportTransport))") auto
  moreover have "allAllowed deaf_ops anyCall [] restartRun (newThreads (Some reportTransport))" by code_simp
  ultimately have "reach deaf_ops anyCall [] y" by (rule reach_run)
  with y restartRun_state show ?thesis by auto
qed

text \<open>A callback that connects ends the process: \<open>_stopReader\<close> does not join the thread that it is
  on, and \<open>_startReader\<close> assigns to its handle.\<close>

definition reconnectRun :: "Choice list" where
  "reconnectRun = Sender (Register (Some 0)) # connectRun @
     replicate 17 (ReaderStep 0 (connect_code ''a''))"

lemma reconnect_in_callback_dies:
  "\<exists>y. reach fake_ops anyCall [connect_code ''a''] y \<and> th_died y"
proof -
  have "map_option th_died (goAll fake_ops reconnectRun (newThreads (Some reportTransport))) = Some True"
    by code_simp
  then obtain y where y: "goAll fake_ops reconnectRun (newThreads (Some reportTransport)) = Some y" "th_died y"
    by auto
  moreover have "allAllowed fake_ops anyCall [connect_code ''a''] reconnectRun (newThreads (Some reportTransport))"
    by code_simp
  ultimately show ?thesis using reach_run by blast
qed

section \<open>How the device uses it\<close>

text \<open>\<open>SonyDevice\<close> makes a session for each connection, starts it once, and disconnects or
  destroys it.\<close>

definition deviceCalls :: "'t Threads \<Rightarrow> OwnerCall \<Rightarrow> bool" where
  "deviceCalls y c \<longleftrightarrow> (case c of Start \<Rightarrow> th_readers y = [] | Connect a \<Rightarrow> False | _ \<Rightarrow> True)"

definition cleared :: "'t Session \<Rightarrow> bool" where
  "cleared s \<longleftrightarrow> ss_streamBuffer s = [] \<and> ss_lastSeenDataSeq s = None \<and> ss_unmatchedFrames s = []"

definition startsClean :: "'t Threads \<Rightarrow> bool" where
  "startsClean y \<longleftrightarrow> DisconnectIfUp \<notin> set (th_todo y) \<and>
     (case th_readers y of
        [] \<Rightarrow> cleared (th_session y) \<and> (SpawnReader \<in> set (th_todo y) \<longrightarrow> distinct (th_todo y))
      | [r] \<Rightarrow> SpawnReader \<notin> set (th_todo y)
      | _ \<Rightarrow> False)"

lemma cleared_simps [simp]:
  "cleared (clearSession s)" "cleared (newSession t)" "cleared (ss_running_update f s) = cleared s"
  "cleared (ss_transport_update g s) = cleared s" "cleared (ss_sequence_update h s) = cleared s"
  by (simp_all add: cleared_def clearSession_def newSession_def)

lemma cleared_sender: "cleared s \<Longrightarrow> cleared (senderGo T c s)"
  by (cases c) (simp_all add: cleared_def prepareSend_def prepareRequest_def finishSend_def finishRequest_def
      stampFrame_def nextSequenceNumber_def onNotification_def Let_def split: option.split)

lemma exec_keeps:
  assumes "i \<noteq> DisconnectIfUp" "i \<noteq> SpawnReader"
  shows "fst (execInstr T self i k y) \<in> {k, []}" "th_readers (snd (execInstr T self i k y)) = th_readers y"
proof -
  show "fst (execInstr T self i k y) \<in> {k, []}"
    using assms by (cases i) (simp_all split: option.split sum.split prod.split)
  show "th_readers (snd (execInstr T self i k y)) = th_readers y"
    using assms by (cases i) (simp_all split: option.split sum.split prod.split)
qed

lemma exec_cleared: "cleared (th_session y) \<Longrightarrow> cleared (th_session (snd (execInstr T self i k y)))"
  by (cases i) (simp_all split: option.split sum.split prod.split)

lemma startsClean_new: "startsClean (newThreads t)"
  by (simp add: startsClean_def newThreads_def)

lemma startsClean_keep:
  assumes "startsClean y" "set (th_todo y') \<subseteq> set (th_todo y)" "distinct (th_todo y) \<longrightarrow> distinct (th_todo y')"
    "th_readers y' = th_readers y" "cleared (th_session y) \<longrightarrow> cleared (th_session y')"
  shows "startsClean y'"
  using assms by (auto simp: startsClean_def split: list.splits)

lemma startsClean_owner:
  assumes go: "go T OwnerStep y = Some y'" and ok: "threadsOk y" and inv: "startsClean y"
  shows "startsClean y'"
proof -
  from go obtain i k where todo: "th_todo y = i # k"
    and y': "y' = (snd (execInstr T None i k y))\<lparr>th_todo := fst (execInstr T None i k y)\<rparr>"
    by (auto split: list.splits if_splits prod.splits)
  show ?thesis
  proof (cases "i = SpawnReader")
    case True
    with todo inv have r: "th_readers y = []" and k: "SpawnReader \<notin> set k" "DisconnectIfUp \<notin> set k"
      by (auto simp: startsClean_def split: list.splits)
    have "th_handle y = None" using owner_spawn(1) [OF ok, of k] todo True by simp
    with r k y' True show ?thesis by (simp add: startsClean_def)
  next
    case False
    moreover have "i \<noteq> DisconnectIfUp" using inv todo by (auto simp: startsClean_def)
    ultimately show ?thesis
      using exec_keeps [where T = T and self = None and k = k and y = y] exec_cleared todo y'
      by (intro startsClean_keep [OF inv]) (auto, fastforce+)
  qed
qed

lemma startsClean_reader:
  assumes go: "readerGo T code j y = Some y'" and ok: "threadsOk y" and inv: "startsClean y"
  shows "startsClean y'"
proof -
  from go have a: "alive y j" by (rule readerGo_alive)
  from ok have r: "readersOk y" by (simp add: threadsOk_def)
  from r a have h: "th_handle y = Some j" by (rule alive_handle)
  have "th_todo y' = th_todo y \<and> length (th_readers y') = length (th_readers y)"
    using go
  proof (cases rule: readerGo_cases)
    case (callback i k fs k' z)
    from r callback(1) have "quietPc (th_readers y ! j)" by (simp add: readersOk_def list_all_length)
    with callback(2) have "quiet (i # k)" by simp
    then have z: "z = y\<lparr>th_session := th_session z\<rparr>" using quiet_exec(2) [OF _ h, of i k T] callback(3) by simp
    from arg_cong [OF z, of th_todo] arg_cong [OF z, of th_readers] callback(4) show ?thesis by simp
  qed simp_all
  moreover from a have "th_readers y \<noteq> []" by (auto simp: alive_def)
  ultimately show ?thesis using inv by (auto simp: startsClean_def split: list.splits)
qed

lemma startsClean_go:
  assumes "go T c y = Some y'" "allowed deviceCalls cbs y c" "threadsOk y" "startsClean y"
  shows "startsClean y'"
proof (cases c)
  case (Begin call)
  with assms show ?thesis
    by (cases call) (auto simp: startsClean_def deviceCalls_def code_defs split: if_splits list.splits)
next
  case (Sender step)
  with assms(1) have "y' = y\<lparr>th_session := senderGo T step (th_session y)\<rparr>" by (simp split: if_splits)
  then show ?thesis by (intro startsClean_keep [OF assms(4)]) (simp_all add: cleared_sender)
qed (use assms in \<open>auto intro: startsClean_owner startsClean_reader\<close>)

lemma reach_clean: "reach T deviceCalls cbs y \<Longrightarrow> list_all quiet cbs \<Longrightarrow> threadsOk y \<and> startsClean y"
  by (induction rule: reach.induct) (auto intro: threadsOk_new startsClean_new go_ok startsClean_go)

section \<open>The operations as \<open>Session\<close> has them\<close>

text \<open>The owner alone, for at most \<open>n\<close> steps.\<close>

fun ownerRun :: "'t ITransport \<Rightarrow> nat \<Rightarrow> 't Threads \<Rightarrow> 't Threads" where
  "ownerRun T 0 y = y"
| "ownerRun T (Suc n) y = (case go T OwnerStep y of None \<Rightarrow> y | Some y' \<Rightarrow> ownerRun T n y')"

fun bigStep :: "'t ITransport \<Rightarrow> OwnerCall \<Rightarrow> 't Session \<Rightarrow> 't Session" where
  "bigStep T (Connect a) s = snd (session_connect T a s)"
| "bigStep T Start s = snd (session_start T s)"
| "bigStep T Disconnect s = session_disconnect T s"
| "bigStep T Destroy s = session_disconnect T s"

definition readerGone :: "'t Threads \<Rightarrow> bool" where
  "readerGone y \<longleftrightarrow> (case th_handle y of None \<Rightarrow> True | Some j \<Rightarrow> th_readers y ! j = Ended)"

lemma owner_step [simp]:
  "readerGone y \<Longrightarrow> th_todo y = i # k \<Longrightarrow>
     go T OwnerStep y = Some ((snd (execInstr T None i k y))\<lparr>th_todo := fst (execInstr T None i k y)\<rparr>)"
  by (auto simp: readerGone_def mayGo_def case_prod_unfold Let_def split: option.splits)

lemma owner_done [simp]: "th_todo y = [] \<Longrightarrow> go T OwnerStep y = None"
  by simp

lemma join_owner [simp]: "execInstr T None JoinReader k y = (k, y\<lparr>th_handle := None\<rparr>)"
  by (cases y) simp

lemma readerGone_simps [simp]:
  "readerGone (y\<lparr>th_session := s\<rparr>) = readerGone y" "readerGone (y\<lparr>th_todo := k\<rparr>) = readerGone y"
  "readerGone (y\<lparr>th_handle := None\<rparr>)"
  by (simp_all add: readerGone_def split: option.split)

lemma ownerRun_nil: "th_todo y = [] \<Longrightarrow> ownerRun T n y = y"
  by (cases n) simp_all

lemma ownerRun_disconnect:
  assumes "readerGone y" "th_todo y = disconnect_code @ k"
  shows "ownerRun T (Suc (Suc (Suc (Suc n)))) y =
    ownerRun T n (y\<lparr>th_handle := None, th_session := session_disconnect T (th_session y), th_todo := k\<rparr>)"
  using assms by (simp add: code_defs session_disconnect_def clearSession_def del: go.simps execInstr.simps(2))

text \<open>The operation \<open>c\<close> of an owner whose reader is gone ends, with the session that \<open>Session\<close>
  computes; if that runs then it has a reader, at its start.\<close>

definition ranTo :: "'t Threads \<Rightarrow> 't Session \<Rightarrow> bool" where
  "ranTo z s \<longleftrightarrow> th_todo z = [] \<and> th_session z = s"

lemma ownerRun_start:
  assumes "readerGone y" "th_todo y = start_code"
  shows "ranTo (ownerRun T (Suc (Suc (Suc (Suc (Suc (Suc (Suc n))))))) y) (snd (session_start T (th_session y)))"
proof (cases "(case ss_transport (th_session y) of None \<Rightarrow> False | Some t \<Rightarrow> t_isConnected T t) \<and> \<not> ss_running (th_session y)")
  case True
  then obtain t where "ss_transport (th_session y) = Some t" "t_isConnected T t" "\<not> ss_running (th_session y)"
    by (auto split: option.splits)
  with assms show ?thesis
    by (simp add: ranTo_def code_defs session_start_def clearSession_def ownerRun_nil del: go.simps execInstr.simps(2))
next
  case False
  with assms show ?thesis
    by (auto simp: ranTo_def code_defs session_start_def ownerRun_nil simp del: go.simps execInstr.simps(2) split: option.split)
qed

text \<open>The part of \<open>connect\<close> after the disconnect.\<close>

definition openAndStart :: "'t ITransport \<Rightarrow> string \<Rightarrow> 't Session \<Rightarrow> 't Session" where
  "openAndStart T a s = (case ss_transport s of
       None \<Rightarrow> s
     | Some t \<Rightarrow> (case t_connect T a t of
           (Inl e, t') \<Rightarrow> s\<lparr>ss_transport := Some t'\<rparr>
         | (Inr _, t') \<Rightarrow> snd (session_start T (s\<lparr>ss_transport := Some t'\<rparr>))))"

lemma connect_openAndStart:
  "snd (session_connect T a s) =
     openAndStart T a (if isConnected T s \<or> ss_running s then session_disconnect T s else s)"
  by (simp add: session_connect_def openAndStart_def Let_def split: option.split sum.split prod.split)

lemma ownerRun_open:
  assumes "readerGone y" "th_todo y = OpenTransport a # start_code"
  shows "ranTo (ownerRun T (Suc (Suc (Suc (Suc (Suc (Suc (Suc (Suc n)))))))) y) (openAndStart T a (th_session y))"
proof -
  have fail: "ranTo (ownerRun T (Suc m) y) s"
    if "execInstr T None (OpenTransport a) start_code y = ([], z)" "th_session z = s" for m s z
    using that assms by (simp add: ranTo_def ownerRun_nil del: go.simps execInstr.simps)
  show ?thesis
  proof (cases "ss_transport (th_session y)")
    case None
    then show ?thesis using fail [of y] by (simp add: openAndStart_def del: ownerRun.simps)
  next
    case (Some t)
    obtain r t' where c: "t_connect T a t = (r, t')" by fastforce
    show ?thesis
    proof (cases r)
      case (Inl e)
      with Some c show ?thesis
        using fail [of "y\<lparr>th_session := (th_session y)\<lparr>ss_transport := Some t'\<rparr>\<rparr>"]
        by (simp add: openAndStart_def del: ownerRun.simps)
    next
      case (Inr u)
      let ?z = "y\<lparr>th_session := (th_session y)\<lparr>ss_transport := Some t'\<rparr>, th_todo := start_code\<rparr>"
      have "ownerRun T (Suc m) y = ownerRun T m ?z" for m
        using Some c Inr assms by (simp del: go.simps)
      with ownerRun_start [of ?z T n] Some c Inr assms(1) show ?thesis
        by (simp add: openAndStart_def del: ownerRun.simps)
    qed
  qed
qed

lemma ownerRun_connect:
  assumes gone: "readerGone y" and todo: "th_todo y = connect_code a"
  shows "ranTo (ownerRun T (Suc (Suc (Suc (Suc (Suc (Suc (Suc (Suc (Suc (Suc (Suc (Suc (Suc n))))))))))))) y)
    (snd (session_connect T a (th_session y)))"
proof -
  let ?up = "isConnected T (th_session y) \<or> ss_running (th_session y)"
  have code: "connect_code a = DisconnectIfUp # OpenTransport a # start_code"
    by (simp add: connect_code_def)
  show ?thesis
  proof (cases ?up)
    case True
    let ?y = "y\<lparr>th_todo := disconnect_code @ OpenTransport a # start_code\<rparr>"
    let ?z = "y\<lparr>th_handle := None, th_session := session_disconnect T (th_session y),
          th_todo := OpenTransport a # start_code\<rparr>"
    have "ownerRun T (Suc m) y = ownerRun T m ?y" for m
      using True todo code gone by (simp del: go.simps)
    moreover have "ownerRun T (Suc (Suc (Suc (Suc m)))) ?y = ownerRun T m ?z" for m
      using ownerRun_disconnect [of ?y "OpenTransport a # start_code" T] gone by (simp del: ownerRun.simps)
    moreover have "ranTo (ownerRun T (Suc (Suc (Suc (Suc (Suc (Suc (Suc (Suc n)))))))) ?z)
        (openAndStart T a (session_disconnect T (th_session y)))"
      using ownerRun_open [of ?z a T n] gone by (simp del: ownerRun.simps)
    ultimately show ?thesis using True by (simp add: connect_openAndStart del: ownerRun.simps)
  next
    case False
    let ?y = "y\<lparr>th_todo := OpenTransport a # start_code\<rparr>"
    have "ownerRun T (Suc m) y = ownerRun T m ?y" for m
      using False todo code gone by (simp del: go.simps)
    with ownerRun_open [of ?y a T "Suc (Suc (Suc (Suc n)))"] gone False show ?thesis
      by (simp add: connect_openAndStart del: ownerRun.simps)
  qed
qed

section \<open>What holds of every run\<close>

text \<open>C15: However the owner's connects, starts, disconnects and the destructor, the readers, the
  senders and callbacks that may disconnect are interleaved, \<open>std::terminate\<close> is never called; at
  most one reader exists at a time; none is left once the session is freed, so nothing touches
  the freed object; and as long as \<open>_running\<close> holds a reader is there or started next.\<close>

theorem reader_lifecycle_safe:
  assumes "reach T may cbs y" "list_all quiet cbs"
  shows "\<not> th_died y \<and> (\<forall>i j. alive y i \<and> alive y j \<longrightarrow> i = j) \<and>
    (th_freed y \<longrightarrow> (\<forall>j. \<not> alive y j)) \<and> (ss_running (th_session y) \<longrightarrow> fed y)"
proof -
  have ok: "threadsOk y" using reach_ok [OF assms] .
  then have r: "readersOk y" by (simp add: threadsOk_def)
  have "i = j" if "alive y i" "alive y j" for i j
    using alive_handle [OF r that(1)] alive_handle [OF r that(2)] by simp
  moreover have "\<not> alive y j" if "th_freed y" for j using ok that alive_none [OF r] by (simp add: threadsOk_def)
  ultimately show ?thesis using ok by (auto simp: threadsOk_def)
qed

theorem reader_lifecycle_safe_witness:
  "\<exists>y. goAll fake_ops waitRun (newThreads (Some reportTransport)) = Some y \<and> \<not> th_died y \<and>
     alive y 0 \<and> (\<forall>i. alive y i \<longrightarrow> i = 0)"
proof -
  obtain y where y: "goAll fake_ops waitRun (newThreads (Some reportTransport)) = Some y"
    "th_readers y = [InCallback disconnect_code [mkFrame DT_DataMdr 1 [0x11, 0, 30, 0]]]"
    using waitRun_state by (cases "goAll fake_ops waitRun (newThreads (Some reportTransport))") auto
  have "reach fake_ops anyCall [disconnect_code] y" using reach_run [OF y(1) waitRun_allowed] .
  from reader_lifecycle_safe [OF this] quiet_disconnect
  have "\<not> th_died y" "\<forall>i j. alive y i \<and> alive y j \<longrightarrow> i = j" by simp_all
  moreover have "alive y 0" using y(2) by (simp add: alive_def)
  ultimately show ?thesis using y(1) by blast
qed

text \<open>C16: An owner that waits in \<open>_stopReader\<close> for its reader does not wait for ever: whatever
  the reader, its callbacks and the senders do meanwhile, the reader takes at most the number of
  steps that \<open>remaining\<close> says (it depends on where the reader is, on the bytes buffered and
  on the length \<open>K\<close> of the callbacks), and until the join can return the reader can go on.\<close>

theorem join_returns:
  assumes "transport_laws T" "reach T may cbs y" "list_all quiet cbs" "list_all (\<lambda>code. length code \<le> K) cbs"
    and "th_todo y = JoinReader # k"
    and "goAll T cs y = Some y'" "allAllowed T may cbs cs y" "OwnerStep \<notin> set cs"
  shows "readerSteps cs \<le> remaining K y \<and> th_todo y' = JoinReader # k \<and>
    (mayGo None JoinReader y' \<or> (\<exists>j z. readerGo T [] j y' = Some z))"
proof -
  have "threadsOk y" using reach_ok [OF assms(2,3)] .
  with assms(5) have w: "waiting y" by (auto simp: waiting_def threadsOk_def todoOk_def)
  from transport_laws.goAll_waiting [OF assms(1) w assms(6,7,8,3,4)]
  have "waiting y'" "th_todo y' = JoinReader # k" "readerSteps cs + remaining K y' \<le> remaining K y"
    using assms(5) by simp_all
  with transport_laws.waiting_progress [OF assms(1), of y' k] show ?thesis by simp
qed

theorem join_returns_witness:
  "\<exists>y. goAll fake_ops waitRun (newThreads (Some reportTransport)) = Some y \<and>
     remaining 4 y = 14 \<and> readerSteps (replicate 4 (ReaderStep 0 [])) \<le> remaining 4 y"
proof -
  obtain y where y: "goAll fake_ops waitRun (newThreads (Some reportTransport)) = Some y"
    "th_readers y = [InCallback disconnect_code [mkFrame DT_DataMdr 1 [0x11, 0, 30, 0]]]"
    "th_handle y = Some 0" "th_todo y = [JoinReader, DropTransport, ClearAll]"
    using waitRun_state by (cases "goAll fake_ops waitRun (newThreads (Some reportTransport))") auto
  have r: "reach fake_ops anyCall [disconnect_code] y" using reach_run [OF y(1) waitRun_allowed] .
  have "map_option (\<lambda>y. (goAll fake_ops (replicate 4 (ReaderStep 0 [])) y \<noteq> None,
      allAllowed fake_ops anyCall [disconnect_code] (replicate 4 (ReaderStep 0 [])) y))
      (goAll fake_ops waitRun (newThreads (Some reportTransport))) = Some (True, True)" by code_simp
  with y(1) obtain y' where y': "goAll fake_ops (replicate 4 (ReaderStep 0 [])) y = Some y'"
    "allAllowed fake_ops anyCall [disconnect_code] (replicate 4 (ReaderStep 0 [])) y" by auto
  have "readerSteps (replicate 4 (ReaderStep 0 [])) \<le> remaining 4 y"
    using join_returns [OF fake.transport_laws_axioms r _ _ y(4) y', of 4] quiet_disconnect
    by (simp add: code_defs)
  moreover have "remaining 4 y = 14" using y(2,3) by (simp add: remaining_def code_defs)
  ultimately show ?thesis using y(1) by blast
qed



text \<open>A reader that the device starts begins with nothing received.\<close>

lemma device_starts_clean:
  assumes "reach T deviceCalls cbs y" "list_all quiet cbs" "th_todo y = SpawnReader # k"
  shows "th_readers y = [] \<and> cleared (th_session y)"
  using reach_clean [OF assms(1,2)] assms(3) by (auto simp: startsClean_def split: list.splits)

end
