(* ===== verification/DeviceState.thy ===== *)
theory DeviceState
  imports Prelude
begin

text \<open>
  The values the protocol reports and the device keeps: \<open>SemanticTypes.h\<close>,
  \<open>DeviceState.h\<close> and \<open>DeviceEvents.h\<close>. C++ \<open>int\<close> fields are HOL integers: every
  value stored in them is a byte, a byte less ten, or a caller's argument. The five
  equalizer bands (\<open>std::array<int, 5>\<close>) are a list.
\<close>

record BatteryState =
  bt_main :: "int option"
  bt_left :: "int option"
  bt_right :: "int option"
  bt_case :: "int option"
  bt_charging :: bool

datatype NoiseControlMode = ModeOff | NoiseCancelling | Ambient

record NoiseControlState =
  nc_mode :: NoiseControlMode
  nc_ambientLevel :: int
  nc_focusOnVoice :: bool

record EqualizerState =
  eq_preset :: int
  eq_clearBass :: int
  eq_bands :: "int list"

definition emptyBattery :: BatteryState where
  "emptyBattery = \<lparr>bt_main = None, bt_left = None, bt_right = None, bt_case = None, bt_charging = False\<rparr>"

definition defaultNoise :: NoiseControlState where
  "defaultNoise = \<lparr>nc_mode = ModeOff, nc_ambientLevel = 0, nc_focusOnVoice = False\<rparr>"

definition defaultEqualizer :: EqualizerState where
  "defaultEqualizer = \<lparr>eq_preset = 0, eq_clearBass = 0, eq_bands = [0, 0, 0, 0, 0]\<rparr>"

record FeatureStatus =
  fs_availability :: string
  fs_lastSuccessMs :: int
  fs_error :: string

definition defaultFeature :: FeatureStatus where
  "defaultFeature = \<lparr>fs_availability = ''unknown'', fs_lastSuccessMs = 0, fs_error = ''''\<rparr>"

record DeviceState =
  ds_features :: "string \<rightharpoonup> FeatureStatus"
  ds_battery :: BatteryState
  ds_noiseControl :: NoiseControlState
  ds_equalizer :: EqualizerState
  ds_dsee :: bool
  ds_firmware :: string
  ds_codec :: string
  ds_autoPowerOff :: int
  ds_speakToChat :: bool
  ds_adaptiveVolume :: bool

definition defaultState :: DeviceState where
  "defaultState = \<lparr>ds_features = Map.empty, ds_battery = emptyBattery, ds_noiseControl = defaultNoise,
     ds_equalizer = defaultEqualizer, ds_dsee = False, ds_firmware = '''', ds_codec = '''',
     ds_autoPowerOff = 0, ds_speakToChat = False, ds_adaptiveVolume = False\<rparr>"

text \<open>The events; a state snapshot is an immutable copy.\<close>

datatype DeviceEvent =
    BatteryChanged BatteryState
  | NoiseControlChanged NoiseControlState
  | EqualizerChanged EqualizerState
  | ConnectionChanged bool string
  | DeviceStateChanged DeviceState

end
