(* ===== verification/IProtocol.thy ===== *)
theory IProtocol
  imports Link DeviceState
begin

text \<open>
  \<open>IProtocol.h\<close>, the interface the device drives, as a record of operations on the link
  state, and \<open>ProtocolHelpers.h\<close>, the byte-level helpers both generations share.
\<close>

datatype ProtocolGeneration = GenV1 | GenV2

record 's IProtocol =
  ip_generation :: ProtocolGeneration
  ip_initDevice :: "('s, unit) prog"
  ip_getBattery :: "('s, BatteryState) prog"
  ip_getNoiseControl :: "('s, NoiseControlState) prog"
  ip_setNoiseControl :: "NoiseControlState \<Rightarrow> ('s, unit) prog"
  ip_getEqualizer :: "('s, EqualizerState) prog"
  ip_setEqualizerPreset :: "int \<Rightarrow> ('s, unit) prog"
  ip_setEqualizerCustom :: "int \<Rightarrow> int list \<Rightarrow> ('s, unit) prog"
  ip_getDsee :: "('s, bool) prog"
  ip_setDsee :: "bool \<Rightarrow> ('s, unit) prog"
  ip_getFirmwareVersion :: "('s, string) prog"
  ip_getCodec :: "('s, string) prog"
  ip_getAutoPowerOff :: "('s, int) prog"
  ip_setAutoPowerOff :: "int \<Rightarrow> ('s, unit) prog"
  ip_getSpeakToChat :: "('s, bool) prog"
  ip_setSpeakToChat :: "bool \<Rightarrow> ('s, unit) prog"
  ip_getAdaptiveVolume :: "('s, bool) prog"
  ip_setAdaptiveVolume :: "bool \<Rightarrow> ('s, unit) prog"
  ip_reset :: "('s, unit) prog"
  ip_factoryReset :: "('s, unit) prog"

text \<open>The contract a device relies on: whatever operation it calls, only payloads that
  satisfy \<open>ok\<close> are handed to the link.\<close>

locale iprotocol_laws =
  fixes P :: "'s IProtocol" and sent :: "'s \<Rightarrow> u8 list list" and ok :: "u8 list \<Rightarrow> bool"
  assumes emits_initDevice: "emits sent ok (ip_initDevice P)"
    and emits_getBattery: "emits sent ok (ip_getBattery P)"
    and emits_getNoiseControl: "emits sent ok (ip_getNoiseControl P)"
    and emits_setNoiseControl: "emits sent ok (ip_setNoiseControl P nc)"
    and emits_getEqualizer: "emits sent ok (ip_getEqualizer P)"
    and emits_setEqualizerPreset: "emits sent ok (ip_setEqualizerPreset P i)"
    and emits_setEqualizerCustom: "emits sent ok (ip_setEqualizerCustom P i bands)"
    and emits_getDsee: "emits sent ok (ip_getDsee P)"
    and emits_setDsee: "emits sent ok (ip_setDsee P b)"
    and emits_getFirmwareVersion: "emits sent ok (ip_getFirmwareVersion P)"
    and emits_getCodec: "emits sent ok (ip_getCodec P)"
    and emits_getAutoPowerOff: "emits sent ok (ip_getAutoPowerOff P)"
    and emits_setAutoPowerOff: "emits sent ok (ip_setAutoPowerOff P i)"
    and emits_getSpeakToChat: "emits sent ok (ip_getSpeakToChat P)"
    and emits_setSpeakToChat: "emits sent ok (ip_setSpeakToChat P b)"
    and emits_getAdaptiveVolume: "emits sent ok (ip_getAdaptiveVolume P)"
    and emits_setAdaptiveVolume: "emits sent ok (ip_setAdaptiveVolume P b)"
    and emits_reset: "emits sent ok (ip_reset P)"
    and emits_factoryReset: "emits sent ok (ip_factoryReset P)"

section \<open>Byte-level helpers\<close>

definition codecName :: "u8 \<Rightarrow> string" where
  "codecName code =
     (if code = 0x01 then ''SBC'' else if code = 0x02 then ''AAC'' else if code = 0x10 then ''LDAC''
      else if code = 0x20 then ''aptX'' else if code = 0x21 then ''aptX HD'' else '''')"

definition clampEqValue :: "int \<Rightarrow> u8" where
  "clampEqValue v = byteOf (max (-10) (min 10 v) + 10)"

text \<open>The payload from an index on, as text: \<open>std::string(begin() + 3, end())\<close>.\<close>

definition payloadText :: "u8 list \<Rightarrow> string" where
  "payloadText p = map (\<lambda>b. char_of (unat b)) (drop 3 p)"

text \<open>The equalizer table that both generations answer with, after the opcode.\<close>

definition decodeEqBands :: "u8 list \<Rightarrow> EqualizerState" where
  "decodeEqBands p = \<lparr>eq_preset = intOf (p ! 2), eq_clearBass = intOf (p ! 4) - 10,
     eq_bands = map (\<lambda>i. intOf (p ! (5 + i)) - 10) [0..<5]\<rparr>"

definition clampEq :: "int \<Rightarrow> int" where
  "clampEq v = max (-10) (min 10 v)"

lemma intOf_clampEqValue [simp]: "intOf (clampEqValue v) - 10 = clampEq v"
  by (simp add: clampEqValue_def clampEq_def)

lemma clampEq_id [simp]: "-10 \<le> v \<Longrightarrow> v \<le> 10 \<Longrightarrow> clampEq v = v"
  by (simp add: clampEq_def)

text \<open>Run \<open>k\<close> on the response; a \<open>SonyException\<close> of the request gives the value that
  the surrounding code falls back to.\<close>

definition tryRequest ::
    "('s, SonyFrame) prog \<Rightarrow> (u8 list \<Rightarrow> 'a) \<Rightarrow> 'a \<Rightarrow> ('s, 'a) prog" where
  "tryRequest m k d = catchSony (bindP m (\<lambda>r. returnP (k (fr_payload r)))) (\<lambda>_ _. returnP d)"

lemma emits_tryRequest [emits_intros]: "emits obs ok m \<Longrightarrow> emits obs ok (tryRequest m k d)"
  unfolding tryRequest_def by (intro emits_intros)

lemma emits_option [emits_intros]:
  "(x = None \<Longrightarrow> emits obs ok m) \<Longrightarrow> (\<And>y. x = Some y \<Longrightarrow> emits obs ok (k y)) \<Longrightarrow>
   emits obs ok (case x of None \<Rightarrow> m | Some y \<Rightarrow> k y)"
  by (cases x) simp_all

text \<open>What a request and the code after it come to, by the request's outcome.\<close>

lemma fst_bind_Inr: "fst (m s) = Inr x \<Longrightarrow> fst (bindP m f s) = fst (f x (snd (m s)))"
  by (simp add: bindP_def case_prod_unfold)

lemma fst_tryRequest:
  "fst (tryRequest m k d s) = (case fst (m s) of Inr r \<Rightarrow> Inr (k (fr_payload r))
     | Inl (SonyException c w) \<Rightarrow> Inr d | Inl (StdException w) \<Rightarrow> Inl (StdException w))"
  by (simp add: tryRequest_def prog_simps case_prod_unfold split: sum.split exn.split)

lemma tryRequest_cases:
  obtains r where "tryRequest m k d s = (Inr (k (fr_payload r)), snd (m s))" "fst (m s) = Inr r"
  | c w where "tryRequest m k d s = (Inr d, snd (m s))" "fst (m s) = Inl (SonyException c w)"
  | w where "tryRequest m k d s = (Inl (StdException w), snd (m s))" "fst (m s) = Inl (StdException w)"
proof (cases "m s")
  case (Pair r s')
  then show ?thesis
    using that by (cases r; (cases "projl r")?)
      (auto simp: tryRequest_def prog_simps split: exn.splits)
qed

text \<open>Decoding the equalizer payload that a headset echoes, with the opcode replaced.\<close>

lemma decodeEq_echo:
  assumes "length bands = 5" "p = op # q # 0xa0 # 6 # clampEqValue cb # map clampEqValue bands"
  shows "decodeEqBands p = \<lparr>eq_preset = 160, eq_clearBass = clampEq cb, eq_bands = map clampEq bands\<rparr>"
proof -
  have "[0..<5] = [0, 1, 2, 3, 4 :: nat]" by code_simp
  moreover obtain a b c d e where "bands = [a, b, c, d, e]"
    using assms(1) by (auto simp: length_Suc_conv numeral_eq_Suc)
  ultimately show ?thesis by (simp add: assms(2) decodeEqBands_def) (simp add: intOf_def)
qed

end
