(* ===== verification/ProtocolV1.thy ===== *)
theory ProtocolV1
  imports IProtocol SessionSpec
begin

text \<open>
  \<open>ProtocolV1.cpp\<close>: the command set of the WH-1000XM3 and XM4. On this generation opcode
  \<open>0x22\<close> means power off and must never be sent.
\<close>

section \<open>Operations\<close>

definition kNcAsmInquired :: u8 where [simp]: "kNcAsmInquired = 0x02"
definition kEqInquired :: u8 where [simp]: "kEqInquired = 0x01"
definition kEffectOff :: u8 where [simp]: "kEffectOff = 0x00"
definition kEffectAdjustmentCompletion :: u8 where [simp]: "kEffectAdjustmentCompletion = 0x11"
definition kLevelAdjustment :: u8 where [simp]: "kLevelAdjustment = 0x01"
definition kDualSingleOff :: u8 where [simp]: "kDualSingleOff = 0x00"
definition kDualSingleDual :: u8 where [simp]: "kDualSingleDual = 0x02"
definition kTimeout :: nat where [simp]: "kTimeout = 1000"

text \<open>The default acknowledgement timeout of \<open>SonyProtocolSession::send\<close>.\<close>

definition kSendTimeout :: nat where [simp]: "kSendTimeout = 2000"

definition v1_initDevice :: "'s Link \<Rightarrow> ('s, unit) prog" where
  "v1_initDevice L = tryRequest (lk_request L (mdrFrame [0x66, kNcAsmInquired]) 0x67 2 1500) (\<lambda>_. ()) ()"

definition v1_singleBattery :: "u8 list \<Rightarrow> BatteryState option" where
  "v1_singleBattery p =
     (if 4 \<le> length p
      then Some (emptyBattery\<lparr>bt_main := Some (intOf (p ! 2)), bt_charging := (p ! 3 = 1)\<rparr>)
      else None)"

definition v1_dualBattery :: "u8 list \<Rightarrow> BatteryState" where
  "v1_dualBattery p =
     (if 6 \<le> length p
      then let left = intOf (p ! 2); right = intOf (p ! 4);
               st = emptyBattery\<lparr>bt_charging := (p ! 3 = 1 \<or> p ! 5 = 1)\<rparr>
           in if right = 0 \<and> 0 < left then st\<lparr>bt_main := Some left\<rparr>
              else st\<lparr>bt_left := Some left, bt_right := Some right, bt_main := Some (min left right)\<rparr>
      else emptyBattery)"

definition v1_caseBattery :: "BatteryState \<Rightarrow> u8 list \<Rightarrow> BatteryState" where
  "v1_caseBattery st p = (if 4 \<le> length p then st\<lparr>bt_case := Some (intOf (p ! 2))\<rparr> else st)"

definition v1_getBattery :: "'s Link \<Rightarrow> ('s, BatteryState) prog" where
  "v1_getBattery L =
     bindP (tryRequest (lk_request L (mdrFrame [0x10, 0x00]) 0x11 0x00 kTimeout) v1_singleBattery None)
       (\<lambda>single. case single of
          Some st \<Rightarrow> returnP st
        | None \<Rightarrow>
            bindP (tryRequest (lk_request L (mdrFrame [0x10, 0x01]) 0x11 0x01 kTimeout) v1_dualBattery emptyBattery)
              (\<lambda>st. tryRequest (lk_request L (mdrFrame [0x10, 0x02]) 0x11 0x02 kTimeout) (v1_caseBattery st) st))"

definition v1_decodeNoise :: "u8 list \<Rightarrow> NoiseControlState" where
  "v1_decodeNoise p =
     (let on = (p ! 2 \<noteq> kEffectOff); ambient = (p ! 4 = kDualSingleOff); voice = (p ! 6 = 1); level = intOf (p ! 7);
          mode = (if \<not> on then ModeOff else if ambient then Ambient else NoiseCancelling)
      in \<lparr>nc_mode = mode, nc_ambientLevel = (if mode = Ambient then level else 0),
          nc_focusOnVoice = voice\<rparr>)"

definition v1_getNoiseControl :: "'s Link \<Rightarrow> ('s, NoiseControlState) prog" where
  "v1_getNoiseControl L =
     bindP (lk_request L (mdrFrame [0x66, kNcAsmInquired]) 0x67 2 kTimeout)
       (\<lambda>r. let p = fr_payload r in
          if length p < 8 \<or> p ! 1 \<noteq> kNcAsmInquired
          then throwP InvalidResponse ''Malformed noise-control response''
          else returnP (v1_decodeNoise p))"

definition v1_noisePayload :: "NoiseControlState \<Rightarrow> u8 list" where
  "v1_noisePayload st =
     (let off = (nc_mode st = ModeOff); ambient = (nc_mode st = Ambient);
          level = (if ambient then byteOf (clamp (nc_ambientLevel st) 1 20) else 0)
      in [0x68, kNcAsmInquired, if off then kEffectOff else kEffectAdjustmentCompletion, kLevelAdjustment,
          if ambient \<or> off then kDualSingleOff else kDualSingleDual, kLevelAdjustment,
          if nc_focusOnVoice st then 1 else 0, level])"

definition v1_setNoiseControl :: "'s Link \<Rightarrow> NoiseControlState \<Rightarrow> ('s, unit) prog" where
  "v1_setNoiseControl L st = lk_send L (mdrFrame (v1_noisePayload st)) kSendTimeout"

definition v1_getEqualizer :: "'s Link \<Rightarrow> ('s, EqualizerState) prog" where
  "v1_getEqualizer L =
     bindP (lk_request L (mdrFrame [0x56, kEqInquired]) 0x57 1 kTimeout)
       (\<lambda>r. let p = fr_payload r in
          if length p < 10 \<or> p ! 1 \<noteq> kEqInquired
          then throwP InvalidResponse ''Incomplete equalizer response''
          else returnP (decodeEqBands p))"

definition v1_setEqualizerPreset :: "'s Link \<Rightarrow> int \<Rightarrow> ('s, unit) prog" where
  "v1_setEqualizerPreset L preset =
     lk_send L (mdrFrame [0x58, kEqInquired, byteOf preset, 0x00]) kSendTimeout"

definition v1_eqPayload :: "int \<Rightarrow> int list \<Rightarrow> u8 list" where
  "v1_eqPayload clearBass bands =
     [0x58, kEqInquired, 0xa0, 0x06, clampEqValue clearBass] @ map clampEqValue bands"

definition v1_setEqualizerCustom :: "'s Link \<Rightarrow> int \<Rightarrow> int list \<Rightarrow> ('s, unit) prog" where
  "v1_setEqualizerCustom L clearBass bands = lk_send L (mdrFrame (v1_eqPayload clearBass bands)) kSendTimeout"

definition v1_getFirmwareVersion :: "'s Link \<Rightarrow> ('s, string) prog" where
  "v1_getFirmwareVersion L =
     bindP (lk_request L (mdrFrame [0x04, 0x02]) 0x05 (-1) kTimeout)
       (\<lambda>r. returnP (if 3 < length (fr_payload r) then payloadText (fr_payload r) else ''''))"

definition v1_getCodec :: "'s Link \<Rightarrow> ('s, string) prog" where
  "v1_getCodec L =
     bindP (lk_request L (mdrFrame [0x18, 0x00]) 0x19 (-1) kTimeout)
       (\<lambda>r. returnP (if 3 \<le> length (fr_payload r) then codecName (fr_payload r ! 2) else ''''))"

definition v1_setVpt :: "'s Link \<Rightarrow> int \<Rightarrow> ('s, unit) prog" where
  "v1_setVpt L preset = lk_send L (mdrFrame [0x48, 0x01, byteOf preset]) kSendTimeout"

definition v1_setSoundPosition :: "'s Link \<Rightarrow> int \<Rightarrow> ('s, unit) prog" where
  "v1_setSoundPosition L preset = lk_send L (mdrFrame [0x48, 0x02, byteOf preset]) kSendTimeout"

definition v1_getDsee :: "('s, bool) prog" where
  [simp]: "v1_getDsee = throwP Unsupported ''DSEE is not supported on Protocol V1''"

definition v1_setDsee :: "bool \<Rightarrow> ('s, unit) prog" where
  [simp]: "v1_setDsee enabled = throwP Unsupported ''DSEE is not supported on Protocol V1''"

text \<open>The class: what this generation lacks throws \<open>Unsupported\<close> without sending.\<close>

definition protocolV1 :: "'s Link \<Rightarrow> 's IProtocol" where
  "protocolV1 L =
     \<lparr>ip_generation = GenV1, ip_initDevice = v1_initDevice L, ip_getBattery = v1_getBattery L,
      ip_getNoiseControl = v1_getNoiseControl L, ip_setNoiseControl = v1_setNoiseControl L,
      ip_getEqualizer = v1_getEqualizer L, ip_setEqualizerPreset = v1_setEqualizerPreset L,
      ip_setEqualizerCustom = v1_setEqualizerCustom L,
      ip_getDsee = v1_getDsee, ip_setDsee = v1_setDsee,
      ip_getFirmwareVersion = v1_getFirmwareVersion L, ip_getCodec = v1_getCodec L,
      ip_getAutoPowerOff = throwP Unsupported ''Auto Power Off is not supported on Protocol V1'',
      ip_setAutoPowerOff = (\<lambda>_. throwP Unsupported ''Auto Power Off is not supported on Protocol V1''),
      ip_getSpeakToChat = throwP Unsupported ''Speak-to-Chat is not supported on Protocol V1'',
      ip_setSpeakToChat = (\<lambda>_. throwP Unsupported ''Speak-to-Chat is not supported on Protocol V1''),
      ip_getAdaptiveVolume = throwP Unsupported ''Adaptive Volume is not supported on Protocol V1'',
      ip_setAdaptiveVolume = (\<lambda>_. throwP Unsupported ''Adaptive Volume is not supported on Protocol V1''),
      ip_reset = throwP Unsupported ''Reset is not supported on Protocol V1'',
      ip_factoryReset = throwP Unsupported ''Factory reset is not supported on Protocol V1''\<rparr>"

section \<open>What V1 sends\<close>

text \<open>The opcodes of this command set; power off, \<open>0x22\<close>, is not among them.\<close>

definition v1Safe :: "u8 list \<Rightarrow> bool" where
  "v1Safe p \<longleftrightarrow> p \<noteq> [] \<and> p ! 0 \<noteq> 0x22 \<and> p ! 0 \<in> {0x04, 0x10, 0x18, 0x48, 0x56, 0x58, 0x66, 0x68}"

lemma v1Safe_Cons [simp]:
  "v1Safe (b # bs) \<longleftrightarrow> b \<in> {0x04, 0x10, 0x18, 0x48, 0x56, 0x58, 0x66, 0x68}"
  by (auto simp: v1Safe_def)

context link_laws
begin

lemma v1_initDevice: "emits sent v1Safe (v1_initDevice L)"
  unfolding v1_initDevice_def by (intro emits_intros) simp

lemma v1_getBattery: "emits sent v1Safe (v1_getBattery L)"
proof -
  have "emits sent v1Safe (case x of Some st \<Rightarrow> returnP st | None \<Rightarrow>
      bindP (tryRequest (lk_request L (mdrFrame [0x10, 0x01]) 0x11 0x01 kTimeout) v1_dualBattery emptyBattery)
        (\<lambda>st. tryRequest (lk_request L (mdrFrame [0x10, 0x02]) 0x11 0x02 kTimeout) (v1_caseBattery st) st))" for x
    by (cases x; simp only: option.case; intro emits_intros; simp)
  then show ?thesis
    unfolding v1_getBattery_def by (intro emits_bind emits_tryRequest emits_request) simp_all
qed

lemma v1_getNoiseControl: "emits sent v1Safe (v1_getNoiseControl L)"
  unfolding v1_getNoiseControl_def Let_def by (intro emits_intros) simp

lemma v1_setNoiseControl: "emits sent v1Safe (v1_setNoiseControl L st)"
  unfolding v1_setNoiseControl_def by (rule emits_send) (simp add: v1_noisePayload_def Let_def)

lemma v1_getEqualizer: "emits sent v1Safe (v1_getEqualizer L)"
  unfolding v1_getEqualizer_def Let_def by (intro emits_intros) simp

lemma v1_setEqualizerPreset: "emits sent v1Safe (v1_setEqualizerPreset L i)"
  unfolding v1_setEqualizerPreset_def by (rule emits_send) simp

lemma v1_setEqualizerCustom: "emits sent v1Safe (v1_setEqualizerCustom L i bands)"
  unfolding v1_setEqualizerCustom_def by (rule emits_send) (simp add: v1_eqPayload_def)

lemma v1_getFirmwareVersion: "emits sent v1Safe (v1_getFirmwareVersion L)"
  unfolding v1_getFirmwareVersion_def by (intro emits_intros) simp

lemma v1_getCodec: "emits sent v1Safe (v1_getCodec L)"
  unfolding v1_getCodec_def by (intro emits_intros) simp

lemma v1_setVpt: "emits sent v1Safe (v1_setVpt L i)"
  unfolding v1_setVpt_def by (rule emits_send) simp

lemma v1_setSoundPosition: "emits sent v1Safe (v1_setSoundPosition L i)"
  unfolding v1_setSoundPosition_def by (rule emits_send) simp

lemma v1_laws: "iprotocol_laws (protocolV1 L) sent v1Safe"
  by unfold_locales
     (simp_all only: protocolV1_def v1_getDsee_def v1_setDsee_def IProtocol.simps v1_initDevice v1_getBattery v1_getNoiseControl
       v1_setNoiseControl v1_getEqualizer v1_setEqualizerPreset v1_setEqualizerCustom
       v1_getFirmwareVersion v1_getCodec emits_throw)

end

section \<open>Correctness of V1\<close>

text \<open>Noise control on V1 survives the round trip. When the headset answers the query
  with what the last set command wrote (opcode \<open>67\<close> for \<open>68\<close>), \<open>getNoiseControl\<close> reports
  the mode and voice focus that were set, and the ambient level clamped to 1..20, which
  only the ambient mode has.\<close>

theorem v1_noise_roundtrip:
  assumes "fst (lk_request L (mdrFrame [0x66, 0x02]) 0x67 2 1000 s) = Inr r"
    and "fr_payload r = 0x67 # tl (v1_noisePayload st)"
  shows "fst (v1_getNoiseControl L s) = Inr (st\<lparr>nc_ambientLevel :=
    (if nc_mode st = Ambient then clamp (nc_ambientLevel st) 1 20 else 0)\<rparr>)"
proof -
  have "clamp v 1 20 \<le> 255" "0 \<le> clamp v 1 20" for v by (auto simp: clamp_def)
  moreover have "fst (v1_getNoiseControl L s) = Inr (v1_decodeNoise (fr_payload r))"
    using assms by (simp add: v1_getNoiseControl_def fst_bind_Inr Let_def v1_noisePayload_def)
  ultimately show ?thesis
    by (cases "nc_mode st") (simp_all add: assms(2) v1_noisePayload_def v1_decodeNoise_def Let_def intOf_def [of 0])
qed

theorem v1_noise_roundtrip_witness:
  "fst (v1_getNoiseControl (session_link fake_ops (\<lambda>_. 3))
     (fakeSession [0x3e, 0x0c, 0, 0, 0, 0, 0x08, 0x67, 2, 0x11, 1, 0, 1, 1, 20, 0xa5, 0x3c]))
   = Inr \<lparr>nc_mode = Ambient, nc_ambientLevel = 20, nc_focusOnVoice = True\<rparr>"
proof -
  have "fst (lk_request (session_link fake_ops (\<lambda>_. 3)) (mdrFrame [0x66, 0x02]) 0x67 2 1000
     (fakeSession [0x3e, 0x0c, 0, 0, 0, 0, 0x08, 0x67, 2, 0x11, 1, 0, 1, 1, 20, 0xa5, 0x3c]))
     = Inr (mkFrame DT_DataMdr 0 [0x67, 2, 0x11, 1, 0, 1, 1, 20])"
    by code_simp
  from v1_noise_roundtrip [OF this, of "\<lparr>nc_mode = Ambient, nc_ambientLevel = 99, nc_focusOnVoice = True\<rparr>"]
  show ?thesis by (simp add: v1_noisePayload_def clamp_def byteOf_def)
qed

text \<open>The battery: what each of the three questions can contribute.\<close>

definition v1BatteryOk :: "BatteryState \<Rightarrow> bool" where
  "v1BatteryOk st \<longleftrightarrow>
     (case (bt_left st, bt_right st) of
        (None, None) \<Rightarrow> True
      | (Some l, Some r) \<Rightarrow> bt_main st = Some (min l r) \<and> (r \<noteq> 0 \<or> l = 0)
      | _ \<Rightarrow> False) \<and>
     (\<forall>x \<in> set_option (bt_main st) \<union> set_option (bt_left st) \<union> set_option (bt_right st)
        \<union> set_option (bt_case st). 0 \<le> x \<and> x \<le> 255)"

lemma v1Battery_parts:
  "v1BatteryOk emptyBattery" "v1BatteryOk (v1_dualBattery p)"
  "v1_singleBattery p = Some st \<Longrightarrow> v1BatteryOk st"
  "v1BatteryOk st \<Longrightarrow> v1BatteryOk (v1_caseBattery st p)"
  by (auto simp: v1BatteryOk_def emptyBattery_def v1_dualBattery_def v1_singleBattery_def
      v1_caseBattery_def Let_def min_def split: option.splits if_splits)

text \<open>\<open>getBattery\<close> of V1 always gives a coherent reading, whatever the headset answers
  and whichever of the three questions it answers: it throws only what is not a
  \<open>SonyException\<close>; the two earbuds are reported together or not at all, with the main
  level their minimum; an over-ear model, which echoes its level with an empty right
  slot, is not reported as a pair at 0 percent; and every level is a byte.\<close>

theorem v1_battery_coherent:
  "case fst (v1_getBattery L s) of
     Inl e \<Rightarrow> (\<exists>w. e = StdException w)
   | Inr st \<Rightarrow> v1BatteryOk st"
proof -
  have rest: "case fst (bindP (tryRequest m v1_dualBattery emptyBattery)
      (\<lambda>st. tryRequest m' (v1_caseBattery st) st) t) of Inl e \<Rightarrow> (\<exists>w. e = StdException w) | Inr st \<Rightarrow> v1BatteryOk st"
    for m m' :: "('s, SonyFrame) prog" and t
  proof -
    have last: "case fst (tryRequest m' (v1_caseBattery st) st u) of
        Inl e \<Rightarrow> (\<exists>w. e = StdException w) | Inr st \<Rightarrow> v1BatteryOk st" if "v1BatteryOk st" for st u
      using that v1Battery_parts(4) [OF that]
      by (cases rule: tryRequest_cases [of m' "v1_caseBattery st" st u]) simp_all
    show ?thesis
      by (cases rule: tryRequest_cases [of m v1_dualBattery emptyBattery t])
         (simp_all add: bindP_def last v1Battery_parts)
  qed
  show ?thesis
    by (cases rule: tryRequest_cases [of "lk_request L (mdrFrame [0x10, 0x00]) 0x11 0x00 kTimeout"
          v1_singleBattery None s])
       (auto simp: v1_getBattery_def bindP_def [of "tryRequest _ v1_singleBattery None"] rest
        dest: v1Battery_parts(3) split: option.split simp del: kTimeout_def)
qed

text \<open>A custom equalizer set on V1 survives the round trip: decoding the echoed payload
  gives the custom preset and every value clamped to -10..10, for any integers given.\<close>

theorem v1_equalizer_roundtrip:
  assumes "fst (lk_request L (mdrFrame [0x56, 0x01]) 0x57 1 1000 s) = Inr r"
    and "fr_payload r = 0x57 # tl (v1_eqPayload clearBass bands)" "length bands = 5"
  shows "fst (v1_getEqualizer L s) = Inr \<lparr>eq_preset = 160, eq_clearBass = clampEq clearBass,
    eq_bands = map clampEq bands\<rparr>"
  using assms decodeEq_echo [OF assms(3), of "fr_payload r"]
  by (simp add: v1_getEqualizer_def fst_bind_Inr Let_def v1_eqPayload_def)

theorem v1_equalizer_roundtrip_witness:
  "fst (v1_getEqualizer (session_link fake_ops (\<lambda>_. 3))
     (fakeSession [0x3e, 0x0c, 0, 0, 0, 0, 0x0a, 0x57, 1, 0xa0, 6, 13, 0, 20, 10, 11, 9, 0x53, 0x3c]))
   = Inr \<lparr>eq_preset = 160, eq_clearBass = 3, eq_bands = [-10, 10, 0, 1, -1]\<rparr>"
proof -
  have "fst (lk_request (session_link fake_ops (\<lambda>_. 3)) (mdrFrame [0x56, 0x01]) 0x57 1 1000
     (fakeSession [0x3e, 0x0c, 0, 0, 0, 0, 0x0a, 0x57, 1, 0xa0, 6, 13, 0, 20, 10, 11, 9, 0x53, 0x3c]))
     = Inr (mkFrame DT_DataMdr 0 [0x57, 1, 0xa0, 6, 13, 0, 20, 10, 11, 9])"
    by code_simp
  from v1_equalizer_roundtrip [OF this, of 3 "[-99, 10, 0, 1, -1]"]
  show ?thesis by (simp add: v1_eqPayload_def clampEqValue_def clampEq_def byteOf_def)
qed

end
