(* ===== verification/ProtocolV2.thy ===== *)
theory ProtocolV2
  imports IProtocol SessionSpec
begin

text \<open>
  \<open>ProtocolV2.cpp\<close>: the command set of the WH-1000XM5, XM6 and the earbuds. Here opcode
  \<open>0x22\<close> asks for the battery, and \<open>f8 09\<close> resets the headphones: with \<open>00\<close> their
  settings, with \<open>01\<close> the pairing too.
\<close>

section \<open>Operations\<close>

definition kV2Timeout :: nat where [simp]: "kV2Timeout = 1000"
definition kV2SendTimeout :: nat where [simp]: "kV2SendTimeout = 2000"

definition APO_CODES :: "(u8 \<times> u8) list" where
  "APO_CODES = [(0x11, 0x00), (0x00, 0x00), (0x01, 0x01), (0x02, 0x02), (0x03, 0x03), (0x10, 0x00)]"

text \<open>The loop of \<open>apoIndexFromCode\<close> from index \<open>i\<close> on.\<close>

fun apoSearch :: "(u8 \<times> u8) list \<Rightarrow> int \<Rightarrow> u8 \<Rightarrow> u8 \<Rightarrow> int" where
  "apoSearch [] i c0 c1 = 0"
| "apoSearch ((a, b) # cs) i c0 c1 = (if a = c0 \<and> b = c1 then i else apoSearch cs (i + 1) c0 c1)"

definition apoIndexFromCode :: "u8 \<Rightarrow> u8 \<Rightarrow> int" where
  "apoIndexFromCode c0 c1 = apoSearch APO_CODES 0 c0 c1"

text \<open>\<open>send(SonyFrame{.type = DataMdr, .payload = p})\<close> with the default timeout, and
  \<open>sendAndAwaitResponse\<close> of a query with the timeout that this class always uses.\<close>

definition v2_send :: "'s Link \<Rightarrow> u8 list \<Rightarrow> ('s, unit) prog" where
  "v2_send L p = lk_send L (mdrFrame p) kV2SendTimeout"

definition v2_ask :: "'s Link \<Rightarrow> u8 list \<Rightarrow> u8 \<Rightarrow> int \<Rightarrow> ('s, SonyFrame) prog" where
  "v2_ask L p op sub = lk_request L (mdrFrame p) op sub kV2Timeout"

definition v2_initDevice :: "'s Link \<Rightarrow> ('s, unit) prog" where
  "v2_initDevice L = tryRequest (v2_ask L [0x00, 0x00] 0x01 (-1)) (\<lambda>_. ()) ()"

definition v2_singleBattery :: "u8 list \<Rightarrow> BatteryState option" where
  "v2_singleBattery p =
     (if 4 \<le> length p
      then Some (emptyBattery\<lparr>bt_main := Some (intOf (p ! 2)), bt_charging := (p ! 3 = 1)\<rparr>)
      else None)"

definition v2_dualBattery :: "u8 list \<Rightarrow> BatteryState" where
  "v2_dualBattery p =
     (if 6 \<le> length p
      then emptyBattery\<lparr>bt_left := Some (intOf (p ! 2)), bt_right := Some (intOf (p ! 4)),
             bt_main := Some (min (intOf (p ! 2)) (intOf (p ! 4))),
             bt_charging := (p ! 3 = 1 \<or> p ! 5 = 1)\<rparr>
      else emptyBattery)"

definition v2_caseBattery :: "BatteryState \<Rightarrow> u8 list \<Rightarrow> BatteryState" where
  "v2_caseBattery st p = (if 4 \<le> length p then st\<lparr>bt_case := Some (intOf (p ! 2))\<rparr> else st)"

definition v2_getBattery :: "'s Link \<Rightarrow> ('s, BatteryState) prog" where
  "v2_getBattery L =
     bindP (tryRequest (v2_ask L [0x22, 0x00] 0x23 0x00) v2_singleBattery None)
       (\<lambda>single. case single of
          Some st \<Rightarrow> returnP st
        | None \<Rightarrow>
            bindP (tryRequest (v2_ask L [0x22, 0x09] 0x23 0x09) v2_dualBattery emptyBattery)
              (\<lambda>st. tryRequest (v2_ask L [0x22, 0x0a] 0x23 0x0a) (v2_caseBattery st) st))"

definition v2_decodeNoise :: "u8 list \<Rightarrow> NoiseControlState" where
  "v2_decodeNoise p =
     (let on = (p ! 3 \<noteq> 0); ambient = (p ! 4 \<noteq> 0); voice = (p ! 5 \<noteq> 0); level = intOf (p ! 6)
      in \<lparr>nc_mode = (if \<not> on then ModeOff else if ambient then Ambient else NoiseCancelling),
          nc_ambientLevel = (if ambient then level else 0), nc_focusOnVoice = voice\<rparr>)"

definition v2_getNoiseControl :: "'s Link \<Rightarrow> ('s, NoiseControlState) prog" where
  "v2_getNoiseControl L =
     bindP (v2_ask L [0x66, 0x17] 0x67 (-1))
       (\<lambda>r. let p = fr_payload r in
          if length p < 7 \<or> p ! 1 \<noteq> 0x17 \<or> p ! 2 \<noteq> 1
          then throwP InvalidResponse ''Malformed noise-control response''
          else returnP (v2_decodeNoise p))"

definition v2_noisePayload :: "NoiseControlState \<Rightarrow> u8 list" where
  "v2_noisePayload st =
     (let effect = (if nc_mode st = ModeOff then 0 else 1);
          settingType = (if nc_mode st = Ambient then 1 else 0);
          voice = (if nc_focusOnVoice st then 1 else 0);
          level = byteOf (if 0 < nc_ambientLevel st then nc_ambientLevel st else 1)
      in [0x68, 0x17, 0x01, effect, settingType, voice, level])"

definition v2_setNoiseControl :: "'s Link \<Rightarrow> NoiseControlState \<Rightarrow> ('s, unit) prog" where
  "v2_setNoiseControl L st = v2_send L (v2_noisePayload st)"

definition v2_getEqualizer :: "'s Link \<Rightarrow> ('s, EqualizerState) prog" where
  "v2_getEqualizer L =
     bindP (v2_ask L [0x56, 0x00] 0x57 (-1))
       (\<lambda>r. let p = fr_payload r in
          if length p < 10 \<or> p ! 1 \<noteq> 0
          then throwP InvalidResponse ''Incomplete equalizer response''
          else returnP (decodeEqBands p))"

definition v2_setEqualizerPreset :: "'s Link \<Rightarrow> int \<Rightarrow> ('s, unit) prog" where
  "v2_setEqualizerPreset L preset = v2_send L [0x58, 0x00, byteOf preset, 0x00]"

definition v2_eqPayload :: "int \<Rightarrow> int list \<Rightarrow> u8 list" where
  "v2_eqPayload clearBass bands =
     [0x58, 0x00, 0xa0, 0x06, clampEqValue clearBass] @ map clampEqValue bands"

definition v2_setEqualizerCustom :: "'s Link \<Rightarrow> int \<Rightarrow> int list \<Rightarrow> ('s, unit) prog" where
  "v2_setEqualizerCustom L clearBass bands = v2_send L (v2_eqPayload clearBass bands)"

definition v2_getDsee :: "'s Link \<Rightarrow> ('s, bool) prog" where
  "v2_getDsee L =
     bindP (v2_ask L [0xe6, 0x01] 0xe7 0x01)
       (\<lambda>r. if 3 \<le> length (fr_payload r) then returnP (fr_payload r ! 2 \<noteq> 0)
            else throwP InvalidResponse ''Incomplete Dsee response'')"

definition v2_dseePayload :: "bool \<Rightarrow> u8 list" where
  "v2_dseePayload enabled = [0xe8, 0x01, if enabled then 0x01 else 0x00]"

definition v2_setDsee :: "'s Link \<Rightarrow> bool \<Rightarrow> ('s, unit) prog" where
  "v2_setDsee L enabled = v2_send L (v2_dseePayload enabled)"

definition v2_getFirmwareVersion :: "'s Link \<Rightarrow> ('s, string) prog" where
  "v2_getFirmwareVersion L =
     bindP (v2_ask L [0x04, 0x02] 0x05 (-1))
       (\<lambda>r. returnP (if 3 < length (fr_payload r) then payloadText (fr_payload r) else ''''))"

definition v2_getCodec :: "'s Link \<Rightarrow> ('s, string) prog" where
  "v2_getCodec L =
     bindP (v2_ask L [0x12, 0x02] 0x13 (-1))
       (\<lambda>r. returnP (if 3 \<le> length (fr_payload r) then codecName (fr_payload r ! 2) else ''''))"

definition v2_getAutoPowerOff :: "'s Link \<Rightarrow> ('s, int) prog" where
  "v2_getAutoPowerOff L =
     bindP (v2_ask L [0x26, 0x05] 0x27 (-1))
       (\<lambda>r. if 4 \<le> length (fr_payload r)
            then returnP (apoIndexFromCode (fr_payload r ! 2) (fr_payload r ! 3))
            else throwP InvalidResponse ''Incomplete AutoPowerOff response'')"

definition v2_apoPayload :: "int \<Rightarrow> u8 list" where
  "v2_apoPayload index =
     [0x28, 0x05, fst (APO_CODES ! nat index), snd (APO_CODES ! nat index)]"

definition v2_setAutoPowerOff :: "'s Link \<Rightarrow> int \<Rightarrow> ('s, unit) prog" where
  "v2_setAutoPowerOff L index =
     (if index < 0 \<or> 6 \<le> index then returnP () else v2_send L (v2_apoPayload index))"

definition v2_getSpeakToChat :: "'s Link \<Rightarrow> ('s, bool) prog" where
  "v2_getSpeakToChat L =
     bindP (v2_ask L [0xf6, 0x0c] 0xf7 0x0c)
       (\<lambda>r. if 3 \<le> length (fr_payload r) then returnP (fr_payload r ! 2 = 0)
            else throwP InvalidResponse ''Incomplete SpeakToChat response'')"

definition v2_speakPayload :: "bool \<Rightarrow> u8 list" where
  "v2_speakPayload enabled = [0xf8, 0x0c, if enabled then 0x00 else 0x01, 0x01]"

definition v2_setSpeakToChat :: "'s Link \<Rightarrow> bool \<Rightarrow> ('s, unit) prog" where
  "v2_setSpeakToChat L enabled = v2_send L (v2_speakPayload enabled)"

definition v2_getAdaptiveVolume :: "'s Link \<Rightarrow> ('s, bool) prog" where
  "v2_getAdaptiveVolume L =
     bindP (v2_ask L [0xf6, 0x0a] 0xf7 0x0a)
       (\<lambda>r. if 3 \<le> length (fr_payload r) then returnP (fr_payload r ! 2 = 0)
            else throwP InvalidResponse ''Incomplete AdaptiveVolume response'')"

definition v2_adaptivePayload :: "bool \<Rightarrow> u8 list" where
  "v2_adaptivePayload enabled = [0xf8, 0x0a, if enabled then 0x00 else 0x01]"

definition v2_setAdaptiveVolume :: "'s Link \<Rightarrow> bool \<Rightarrow> ('s, unit) prog" where
  "v2_setAdaptiveVolume L enabled = v2_send L (v2_adaptivePayload enabled)"

definition v2_reset :: "'s Link \<Rightarrow> ('s, unit) prog" where
  "v2_reset L = v2_send L [0xf8, 0x09, 0x00]"

definition v2_factoryReset :: "'s Link \<Rightarrow> ('s, unit) prog" where
  "v2_factoryReset L = v2_send L [0xf8, 0x09, 0x01]"

definition protocolV2 :: "'s Link \<Rightarrow> 's IProtocol" where
  "protocolV2 L =
     \<lparr>ip_generation = GenV2, ip_initDevice = v2_initDevice L, ip_getBattery = v2_getBattery L,
      ip_getNoiseControl = v2_getNoiseControl L, ip_setNoiseControl = v2_setNoiseControl L,
      ip_getEqualizer = v2_getEqualizer L, ip_setEqualizerPreset = v2_setEqualizerPreset L,
      ip_setEqualizerCustom = v2_setEqualizerCustom L,
      ip_getDsee = v2_getDsee L, ip_setDsee = v2_setDsee L,
      ip_getFirmwareVersion = v2_getFirmwareVersion L, ip_getCodec = v2_getCodec L,
      ip_getAutoPowerOff = v2_getAutoPowerOff L, ip_setAutoPowerOff = v2_setAutoPowerOff L,
      ip_getSpeakToChat = v2_getSpeakToChat L, ip_setSpeakToChat = v2_setSpeakToChat L,
      ip_getAdaptiveVolume = v2_getAdaptiveVolume L, ip_setAdaptiveVolume = v2_setAdaptiveVolume L,
      ip_reset = v2_reset L, ip_factoryReset = v2_factoryReset L\<rparr>"

section \<open>What V2 sends\<close>

text \<open>The two destructive payloads.\<close>

definition resetPayload :: "u8 list" where [simp]: "resetPayload = [0xf8, 0x09, 0x00]"
definition factoryResetPayload :: "u8 list" where [simp]: "factoryResetPayload = [0xf8, 0x09, 0x01]"

definition v2Calm :: "u8 list \<Rightarrow> bool" where
  "v2Calm p \<longleftrightarrow> take 2 p \<noteq> [0xf8, 0x09] \<and> p \<noteq> []"

lemma v2Calm_Cons [simp]: "v2Calm (b # bs) \<longleftrightarrow> b \<noteq> 0xf8 \<or> take 1 bs \<noteq> [0x09]"
  by (auto simp: v2Calm_def numeral_2_eq_2)

text \<open>A protocol whose two resets do nothing: the rest of the command set.\<close>

definition withoutResets :: "'s IProtocol \<Rightarrow> 's IProtocol" where
  "withoutResets P = P\<lparr>ip_reset := returnP (), ip_factoryReset := returnP ()\<rparr>"

context link_laws
begin

lemma emits_v2_send [emits_intros]: "ok p \<Longrightarrow> emits sent ok (v2_send L p)"
  unfolding v2_send_def by (rule emits_send)

lemma emits_v2_ask [emits_intros]: "ok p \<Longrightarrow> emits sent ok (v2_ask L p op sub)"
  unfolding v2_ask_def by (rule emits_request)

lemma v2_getBattery: "emits sent v2Calm (v2_getBattery L)"
proof -
  have "emits sent v2Calm (case x of Some st \<Rightarrow> returnP st | None \<Rightarrow>
      bindP (tryRequest (v2_ask L [0x22, 0x09] 0x23 0x09) v2_dualBattery emptyBattery)
        (\<lambda>st. tryRequest (v2_ask L [0x22, 0x0a] 0x23 0x0a) (v2_caseBattery st) st))" for x
    by (cases x; simp only: option.case; intro emits_intros; simp)
  then show ?thesis
    unfolding v2_getBattery_def by (intro emits_bind emits_tryRequest emits_v2_ask) simp_all
qed

lemma v2_getters:
  "emits sent v2Calm (v2_initDevice L)" "emits sent v2Calm (v2_getNoiseControl L)"
  "emits sent v2Calm (v2_getEqualizer L)" "emits sent v2Calm (v2_getDsee L)"
  "emits sent v2Calm (v2_getFirmwareVersion L)" "emits sent v2Calm (v2_getCodec L)"
  "emits sent v2Calm (v2_getAutoPowerOff L)" "emits sent v2Calm (v2_getSpeakToChat L)"
  "emits sent v2Calm (v2_getAdaptiveVolume L)"
  unfolding v2_initDevice_def v2_getNoiseControl_def v2_getEqualizer_def v2_getDsee_def
    v2_getFirmwareVersion_def v2_getCodec_def v2_getAutoPowerOff_def v2_getSpeakToChat_def
    v2_getAdaptiveVolume_def Let_def
  by (intro emits_intros; simp)+

lemma v2_setters:
  "emits sent v2Calm (v2_setNoiseControl L st)" "emits sent v2Calm (v2_setEqualizerPreset L i)"
  "emits sent v2Calm (v2_setEqualizerCustom L i bands)" "emits sent v2Calm (v2_setDsee L b)"
  "emits sent v2Calm (v2_setAutoPowerOff L i)" "emits sent v2Calm (v2_setSpeakToChat L b)"
  "emits sent v2Calm (v2_setAdaptiveVolume L b)"
  unfolding v2_setNoiseControl_def v2_setEqualizerPreset_def v2_setEqualizerCustom_def
    v2_setDsee_def v2_setAutoPowerOff_def v2_setSpeakToChat_def v2_setAdaptiveVolume_def
    v2_noisePayload_def v2_eqPayload_def v2_apoPayload_def v2_dseePayload_def v2_speakPayload_def
    v2_adaptivePayload_def Let_def
  by (intro emits_intros; simp)+

lemma v2_laws: "iprotocol_laws (withoutResets (protocolV2 L)) sent v2Calm"
  by unfold_locales
     (simp_all only: withoutResets_def protocolV2_def IProtocol.simps v2_getBattery v2_getters
       v2_setters emits_return)

lemma v2_reset_sends: "emits sent (\<lambda>p. p = resetPayload) (v2_reset L)"
  unfolding v2_reset_def by (rule emits_v2_send) simp

lemma v2_factoryReset_sends: "emits sent (\<lambda>p. p = factoryResetPayload) (v2_factoryReset L)"
  unfolding v2_factoryReset_def by (rule emits_v2_send) simp

text \<open>All of it: no payload but the reset's own starts \<open>f8 09\<close>.\<close>

lemma v2_no_factoryReset:
  "iprotocol_laws ((protocolV2 L)\<lparr>ip_factoryReset := returnP ()\<rparr>) sent (\<lambda>p. p \<noteq> factoryResetPayload)"
proof -
  have weak: "emits sent v2Calm m \<Longrightarrow> emits sent (\<lambda>p. p \<noteq> factoryResetPayload) m" for m :: "('s, 'a) prog"
    by (erule emits_mono) auto
  have reset: "emits sent (\<lambda>p. p \<noteq> factoryResetPayload) (v2_reset L)"
    by (rule emits_mono [OF v2_reset_sends]) simp
  show ?thesis
    by unfold_locales
       (simp_all only: protocolV2_def IProtocol.simps v2_getBattery v2_getters v2_setters
         emits_return weak reset)
qed

end

section \<open>Correctness of V2\<close>



text \<open>A custom equalizer set on V2 survives the round trip, clamped to -10..10.\<close>

theorem v2_equalizer_roundtrip:
  assumes "fst (lk_request L (mdrFrame [0x56, 0x00]) 0x57 (-1) 1000 s) = Inr r"
    and "fr_payload r = 0x57 # tl (v2_eqPayload clearBass bands)" "length bands = 5"
  shows "fst (v2_getEqualizer L s) = Inr \<lparr>eq_preset = 160, eq_clearBass = clampEq clearBass,
    eq_bands = map clampEq bands\<rparr>"
  using assms decodeEq_echo [OF assms(3), of "fr_payload r"]
  by (simp add: v2_getEqualizer_def v2_ask_def fst_bind_Inr Let_def v2_eqPayload_def)

theorem v2_equalizer_roundtrip_witness:
  "fst (v2_getEqualizer (session_link fake_ops (\<lambda>_. 3))
     (fakeSession [0x3e, 0x0c, 0, 0, 0, 0, 0x0a, 0x57, 0, 0xa0, 6, 13, 0, 20, 10, 11, 9, 0x52, 0x3c]))
   = Inr \<lparr>eq_preset = 160, eq_clearBass = 3, eq_bands = [-10, 10, 0, 1, -1]\<rparr>"
proof -
  have "fst (lk_request (session_link fake_ops (\<lambda>_. 3)) (mdrFrame [0x56, 0x00]) 0x57 (-1) 1000
     (fakeSession [0x3e, 0x0c, 0, 0, 0, 0, 0x0a, 0x57, 0, 0xa0, 6, 13, 0, 20, 10, 11, 9, 0x52, 0x3c]))
     = Inr (mkFrame DT_DataMdr 0 [0x57, 0, 0xa0, 6, 13, 0, 20, 10, 11, 9])"
    by code_simp
  from v2_equalizer_roundtrip [OF this, of 3 "[-99, 10, 0, 1, -1]"]
  show ?thesis by (simp add: v2_eqPayload_def clampEqValue_def clampEq_def byteOf_def)
qed

lemma apo_roundtrip:
  assumes "0 \<le> i" "i < 6"
  shows "apoIndexFromCode (fst (APO_CODES ! nat i)) (snd (APO_CODES ! nat i)) = i"
proof -
  from assms have "nat i \<in> {0, 1, 2, 3, 4, 5}" by auto
  then have "i \<in> {0, 1, 2, 3, 4, 5}" using assms by auto
  then show ?thesis by (auto simp: apoIndexFromCode_def APO_CODES_def)
qed

text \<open>The settings of V2 that are not tables survive the round trip too. For each, with
  the echo of what the setter sends as the answer: the auto-power-off index, for every
  index in range (its code pairs are distinct); DSEE; and speak-to-chat and adaptive
  volume, which the wire carries inverted, in both directions.\<close>

theorem v2_settings_roundtrip:
  "(0 \<le> i \<and> i < 6 \<and> fst (v2_ask L [0x26, 0x05] 0x27 (-1) s) = Inr r \<and> fr_payload r = 0x27 # tl (v2_apoPayload i)
      \<longrightarrow> fst (v2_getAutoPowerOff L s) = Inr i) \<and>
   (fst (v2_ask L [0xe6, 0x01] 0xe7 1 s) = Inr r \<and> fr_payload r = 0xe7 # tl (v2_dseePayload b)
      \<longrightarrow> fst (v2_getDsee L s) = Inr b) \<and>
   (fst (v2_ask L [0xf6, 0x0c] 0xf7 0x0c s) = Inr r \<and> fr_payload r = 0xf7 # tl (v2_speakPayload b)
      \<longrightarrow> fst (v2_getSpeakToChat L s) = Inr b) \<and>
   (fst (v2_ask L [0xf6, 0x0a] 0xf7 0x0a s) = Inr r \<and> fr_payload r = 0xf7 # tl (v2_adaptivePayload b)
      \<longrightarrow> fst (v2_getAdaptiveVolume L s) = Inr b)"
  by (auto simp: v2_getAutoPowerOff_def v2_getDsee_def v2_getSpeakToChat_def v2_getAdaptiveVolume_def
      fst_bind_Inr v2_apoPayload_def v2_dseePayload_def v2_speakPayload_def
      v2_adaptivePayload_def apo_roundtrip)

theorem v2_settings_roundtrip_witness:
  "fst (v2_getAutoPowerOff (session_link fake_ops (\<lambda>_. 3))
     (fakeSession [0x3e, 0x0c, 0, 0, 0, 0, 0x04, 0x27, 5, 0x10, 0, 0x4c, 0x3c])) = Inr 5"
proof -
  let ?L = "session_link fake_ops (\<lambda>_. 3)"
  let ?s = "fakeSession [0x3e, 0x0c, 0, 0, 0, 0, 0x04, 0x27, 5, 0x10, 0, 0x4c, 0x3c]"
  have "fst (v2_ask ?L [0x26, 0x05] 0x27 (-1) ?s) = Inr (mkFrame DT_DataMdr 0 [0x27, 5, 0x10, 0])"
    by code_simp
  with v2_settings_roundtrip [of 5 ?L ?s "mkFrame DT_DataMdr 0 [0x27, 5, 0x10, 0]" True]
  show ?thesis by (simp add: v2_apoPayload_def APO_CODES_def)
qed

end
