(* ===== verification/EqualizerPresets.thy ===== *)
theory EqualizerPresets
  imports Prelude
begin

text \<open>\<open>EqualizerPresets.h\<close> and \<open>.cpp\<close>: the one table of preset bytes, identifiers and
  names, and the two directions of lookup in it.\<close>

datatype EqualizerPreset =
    EqOff | Bright | Excited | Mellow | Relaxed | Vocal | TrebleBoost | BassBoost | Speech | Manual

fun presetByte :: "EqualizerPreset \<Rightarrow> int" where
  "presetByte EqOff = 0x00"
| "presetByte Bright = 0x10"
| "presetByte Excited = 0x11"
| "presetByte Mellow = 0x12"
| "presetByte Relaxed = 0x13"
| "presetByte Vocal = 0x14"
| "presetByte TrebleBoost = 0x15"
| "presetByte BassBoost = 0x16"
| "presetByte Speech = 0x17"
| "presetByte Manual = 0xa0"

definition equalizerPresets :: "(EqualizerPreset \<times> string \<times> string) list" where
  "equalizerPresets =
    [(EqOff, ''off'', ''Off''), (Bright, ''bright'', ''Bright''), (Excited, ''excited'', ''Excited''),
     (Mellow, ''mellow'', ''Mellow''), (Relaxed, ''relaxed'', ''Relaxed''), (Vocal, ''vocal'', ''Vocal''),
     (TrebleBoost, ''treble-boost'', ''Treble Boost''), (BassBoost, ''bass-boost'', ''Bass Boost''),
     (Speech, ''speech'', ''Speech''), (Manual, ''manual'', ''Manual'')]"

definition equalizerPresetName :: "int \<Rightarrow> string" where
  "equalizerPresetName preset =
     (case find (\<lambda>(p, i, n). presetByte p = preset) equalizerPresets of
        Some (p, i, n) \<Rightarrow> n
      | None \<Rightarrow> ''Preset ('' @ to_string_int preset @ '')'')"

definition equalizerPresetId :: "int \<Rightarrow> string" where
  "equalizerPresetId preset =
     (case find (\<lambda>(p, i, n). presetByte p = preset) equalizerPresets of
        Some (p, i, n) \<Rightarrow> i | None \<Rightarrow> '''')"

definition toLower :: "string \<Rightarrow> string" where
  "toLower s = map tolowerC s"

definition equalizerPresetFromName :: "string \<Rightarrow> int" where
  "equalizerPresetFromName name =
     (let low = toLower name in
      case find (\<lambda>(p, i, n). low = i \<or> low = toLower n) equalizerPresets of
        Some (p, i, n) \<Rightarrow> presetByte p
      | None \<Rightarrow>
          if low = ''treble'' \<or> low = ''treble_boost'' then presetByte TrebleBoost
          else if low = ''bass'' \<or> low = ''bass_boost'' then presetByte BassBoost
          else case stoi name of Some i \<Rightarrow> i | None \<Rightarrow> -1)"

lemma toLower_idem [simp]: "toLower (toLower s) = toLower s"
  by (simp add: toLower_def)

text \<open>What the lookup finds, for the ten rows, by evaluation.\<close>

lemma presets_table:
  "list_all (\<lambda>(p, i, n). equalizerPresetId (presetByte p) = i \<and> equalizerPresetName (presetByte p) = n \<and>
     find (\<lambda>(p', i', n'). toLower i = i' \<or> toLower i = toLower n') equalizerPresets = Some (p, i, n) \<and>
     find (\<lambda>(p', i', n'). toLower n = i' \<or> toLower n = toLower n') equalizerPresets = Some (p, i, n))
   equalizerPresets"
  "distinct (map (presetByte \<circ> fst) equalizerPresets)" "distinct (map (fst \<circ> snd) equalizerPresets)"
  by code_simp+

text \<open>Every preset is found by its identifier and by its display name, in any mixture of
  upper and lower case, and the byte found is shown under that identifier and name again;
  the bytes, the identifiers and the names are pairwise distinct, so no two presets can
  be mistaken for each other.\<close>

theorem preset_names:
  assumes "(p, i, n) \<in> set equalizerPresets" "toLower s \<in> {toLower i, toLower n}"
  shows "equalizerPresetFromName s = presetByte p \<and>
    equalizerPresetId (presetByte p) = i \<and> equalizerPresetName (presetByte p) = n \<and>
    distinct (map (presetByte \<circ> fst) equalizerPresets) \<and> distinct (map (fst \<circ> snd) equalizerPresets)"
proof -
  have row: "equalizerPresetId (presetByte p) = i \<and> equalizerPresetName (presetByte p) = n \<and>
     find (\<lambda>(p', i', n'). toLower i = i' \<or> toLower i = toLower n') equalizerPresets = Some (p, i, n) \<and>
     find (\<lambda>(p', i', n'). toLower n = i' \<or> toLower n = toLower n') equalizerPresets = Some (p, i, n)"
    using presets_table(1) assms(1) by (auto simp: list_all_iff)
  with assms(2) have "find (\<lambda>(p', i', n'). toLower s = i' \<or> toLower s = toLower n') equalizerPresets = Some (p, i, n)"
    by auto
  then have "equalizerPresetFromName s = presetByte p"
    by (simp add: equalizerPresetFromName_def Let_def)
  with row presets_table(2,3) show ?thesis by simp
qed

theorem preset_names_witness:
  "equalizerPresetFromName ''BASS bOOst'' = 0x16"
proof -
  have "(BassBoost, ''bass-boost'', ''Bass Boost'') \<in> set equalizerPresets" by (simp add: equalizerPresets_def)
  moreover have "toLower ''BASS bOOst'' \<in> {toLower ''bass-boost'', toLower ''Bass Boost''}" by code_simp
  ultimately show ?thesis by (simp add: preset_names)
qed

text \<open>A number is not a name.\<close>

lemma number_head: "isdigitC (hd (to_string_int i)) \<or> hd (to_string_int i) = CHR ''-''"
  using natDigits_hd by (simp add: to_string_int_def)

lemma lower_number_head: "isdigitC (hd (toLower (to_string_int i))) \<or> hd (toLower (to_string_int i)) = CHR ''-''"
proof -
  have "to_string_int i \<noteq> []" by (simp add: to_string_int_def)
  moreover have "isdigitC c \<Longrightarrow> isdigitC (tolowerC c)" for c by (auto simp: isdigitC_def tolowerC_def Let_def)
  moreover have "tolowerC (CHR ''-'') = CHR ''-''" by code_simp
  ultimately show ?thesis using number_head [of i] by (auto simp: toLower_def hd_map)
qed

lemma names_heads:
  "list_all (\<lambda>(p, i, n). \<not> isdigitC (hd i) \<and> hd i \<noteq> CHR ''-'' \<and> \<not> isdigitC (hd (toLower n)) \<and>
     hd (toLower n) \<noteq> CHR ''-'') equalizerPresets"
  by (simp add: equalizerPresets_def toLower_def) code_simp

lemma alias_heads:
  "\<not> isdigitC (CHR ''t'') \<and> \<not> isdigitC (CHR ''b'')"
  by code_simp

text \<open>Any preset the headphones may report can be given back as the decimal number that
  the fallback name prints: parsing it yields the number, for every 32-bit value.\<close>

theorem preset_numbers:
  assumes "- 2147483648 \<le> i" "i \<le> 2147483647"
  shows "equalizerPresetFromName (to_string_int i) = i"
proof -
  let ?low = "toLower (to_string_int i)"
  have names: "?low \<noteq> ''treble''" "?low \<noteq> ''treble_boost''" "?low \<noteq> ''bass''" "?low \<noteq> ''bass_boost''"
    using lower_number_head [of i] alias_heads by auto
  have "find (\<lambda>(p', i', n'). ?low = i' \<or> ?low = toLower n') equalizerPresets = None"
    using names_heads lower_number_head [of i] by (auto simp: find_None_iff list_all_iff)
  with names show ?thesis
    by (simp add: equalizerPresetFromName_def Let_def stoi_to_string [OF assms])
qed

theorem preset_numbers_witness: "equalizerPresetFromName ''42'' = 42"
proof -
  have "to_string_int 42 = ''42''" by code_simp
  with preset_numbers [of 42] show ?thesis by simp
qed

end
