(* ===== verification/DeviceProfile.thy ===== *)
theory DeviceProfile
  imports Prelude
begin

text \<open>\<open>DeviceProfile.h\<close>, \<open>DeviceProfileRegistry.h\<close> and \<open>.cpp\<close>: the known models,
  which protocol each speaks and what each can do, and how an advertised name selects a
  model. The protocol chosen here decides what the byte \<open>22\<close> means to the headset.\<close>

section \<open>Models and capabilities\<close>

datatype SonyProtocolVersion = V1 | V2

datatype SonyModel =
    Unknown
  | WH1000XM3
  | WH1000XM4
  | WH1000XM5
  | WH1000XM6
  | WF1000XM4
  | WF1000XM5
  | WF1000XM6
  | WHCH720N
  | ULTWear
  | LinkBudsS

record DeviceCapabilities =
  cap_battery :: bool
  cap_dualBattery :: bool
  cap_noiseCancelling :: bool
  cap_ambientSound :: bool
  cap_focusOnVoice :: bool
  cap_equalizer :: bool
  cap_clearBass :: bool
  cap_dsee :: bool
  cap_speakToChat :: bool
  cap_adaptiveVolume :: bool
  cap_autoPowerOff :: bool
  cap_firmwareInfo :: bool
  cap_codecInfo :: bool
  cap_wearSensor :: bool
  cap_multipoint :: bool
  cap_reset :: bool
  cap_factoryReset :: bool

record DeviceProfile =
  pf_model :: SonyModel
  pf_protocol :: SonyProtocolVersion
  pf_capabilities :: DeviceCapabilities

text \<open>\<open>DeviceCapabilities{}\<close>: every member defaults to false, and the table below names
  the ones that are true.\<close>

definition noCaps :: DeviceCapabilities where
  "noCaps = \<lparr>cap_battery = False, cap_dualBattery = False, cap_noiseCancelling = False,
     cap_ambientSound = False, cap_focusOnVoice = False, cap_equalizer = False, cap_clearBass =
     False, cap_dsee = False, cap_speakToChat = False, cap_adaptiveVolume = False,
     cap_autoPowerOff = False, cap_firmwareInfo = False, cap_codecInfo = False, cap_wearSensor
     = False, cap_multipoint = False, cap_reset = False, cap_factoryReset = False\<rparr>"

fun to_string_model :: "SonyModel \<Rightarrow> string" where
  "to_string_model Unknown = ''Unknown''"
| "to_string_model WH1000XM3 = ''WH-1000XM3''"
| "to_string_model WH1000XM4 = ''WH-1000XM4''"
| "to_string_model WH1000XM5 = ''WH-1000XM5''"
| "to_string_model WH1000XM6 = ''WH-1000XM6''"
| "to_string_model WF1000XM4 = ''WF-1000XM4''"
| "to_string_model WF1000XM5 = ''WF-1000XM5''"
| "to_string_model WF1000XM6 = ''WF-1000XM6''"
| "to_string_model WHCH720N = ''WH-CH720N''"
| "to_string_model ULTWear = ''ULT WEAR''"
| "to_string_model LinkBudsS = ''LinkBuds S''"

fun to_string_version :: "SonyProtocolVersion \<Rightarrow> string" where
  "to_string_version V1 = ''V1''"
| "to_string_version V2 = ''V2''"

text \<open>The models as a finite type, so that statements about all of them are decided by
  evaluation.\<close>

instantiation SonyModel :: enum
begin

definition "enum_SonyModel = [Unknown, WH1000XM3, WH1000XM4, WH1000XM5, WH1000XM6,
  WF1000XM4, WF1000XM5, WF1000XM6, WHCH720N, ULTWear, LinkBudsS]"
definition "enum_all_SonyModel P \<longleftrightarrow> list_all P (enum_class.enum :: SonyModel list)"
definition "enum_ex_SonyModel P \<longleftrightarrow> list_ex P (enum_class.enum :: SonyModel list)"

instance
proof
  have univ: "x \<in> set (enum_class.enum :: SonyModel list)" for x
    by (cases x) (simp_all add: enum_SonyModel_def)
  then show "(UNIV :: SonyModel set) = set enum_class.enum" by blast
  show "distinct (enum_class.enum :: SonyModel list)" by (simp add: enum_SonyModel_def)
  show "enum_class.enum_all P = Ball UNIV P" for P :: "SonyModel \<Rightarrow> bool"
    using univ by (auto simp: enum_all_SonyModel_def list_all_iff)
  show "enum_class.enum_ex P = Bex UNIV P" for P :: "SonyModel \<Rightarrow> bool"
    using univ by (auto simp: enum_ex_SonyModel_def list_ex_iff)
qed

end

section \<open>The registry\<close>

definition profileOf :: "SonyModel \<Rightarrow> SonyProtocolVersion \<Rightarrow> DeviceCapabilities \<Rightarrow> DeviceProfile" where
  "profileOf m v c = \<lparr>pf_model = m, pf_protocol = v, pf_capabilities = c\<rparr>"

text \<open>The static table, in two pieces.\<close>

definition firstProfiles :: "DeviceProfile list" where
  "firstProfiles = [
   profileOf WH1000XM3 V1 (noCaps\<lparr>cap_battery := True, cap_noiseCancelling := True, cap_ambientSound := True,
        cap_focusOnVoice := True\<rparr>),
   profileOf WH1000XM4 V1 (noCaps\<lparr>cap_battery := True, cap_noiseCancelling := True, cap_ambientSound := True,
        cap_focusOnVoice := True, cap_equalizer := True, cap_clearBass := True,
        cap_firmwareInfo := True, cap_codecInfo := True, cap_wearSensor := True,
        cap_multipoint := True\<rparr>),
   profileOf WH1000XM5 V2 (noCaps\<lparr>cap_battery := True, cap_noiseCancelling := True, cap_ambientSound := True,
        cap_focusOnVoice := True, cap_equalizer := True, cap_clearBass := True,
        cap_dsee := True, cap_speakToChat := True, cap_adaptiveVolume := True,
        cap_autoPowerOff := True, cap_firmwareInfo := True, cap_codecInfo := True,
        cap_wearSensor := True, cap_multipoint := True, cap_reset := True,
        cap_factoryReset := True\<rparr>),
   profileOf WH1000XM6 V2 (noCaps\<lparr>cap_battery := True, cap_noiseCancelling := True, cap_ambientSound := True,
        cap_focusOnVoice := True, cap_equalizer := True, cap_clearBass := True,
        cap_dsee := True, cap_speakToChat := True, cap_adaptiveVolume := True,
        cap_autoPowerOff := True, cap_firmwareInfo := True, cap_codecInfo := True,
        cap_wearSensor := True, cap_multipoint := True\<rparr>),
   profileOf WF1000XM4 V2 (noCaps\<lparr>cap_battery := True, cap_dualBattery := True, cap_noiseCancelling := True,
        cap_ambientSound := True, cap_focusOnVoice := True, cap_equalizer := True,
        cap_clearBass := True, cap_dsee := True, cap_speakToChat := True,
        cap_autoPowerOff := True, cap_firmwareInfo := True, cap_codecInfo := True,
        cap_wearSensor := True, cap_multipoint := True\<rparr>),
   profileOf WF1000XM5 V2 (noCaps\<lparr>cap_battery := True, cap_dualBattery := True, cap_noiseCancelling := True,
        cap_ambientSound := True, cap_focusOnVoice := True, cap_equalizer := True,
        cap_clearBass := True, cap_dsee := True, cap_speakToChat := True,
        cap_adaptiveVolume := True, cap_autoPowerOff := True, cap_firmwareInfo := True,
        cap_codecInfo := True, cap_wearSensor := True, cap_multipoint := True\<rparr>),
   profileOf WF1000XM6 V2 (noCaps\<lparr>cap_battery := True, cap_dualBattery := True, cap_noiseCancelling := True,
        cap_ambientSound := True, cap_focusOnVoice := True, cap_equalizer := True,
        cap_clearBass := True, cap_dsee := True, cap_speakToChat := True,
        cap_adaptiveVolume := True, cap_autoPowerOff := True, cap_firmwareInfo := True,
        cap_codecInfo := True, cap_wearSensor := True, cap_multipoint := True\<rparr>),
   profileOf WHCH720N V2 (noCaps\<lparr>cap_battery := True, cap_noiseCancelling := True, cap_ambientSound := True,
        cap_focusOnVoice := True, cap_equalizer := True, cap_clearBass := True,
        cap_dsee := True, cap_autoPowerOff := True, cap_firmwareInfo := True,
        cap_codecInfo := True, cap_multipoint := True\<rparr>)]"

definition lastProfiles :: "DeviceProfile list" where
  "lastProfiles = [
   profileOf ULTWear V2 (noCaps\<lparr>cap_battery := True, cap_noiseCancelling := True, cap_ambientSound := True,
        cap_focusOnVoice := True, cap_equalizer := True, cap_clearBass := True,
        cap_dsee := True, cap_autoPowerOff := True, cap_firmwareInfo := True,
        cap_codecInfo := True, cap_wearSensor := True, cap_multipoint := True\<rparr>),
   profileOf LinkBudsS V2 (noCaps\<lparr>cap_battery := True, cap_dualBattery := True, cap_noiseCancelling := True,
        cap_ambientSound := True, cap_focusOnVoice := True, cap_equalizer := True,
        cap_clearBass := True, cap_dsee := True, cap_speakToChat := True,
        cap_autoPowerOff := True, cap_firmwareInfo := True, cap_codecInfo := True,
        cap_wearSensor := True, cap_multipoint := True\<rparr>)]"

definition getStaticProfiles :: "DeviceProfile list" where
  "getStaticProfiles = firstProfiles @ lastProfiles"

definition allProfiles :: "DeviceProfile list" where
  "allProfiles = getStaticProfiles"

definition toUpper :: "string \<Rightarrow> string" where
  "toUpper s = map toupperC s"

text \<open>The chain of \<open>if\<close>s of \<open>identifyModel\<close>: the substrings tried, in order.\<close>

definition modelPatterns :: "(SonyModel \<times> string list) list" where
  "modelPatterns =
    [(WH1000XM3, [''WH-1000XM3'', ''WH1000XM3'']), (WH1000XM4, [''WH-1000XM4'', ''WH1000XM4'']),
     (WH1000XM5, [''WH-1000XM5'', ''WH1000XM5'']), (WH1000XM6, [''WH-1000XM6'', ''WH1000XM6'']),
     (WF1000XM4, [''WF-1000XM4'', ''WF1000XM4'']), (WF1000XM5, [''WF-1000XM5'', ''WF1000XM5'']),
     (WF1000XM6, [''WF-1000XM6'', ''WF1000XM6'']), (WHCH720N, [''WH-CH720N'', ''CH720N'']),
     (ULTWear, [''ULT WEAR'', ''WH-ULT900N'', ''ULT900N'']),
     (LinkBudsS, [''LINKBUDS S'', ''WF-LS900N'', ''LS900N''])]"

definition identifyModel :: "string \<Rightarrow> SonyModel" where
  "identifyModel deviceName =
     (if deviceName = [] then Unknown
      else let upper = toUpper deviceName in
        case find (\<lambda>(m, ps). list_ex (\<lambda>p. containsStr p upper) ps) modelPatterns of
          Some (m, ps) \<Rightarrow> m | None \<Rightarrow> Unknown)"

definition getProfile :: "SonyModel \<Rightarrow> DeviceProfile option" where
  "getProfile model =
     (if model = Unknown then None else find (\<lambda>p. pf_model p = model) getStaticProfiles)"

definition getProfileForDevice :: "string \<Rightarrow> DeviceProfile" where
  "getProfileForDevice deviceName =
     (case getProfile (identifyModel deviceName) of
        Some p \<Rightarrow> p | None \<Rightarrow> profileOf Unknown V1 noCaps)"

definition isKnownDevice :: "SonyModel \<Rightarrow> bool" where
  "isKnownDevice model \<longleftrightarrow> model \<noteq> Unknown"

section \<open>Correctness of the registry\<close>

lemma getProfile_table:
  "\<forall>m. (case getProfile m of None \<Rightarrow> m = Unknown
     | Some p \<Rightarrow> m \<noteq> Unknown \<and> pf_model p = m \<and> filter (\<lambda>q. pf_model q = m) getStaticProfiles = [p])"
  by code_simp

lemma getProfile_model: "getProfile m = Some p \<Longrightarrow> pf_model p = m"
  using getProfile_table [THEN spec, of m] by simp

text \<open>The registry has exactly one profile for each known model and none for the unknown
  one; a lookup finds it, and every device name, known or not, gets the profile of the
  model it identifies, which for unknown names claims nothing.\<close>

theorem registry_complete:
  "(isKnownDevice m \<longleftrightarrow> (\<exists>p. getProfile m = Some p \<and> filter (\<lambda>q. pf_model q = m) getStaticProfiles = [p])) \<and>
   pf_model (getProfileForDevice n) = identifyModel n \<and>
   (identifyModel n \<noteq> Unknown \<or> getProfileForDevice n = profileOf Unknown V1 noCaps)"
proof -
  note getProfile_table [THEN spec, of m] getProfile_table [THEN spec, of "identifyModel n"]
  then show ?thesis
    by (auto simp: isKnownDevice_def getProfileForDevice_def profileOf_def getProfile_def split: option.splits)
qed

theorem registry_complete_witness:
  "\<exists>p. getProfile WH1000XM4 = Some p \<and> filter (\<lambda>q. pf_model q = WH1000XM4) getStaticProfiles = [p]"
proof -
  have "isKnownDevice WH1000XM4" by code_simp
  with registry_complete [of WH1000XM4 "''x''"] show ?thesis by blast
qed

text \<open>Names identify models: the name a model prints is recognised as that model, also
  behind the prefix that Bluetooth LE adds, and recognition does not depend on case.\<close>

theorem model_names:
  "identifyModel (to_string_model m) = m \<and> identifyModel (''LE_'' @ to_string_model m) = m \<and>
   (toUpper n \<noteq> toUpper n' \<or> identifyModel n = identifyModel n')"
proof -
  have "\<forall>m. identifyModel (to_string_model m) = m \<and> identifyModel (''LE_'' @ to_string_model m) = m"
    by code_simp
  moreover have "identifyModel n = identifyModel n'" if "toUpper n = toUpper n'"
  proof -
    from that have "n = [] \<longleftrightarrow> n' = []" by (auto simp: toUpper_def)
    with that show ?thesis by (simp add: identifyModel_def Let_def)
  qed
  ultimately show ?thesis by blast
qed

theorem model_names_witness:
  "identifyModel ''my wh-1000xm4 (work)'' = identifyModel ''My WH-1000XM4 (Work)''"
proof -
  have "toUpper ''my wh-1000xm4 (work)'' = toUpper ''My WH-1000XM4 (Work)''" by code_simp
  with model_names [of Unknown "''my wh-1000xm4 (work)''" "''My WH-1000XM4 (Work)''"] show ?thesis by blast
qed

text \<open>Which profiles may reset the headset, and what the first generation lacks.\<close>

lemma profile_guards:
  "list_all (\<lambda>p. (cap_factoryReset (pf_capabilities p) \<or> cap_reset (pf_capabilities p) \<longrightarrow> pf_model p = WH1000XM5) \<and>
     (cap_factoryReset (pf_capabilities p) \<or> cap_reset (pf_capabilities p) \<longrightarrow> pf_protocol p = V2) \<and>
     (pf_protocol p = V1 \<longrightarrow> pf_model p \<in> {Unknown, WH1000XM3, WH1000XM4}) \<and>
     (pf_protocol p = V1 \<longrightarrow> \<not> cap_dsee (pf_capabilities p) \<and> \<not> cap_speakToChat (pf_capabilities p) \<and>
        \<not> cap_adaptiveVolume (pf_capabilities p) \<and> \<not> cap_autoPowerOff (pf_capabilities p)))
   (profileOf Unknown V1 noCaps # getStaticProfiles)"
  by code_simp

lemma profileForDevice_member: "getProfileForDevice n \<in> set (profileOf Unknown V1 noCaps # getStaticProfiles)"
proof (cases "getProfile (identifyModel n)")
  case (Some p)
  then have "find (\<lambda>p. pf_model p = identifyModel n) getStaticProfiles = Some p"
    by (auto simp: getProfile_def split: if_splits)
  then have "p \<in> set getStaticProfiles" by (auto simp: find_Some_iff)
  with Some show ?thesis by (simp add: getProfileForDevice_def)
qed (simp add: getProfileForDevice_def)

lemma profileForDevice_model: "pf_model (getProfileForDevice n) = identifyModel n"
  using getProfile_table [THEN spec, of "identifyModel n"]
  by (auto simp: getProfileForDevice_def profileOf_def split: option.splits)

text \<open>The dangerous commands are offered for one model only: whatever the name of a
  device, its profile allows a reset or a factory reset only when the name identifies it
  as a WH-1000XM5, on the V2 protocol; and a V1 profile, the fallback for unknown names
  included, never claims a feature that only V2 has.\<close>

theorem reset_only_xm5:
  fixes n :: string
  defines "p \<equiv> getProfileForDevice n"
  shows "(cap_reset (pf_capabilities p) \<or> cap_factoryReset (pf_capabilities p) \<longrightarrow>
      identifyModel n = WH1000XM5 \<and> pf_protocol p = V2) \<and>
    (pf_protocol p = V1 \<longrightarrow> identifyModel n \<in> {Unknown, WH1000XM3, WH1000XM4} \<and>
      \<not> cap_dsee (pf_capabilities p) \<and> \<not> cap_speakToChat (pf_capabilities p) \<and>
      \<not> cap_adaptiveVolume (pf_capabilities p) \<and> \<not> cap_autoPowerOff (pf_capabilities p))"
proof -
  have m: "identifyModel n = pf_model p" unfolding p_def by (rule profileForDevice_model [symmetric])
  have "p \<in> set (profileOf Unknown V1 noCaps # getStaticProfiles)"
    unfolding p_def by (rule profileForDevice_member)
  from bspec [OF profile_guards [unfolded list_all_iff] this] show ?thesis
    unfolding m by blast
qed

theorem reset_only_xm5_witness:
  "cap_factoryReset (pf_capabilities (getProfileForDevice ''LE_WH-1000XM5'')) \<and>
   identifyModel ''LE_WH-1000XM5'' = WH1000XM5 \<and>
   pf_protocol (getProfileForDevice ''LE_WH-1000XM5'') = V2"
proof -
  have "cap_factoryReset (pf_capabilities (getProfileForDevice ''LE_WH-1000XM5''))" by code_simp
  with reset_only_xm5 [of "''LE_WH-1000XM5''"] show ?thesis by blast
qed

end
