(* ===== verification/Dispatcher.thy ===== *)
theory Dispatcher
  imports DeviceState ProtocolV2 "HOL-Library.AList"
begin

text \<open>
  \<open>DeviceEventDispatcher\<close>: subscriptions by number, dispatch of the five events to their
  handlers, and the parser that turns an unsolicited payload into a change of the device
  state. A handler is a number that identifies it (\<open>None\<close> is an empty \<open>std::function\<close>);
  \<open>dp_log\<close>, a ghost, records every dispatch with the handlers it called. The handlers live
  in an \<open>unordered_map\<close>, whose iteration order the standard leaves open: the handlers of one
  dispatch are a multiset.
\<close>

section \<open>Subscriptions and dispatch\<close>

type_synonym Handlers = "(u64 \<times> nat option) list"

datatype EventKind = OnBattery | OnNoiseControl | OnEqualizer | OnConnection | OnState

record DeviceEventDispatcher =
  dp_nextId :: u64
  dp_batteryHandlers :: Handlers
  dp_noiseControlHandlers :: Handlers
  dp_equalizerHandlers :: Handlers
  dp_connectionHandlers :: Handlers
  dp_stateHandlers :: Handlers
  dp_log :: "(DeviceEvent \<times> nat multiset) list"

definition newDispatcher :: DeviceEventDispatcher where
  "newDispatcher = \<lparr>dp_nextId = 1, dp_batteryHandlers = [], dp_noiseControlHandlers = [],
     dp_equalizerHandlers = [], dp_connectionHandlers = [], dp_stateHandlers = [], dp_log = []\<rparr>"

text \<open>The five \<open>on\<dots>Changed\<close> functions: a fresh number and an entry in the map of that kind.\<close>

fun subscribe :: "EventKind \<Rightarrow> nat option \<Rightarrow> DeviceEventDispatcher \<Rightarrow> u64 \<times> DeviceEventDispatcher" where
  "subscribe OnBattery h d = (dp_nextId d, d\<lparr>dp_nextId := dp_nextId d + 1,
     dp_batteryHandlers := AList.update (dp_nextId d) h (dp_batteryHandlers d)\<rparr>)"
| "subscribe OnNoiseControl h d = (dp_nextId d, d\<lparr>dp_nextId := dp_nextId d + 1,
     dp_noiseControlHandlers := AList.update (dp_nextId d) h (dp_noiseControlHandlers d)\<rparr>)"
| "subscribe OnEqualizer h d = (dp_nextId d, d\<lparr>dp_nextId := dp_nextId d + 1,
     dp_equalizerHandlers := AList.update (dp_nextId d) h (dp_equalizerHandlers d)\<rparr>)"
| "subscribe OnConnection h d = (dp_nextId d, d\<lparr>dp_nextId := dp_nextId d + 1,
     dp_connectionHandlers := AList.update (dp_nextId d) h (dp_connectionHandlers d)\<rparr>)"
| "subscribe OnState h d = (dp_nextId d, d\<lparr>dp_nextId := dp_nextId d + 1,
     dp_stateHandlers := AList.update (dp_nextId d) h (dp_stateHandlers d)\<rparr>)"

definition removeListener :: "u64 \<Rightarrow> DeviceEventDispatcher \<Rightarrow> DeviceEventDispatcher" where
  "removeListener i d = d\<lparr>
     dp_batteryHandlers := AList.delete i (dp_batteryHandlers d),
     dp_noiseControlHandlers := AList.delete i (dp_noiseControlHandlers d),
     dp_equalizerHandlers := AList.delete i (dp_equalizerHandlers d),
     dp_connectionHandlers := AList.delete i (dp_connectionHandlers d),
     dp_stateHandlers := AList.delete i (dp_stateHandlers d)\<rparr>"

definition clearListeners :: "DeviceEventDispatcher \<Rightarrow> DeviceEventDispatcher" where
  "clearListeners d = d\<lparr>dp_batteryHandlers := [], dp_noiseControlHandlers := [],
     dp_equalizerHandlers := [], dp_connectionHandlers := [], dp_stateHandlers := []\<rparr>"

fun kindOf :: "DeviceEvent \<Rightarrow> EventKind" where
  "kindOf (BatteryChanged b) = OnBattery"
| "kindOf (NoiseControlChanged n) = OnNoiseControl"
| "kindOf (EqualizerChanged e) = OnEqualizer"
| "kindOf (ConnectionChanged c a) = OnConnection"
| "kindOf (DeviceStateChanged s) = OnState"

fun handlersOf :: "EventKind \<Rightarrow> DeviceEventDispatcher \<Rightarrow> Handlers" where
  "handlersOf OnBattery d = dp_batteryHandlers d"
| "handlersOf OnNoiseControl d = dp_noiseControlHandlers d"
| "handlersOf OnEqualizer d = dp_equalizerHandlers d"
| "handlersOf OnConnection d = dp_connectionHandlers d"
| "handlersOf OnState d = dp_stateHandlers d"

definition calls :: "Handlers \<Rightarrow> nat multiset" where
  "calls hs = mset (List.map_filter snd hs)"

definition dispatch :: "DeviceEvent \<Rightarrow> DeviceEventDispatcher \<Rightarrow> DeviceEventDispatcher" where
  "dispatch evt d = d\<lparr>dp_log := dp_log d @ [(evt, calls (handlersOf (kindOf evt) d))]\<rparr>"

section \<open>Notifications\<close>

text \<open>The three features a notification can carry: the new state and the event to dispatch,
  or \<open>None\<close> where the code falls through to \<open>return false\<close>.\<close>

definition parseBatteryNote :: "u8 list \<Rightarrow> DeviceState \<Rightarrow> DeviceState option" where
  "parseBatteryNote p s =
     (if 4 \<le> length p \<and> p ! 1 = 0x00
      then Some (s\<lparr>ds_battery := (ds_battery s)\<lparr>bt_main := Some (intOf (p ! 2)), bt_charging := (p ! 3 = 1)\<rparr>\<rparr>)
      else if 6 \<le> length p \<and> p ! 1 = 0x09
      then Some (s\<lparr>ds_battery := (ds_battery s)\<lparr>bt_left := Some (intOf (p ! 2)),
             bt_right := Some (intOf (p ! 4)), bt_main := Some (min (intOf (p ! 2)) (intOf (p ! 4))),
             bt_charging := (p ! 3 = 1 \<or> p ! 5 = 1)\<rparr>\<rparr>)
      else if 4 \<le> length p \<and> p ! 1 = 0x0a
      then Some (s\<lparr>ds_battery := (ds_battery s)\<lparr>bt_case := Some (intOf (p ! 2))\<rparr>\<rparr>)
      else None)"

definition parseNoiseNote :: "u8 list \<Rightarrow> DeviceState \<Rightarrow> DeviceState option" where
  "parseNoiseNote p s =
     (if 7 \<le> length p \<and> p ! 1 = 0x17 \<and> p ! 2 = 0x01
      then let on = (p ! 3 \<noteq> 0); ambient = (p ! 4 \<noteq> 0); voice = (p ! 5 \<noteq> 0); level = intOf (p ! 6)
        in Some (s\<lparr>ds_noiseControl :=
             \<lparr>nc_mode = (if on then if ambient then Ambient else NoiseCancelling else ModeOff),
              nc_ambientLevel = (if ambient then level else 0), nc_focusOnVoice = voice\<rparr>\<rparr>)
      else None)"

definition parseEqualizerNote :: "u8 list \<Rightarrow> DeviceState \<Rightarrow> DeviceState option" where
  "parseEqualizerNote p s =
     (if 3 \<le> length p
      then let e = (ds_equalizer s)\<lparr>eq_preset := intOf (p ! 2)\<rparr>
        in Some (s\<lparr>ds_equalizer :=
             (if 10 \<le> length p
              then e\<lparr>eq_clearBass := intOf (p ! 4) - 10, eq_bands := map (\<lambda>i. intOf (p ! (5 + i)) - 10) [0..<5]\<rparr>
              else e)\<rparr>)
      else None)"

definition parseNotificationPayload ::
    "u8 list \<Rightarrow> bool \<Rightarrow> DeviceState \<times> DeviceEventDispatcher \<Rightarrow> bool \<times> DeviceState \<times> DeviceEventDispatcher" where
  "parseNotificationPayload p notify = (\<lambda>(s, d).
     let told = (\<lambda>e s'. if notify then dispatch (DeviceStateChanged s') (dispatch (e s') d) else d)
     in if p = [] then (False, s, d)
        else if p ! 0 = 0x25 \<or> p ! 0 = 0x23
        then (case parseBatteryNote p s of
                Some s' \<Rightarrow> (True, s', told (\<lambda>s. BatteryChanged (ds_battery s)) s') | None \<Rightarrow> (False, s, d))
        else if p ! 0 = 0x67 \<or> p ! 0 = 0x69
        then (case parseNoiseNote p s of
                Some s' \<Rightarrow> (True, s', told (\<lambda>s. NoiseControlChanged (ds_noiseControl s)) s') | None \<Rightarrow> (False, s, d))
        else if p ! 0 = 0x57 \<or> p ! 0 = 0x59
        then (case parseEqualizerNote p s of
                Some s' \<Rightarrow> (True, s', told (\<lambda>s. EqualizerChanged (ds_equalizer s)) s') | None \<Rightarrow> (False, s, d))
        else (False, s, d))"

definition parseNotification ::
    "SonyFrame \<Rightarrow> DeviceState \<times> DeviceEventDispatcher \<Rightarrow> bool \<times> DeviceState \<times> DeviceEventDispatcher" where
  "parseNotification f = parseNotificationPayload (fr_payload f) True"

section \<open>Correctness\<close>

lemma dispatch_other [simp]:
  "handlersOf k (dispatch e d) = handlersOf k d" "dp_nextId (dispatch e d) = dp_nextId d"
  "dp_log (dispatch e d) = dp_log d @ [(e, calls (handlersOf (kindOf e) d))]"
  by (cases k; simp add: dispatch_def)+

text \<open>Every number in use was given out before.\<close>

definition dispatcherOk :: "DeviceEventDispatcher \<Rightarrow> bool" where
  "dispatcherOk d \<longleftrightarrow> 0 < dp_nextId d \<and> (\<forall>k. distinct (map fst (handlersOf k d)) \<and>
     (\<forall>i \<in> fst ` set (handlersOf k d). 0 < i \<and> i < dp_nextId d))"

lemma subscribe_handlers:
  "handlersOf k' (snd (subscribe k h d)) =
     (if k' = k then AList.update (dp_nextId d) h (handlersOf k d) else handlersOf k' d)"
  "dp_nextId (snd (subscribe k h d)) = dp_nextId d + 1" "fst (subscribe k h d) = dp_nextId d"
  "dp_log (snd (subscribe k h d)) = dp_log d"
  by (cases k; cases k'; simp)+

lemma remove_handlers:
  "handlersOf k (removeListener i d) = AList.delete i (handlersOf k d)"
  "dp_nextId (removeListener i d) = dp_nextId d"
  by (cases k; simp add: removeListener_def)+

lemma update_fresh: "k \<notin> fst ` set al \<Longrightarrow> AList.update k v al = al @ [(k, v)]"
  by (induction al) auto

lemma calls_append: "calls (xs @ ys) = calls xs + calls ys"
  by (induction xs) (auto simp: calls_def List.map_filter_def)

lemma fresh_id: "dispatcherOk d \<Longrightarrow> dp_nextId d \<notin> fst ` set (handlersOf k d)"
  by (force simp: dispatcherOk_def)

lemma dispatcherOk_new: "dispatcherOk newDispatcher"
proof -
  have "handlersOf k newDispatcher = []" for k by (cases k) (simp_all add: newDispatcher_def)
  then show ?thesis by (simp add: dispatcherOk_def newDispatcher_def)
qed

lemma dispatcherOk_dispatch: "dispatcherOk d \<Longrightarrow> dispatcherOk (dispatch e d)"
  by (simp add: dispatcherOk_def)

lemma dispatcherOk_remove: "dispatcherOk d \<Longrightarrow> dispatcherOk (removeListener i d)"
  using distinct_delete [of _ i]
  by (fastforce simp: dispatcherOk_def remove_handlers AList.delete_eq)

lemma next_id:
  fixes x :: u64
  assumes "x \<noteq> - 1" shows "x < x + 1" "0 < x + 1"
proof -
  show less: "x < x + 1" using assms inc_less_eq_iff [of x "x + 1"] by simp
  have "0 \<le> x" by simp
  then show "0 < x + 1" using less by (rule le_less_trans)
qed

lemma dispatcherOk_subscribe:
  assumes "dispatcherOk d" "dp_nextId d \<noteq> - 1"
  shows "dispatcherOk (snd (subscribe k h d))"
proof -
  have step: "dp_nextId d < dp_nextId d + 1" "0 < dp_nextId d + 1"
    using next_id [OF assms(2)] by auto
  have up: "AList.update (dp_nextId d) h (handlersOf k d) = handlersOf k d @ [(dp_nextId d, h)]"
    using fresh_id [OF assms(1)] by (rule update_fresh)
  show ?thesis using assms(1) step fresh_id [OF assms(1), of k]
    by (force simp: dispatcherOk_def subscribe_handlers up)
qed

text \<open>Subscriptions work as promised, as long as the 64-bit counter has not run out: a new
  subscription gets a number that no live one has, stays clear of every other kind of
  event, and is called exactly once, besides those before it, by each dispatch of its
  kind; after \<open>removeListener\<close> of its number, the calls are those before it again.\<close>

theorem subscription_calls:
  assumes "dispatcherOk d" "dp_nextId d \<noteq> - 1" "subscribe (kindOf e) (Some h) d = (i, d')"
  shows "(\<forall>k. i \<notin> fst ` set (handlersOf k d)) \<and> dispatcherOk d' \<and>
    (\<forall>k. k = kindOf e \<or> handlersOf k d' = handlersOf k d) \<and>
    last (dp_log (dispatch e d')) = (e, calls (handlersOf (kindOf e) d) + {#h#}) \<and>
    last (dp_log (dispatch e (removeListener i d'))) = (e, calls (handlersOf (kindOf e) d))"
proof -
  let ?k = "kindOf e"
  have i: "i = dp_nextId d" and d': "d' = snd (subscribe ?k (Some h) d)"
    using assms(3) subscribe_handlers(3) [of ?k "Some h" d] by auto
  have fresh: "\<forall>k. i \<notin> fst ` set (handlersOf k d)" using fresh_id [OF assms(1)] by (simp add: i)
  have hs: "handlersOf ?k d' = handlersOf ?k d @ [(i, Some h)]"
    using fresh by (simp add: d' subscribe_handlers i update_fresh)
  have gone: "AList.delete i (handlersOf ?k d') = handlersOf ?k d"
    using fresh by (force simp: hs AList.delete_eq intro!: filter_True)
  have "calls [(i, Some h)] = {#h#}" by (simp add: calls_def List.map_filter_def)
  with fresh hs gone dispatcherOk_subscribe [OF assms(1,2), of ?k "Some h"]
  show ?thesis by (simp add: remove_handlers calls_append d' subscribe_handlers)
qed

theorem subscription_calls_witness:
  "last (dp_log (dispatch (BatteryChanged emptyBattery) (snd (subscribe OnBattery (Some 4) newDispatcher))))
   = (BatteryChanged emptyBattery, {#4#})"
  using subscription_calls [OF dispatcherOk_new, of "BatteryChanged emptyBattery" 4]
  by (simp add: newDispatcher_def calls_def List.map_filter_def)

text \<open>The state a notification leaves outside its own feature.\<close>

definition sameBut :: "u8 \<Rightarrow> DeviceState \<Rightarrow> DeviceState \<Rightarrow> bool" where
  "sameBut op s s' \<longleftrightarrow>
     (if op \<in> {0x25, 0x23} then s'\<lparr>ds_battery := ds_battery s\<rparr> = s
      else if op \<in> {0x67, 0x69} then s'\<lparr>ds_noiseControl := ds_noiseControl s\<rparr> = s
      else s'\<lparr>ds_equalizer := ds_equalizer s\<rparr> = s)"

fun featureEvent :: "u8 \<Rightarrow> DeviceState \<Rightarrow> DeviceEvent" where
  "featureEvent op s =
     (if op \<in> {0x25, 0x23} then BatteryChanged (ds_battery s)
      else if op \<in> {0x67, 0x69} then NoiseControlChanged (ds_noiseControl s)
      else EqualizerChanged (ds_equalizer s))"

text \<open>C39: A notification changes exactly what it speaks of. A payload that is not recognised
  leaves the state and the log alone; a recognised one changes only the feature its
  opcode names, and dispatches (when asked to) two events, in this order: the feature's
  new value and a snapshot of the new state.\<close>

theorem notification_effect:
  "case parseNotificationPayload p notify (s, d) of
     (False, s', d') \<Rightarrow> s' = s \<and> d' = d
   | (True, s', d') \<Rightarrow> p \<noteq> [] \<and> p ! 0 \<in> {0x25, 0x23, 0x67, 0x69, 0x57, 0x59} \<and> sameBut (p ! 0) s s' \<and>
       (if notify then map fst (dp_log d') = map fst (dp_log d) @ [featureEvent (p ! 0) s', DeviceStateChanged s']
        else d' = d)"
  by (auto simp: parseNotificationPayload_def Let_def sameBut_def parseBatteryNote_def parseNoiseNote_def
      parseEqualizerNote_def split: option.split if_splits)



end
