(* ===== verification/SonyDevice.thy ===== *)
theory SonyDevice
  imports ProtocolV1 ProtocolV2 Dispatcher DeviceProfile
begin

text \<open>
  \<open>SonyDevice\<close>: the device object. It picks the profile and the protocol generation for a
  name, owns one session at a time, and keeps the state, the status of every feature and the
  dispatcher up to date with what it reads and sets.

  The device and its session share the transport: while there is a session, the transport is
  in it, and \<open>dv_transport\<close> holds it otherwise. The session's notifications reach the device
  through the callback registered in \<open>_setupSession\<close>; the ones that arrive while a call
  waits are handled when the call returns, before its result is used, and those that arrive
  in between by \<open>deviceRead\<close>. Clock readings are \<open>en_clock\<close>, by their number. Logging is
  left out; \<open>sendRaw\<close>, which only Debug builds contain, is in \<open>DebugBuild\<close>.
\<close>

section \<open>State\<close>

record 't Env =
  en_T :: "'t ITransport"
  en_polls :: "nat \<Rightarrow> nat"
  en_clock :: "nat \<Rightarrow> int"

text \<open>Ghosts: \<open>dv_label\<close> is the profile the session was set up for, \<open>dv_past\<close> the data
  payloads of earlier sessions, each with its profile, \<open>dv_ticks\<close> the clock readings so far.\<close>

record 't Device =
  dv_transport :: "'t option"
  dv_version :: SonyProtocolVersion
  dv_name :: string
  dv_session :: "'t Session option"
  dv_protocol :: "SonyProtocolVersion option"
  dv_profile :: DeviceProfile
  dv_capabilities :: DeviceCapabilities
  dv_state :: DeviceState
  dv_dispatcher :: DeviceEventDispatcher
  dv_refreshStep :: u32
  dv_label :: DeviceProfile
  dv_past :: "(DeviceProfile \<times> u8 list) list"
  dv_ticks :: nat

definition newDevice :: "'t option \<Rightarrow> SonyProtocolVersion \<Rightarrow> 't Device" where
  "newDevice t version =
     (let prof = (case getProfile Unknown of Some p \<Rightarrow> p | None \<Rightarrow> profileOf Unknown V1 noCaps)
      in \<lparr>dv_transport = t, dv_version = version, dv_name = to_string_model (pf_model prof),
          dv_session = None, dv_protocol = None, dv_profile = prof,
          dv_capabilities = pf_capabilities prof, dv_state = defaultState,
          dv_dispatcher = newDispatcher, dv_refreshStep = 0,
          dv_label = prof, dv_past = [], dv_ticks = 0\<rparr>)"

definition theTransport :: "'t Device \<Rightarrow> 't option" where
  "theTransport d = (case dv_session d of Some s \<Rightarrow> ss_transport s | None \<Rightarrow> dv_transport d)"

definition putTransport :: "'t option \<Rightarrow> 't Device \<Rightarrow> 't Device" where
  "putTransport t d = (case dv_session d of
      Some s \<Rightarrow> d\<lparr>dv_session := Some (s\<lparr>ss_transport := t\<rparr>)\<rparr> | None \<Rightarrow> d\<lparr>dv_transport := t\<rparr>)"

definition device_isConnected :: "'t Env \<Rightarrow> 't Device \<Rightarrow> bool" where
  "device_isConnected E d \<longleftrightarrow> (case dv_session d of Some s \<Rightarrow> isConnected (en_T E) s | None \<Rightarrow> False)"

section \<open>Features and events\<close>

definition dispatchD :: "DeviceEvent \<Rightarrow> 't Device \<Rightarrow> 't Device" where
  "dispatchD e d = d\<lparr>dv_dispatcher := dispatch e (dv_dispatcher d)\<rparr>"

definition markSuccess :: "'t Env \<Rightarrow> string \<Rightarrow> 't Device \<Rightarrow> 't Device" where
  "markSuccess E feature d = d\<lparr>dv_ticks := dv_ticks d + 1,
     dv_state := (dv_state d)\<lparr>ds_features := (ds_features (dv_state d))(feature \<mapsto>
       \<lparr>fs_availability = ''valid'', fs_lastSuccessMs = en_clock E (dv_ticks d), fs_error = ''''\<rparr>)\<rparr>\<rparr>"

definition statusOf :: "string \<Rightarrow> DeviceState \<Rightarrow> FeatureStatus" where
  "statusOf feature s = (case ds_features s feature of Some st \<Rightarrow> st | None \<Rightarrow> defaultFeature)"

definition markError :: "string \<Rightarrow> SonyErrorCode \<Rightarrow> string \<Rightarrow> 't Device \<Rightarrow> 't Device" where
  "markError feature c w d =
     (let st = statusOf feature (dv_state d)
      in d\<lparr>dv_state := (dv_state d)\<lparr>ds_features := (ds_features (dv_state d))(feature \<mapsto>
           st\<lparr>fs_availability := (if c = Unsupported then ''unsupported''
                else if fs_lastSuccessMs st \<noteq> 0 then ''stale'' else ''unknown''),
              fs_error := w\<rparr>)\<rparr>\<rparr>)"

text \<open>What every successful read or write does: store the value and mark the feature under
  the lock, then dispatch events made from the new state.\<close>

definition storeFeature ::
    "'t Env \<Rightarrow> string \<Rightarrow> (DeviceState \<Rightarrow> DeviceState) \<Rightarrow> (DeviceState \<Rightarrow> DeviceEvent list) \<Rightarrow> 't Device \<Rightarrow> 't Device" where
  "storeFeature E feature u evs d =
     (let d1 = markSuccess E feature (d\<lparr>dv_state := u (dv_state d)\<rparr>)
      in fold dispatchD (evs (dv_state d1)) d1)"

text \<open>\<open>_onNotification\<close>, on the payload of the frame.\<close>

definition noteFeature :: "u8 \<Rightarrow> string" where
  "noteFeature opcode =
     (if opcode = 0x23 \<or> opcode = 0x25 then ''battery''
      else if opcode = 0x67 \<or> opcode = 0x69 then ''noiseControl'' else ''equalizer'')"

definition noteEvents :: "string \<Rightarrow> DeviceState \<Rightarrow> DeviceEvent list" where
  "noteEvents feature s =
     (if feature = ''battery'' then [BatteryChanged (ds_battery s)] else []) @
     (if feature = ''noiseControl'' then [NoiseControlChanged (ds_noiseControl s)] else []) @
     (if feature = ''equalizer'' then [EqualizerChanged (ds_equalizer s)] else []) @
     [DeviceStateChanged s]"

definition device_onNotification :: "'t Env \<Rightarrow> SonyFrame \<Rightarrow> 't Device \<Rightarrow> 't Device" where
  "device_onNotification E f d =
     (case parseNotificationPayload (fr_payload f) False (dv_state d, dv_dispatcher d) of
        (False, s', d') \<Rightarrow> d
      | (True, s', d') \<Rightarrow>
          let feature = noteFeature (fr_payload f ! 0)
          in storeFeature E feature (\<lambda>_. s') (noteEvents feature) d)"

section \<open>Calls to the protocol\<close>

definition protocolFor :: "'t Env \<Rightarrow> SonyProtocolVersion \<Rightarrow> 't Session IProtocol" where
  "protocolFor E v = (let L = session_link (en_T E) (en_polls E) in
     if v = V1 then protocolV1 L else protocolV2 L)"

text \<open>Put back the session that a call, or the idle reader, leaves, and handle the
  notifications it delivered.\<close>

definition absorb :: "'t Env \<Rightarrow> 't Session \<Rightarrow> 't Session \<Rightarrow> 't Device \<Rightarrow> 't Device" where
  "absorb E s s' d = fold (\<lambda>(cb, f). device_onNotification E f)
     (drop (length (ss_notified s)) (ss_notified s')) (d\<lparr>dv_session := Some s'\<rparr>)"

text \<open>Callers test \<open>_protocol\<close> first; without one there is nothing to call.\<close>

definition callP :: "'t Env \<Rightarrow> ('t Session IProtocol \<Rightarrow> ('t Session, 'a) prog) \<Rightarrow> ('t Device, 'a) prog" where
  "callP E f d =
     (case (dv_protocol d, dv_session d) of
        (Some v, Some s) \<Rightarrow> let (r, s') = f (protocolFor E v) s in (r, absorb E s s' d)
      | _ \<Rightarrow> (Inl (StdException ''no protocol''), d))"

text \<open>\<open>if (!_protocol) return;\<close>\<close>

definition withProtocol :: "('t Device, unit) prog \<Rightarrow> ('t Device, unit) prog" where
  "withProtocol m = ifP (\<lambda>d. dv_protocol d = None) (returnP ()) m"

text \<open>The reader while no call is waiting.\<close>

definition deviceRead :: "'t Env \<Rightarrow> nat \<Rightarrow> 't Device \<Rightarrow> 't Device" where
  "deviceRead E n d = (case dv_session d of
      None \<Rightarrow> d | Some s \<Rightarrow> absorb E s ((readerStep (en_T E) ^^ n) s) d)"

section \<open>Refreshing\<close>

definition device_refreshBattery :: "'t Env \<Rightarrow> ('t Device, unit) prog" where
  "device_refreshBattery E = withProtocol (ifP (\<lambda>d. \<not> cap_battery (dv_capabilities d)) (returnP ())
     (catchSony
       (bindP (callP E ip_getBattery) (\<lambda>bat.
          if bt_main bat = None \<and> bt_left bat = None \<and> bt_right bat = None \<and> bt_case bat = None
          then throwP InvalidResponse ''No battery reading received''
          else modifyP (storeFeature E ''battery'' (\<lambda>s. s\<lparr>ds_battery := bat\<rparr>)
                 (\<lambda>s. [BatteryChanged bat, DeviceStateChanged s]))))
       (\<lambda>c w. modifyP (markError ''battery'' c w))))"

definition device_refreshNoiseControl :: "'t Env \<Rightarrow> ('t Device, unit) prog" where
  "device_refreshNoiseControl E = withProtocol
     (ifP (\<lambda>d. \<not> cap_noiseCancelling (dv_capabilities d) \<and> \<not> cap_ambientSound (dv_capabilities d)) (returnP ())
     (catchSony
       (bindP (callP E ip_getNoiseControl) (\<lambda>nc.
          modifyP (storeFeature E ''noiseControl'' (\<lambda>s. s\<lparr>ds_noiseControl := nc\<rparr>)
            (\<lambda>s. [NoiseControlChanged nc, DeviceStateChanged s]))))
       (\<lambda>c w. modifyP (markError ''noiseControl'' c w))))"

definition device_refreshEqualizer :: "'t Env \<Rightarrow> ('t Device, unit) prog" where
  "device_refreshEqualizer E = withProtocol (ifP (\<lambda>d. \<not> cap_equalizer (dv_capabilities d)) (returnP ())
     (catchSony
       (bindP (callP E ip_getEqualizer) (\<lambda>eq.
          modifyP (storeFeature E ''equalizer'' (\<lambda>s. s\<lparr>ds_equalizer := eq\<rparr>)
            (\<lambda>s. [EqualizerChanged eq, DeviceStateChanged s]))))
       (\<lambda>c w. modifyP (markError ''equalizer'' c w))))"

definition device_refreshDsee :: "'t Env \<Rightarrow> ('t Device, unit) prog" where
  "device_refreshDsee E = withProtocol (ifP (\<lambda>d. \<not> cap_dsee (dv_capabilities d)) (returnP ())
     (catchSony
       (bindP (callP E ip_getDsee) (\<lambda>dsee.
          modifyP (storeFeature E ''dsee'' (\<lambda>s. s\<lparr>ds_dsee := dsee\<rparr>) (\<lambda>s. [DeviceStateChanged s]))))
       (\<lambda>c w. modifyP (markError ''dsee'' c w))))"

definition device_refreshAll :: "'t Env \<Rightarrow> ('t Device, unit) prog" where
  "device_refreshAll E = bindP (device_refreshBattery E) (\<lambda>_. bindP (device_refreshNoiseControl E)
     (\<lambda>_. bindP (device_refreshEqualizer E) (\<lambda>_. device_refreshDsee E)))"

text \<open>One branch of \<open>refreshSettingsStep\<close>: when the capability is there, read the value,
  store it or mark the error; no event of its own.\<close>

definition settingStep ::
    "'t Env \<Rightarrow> string \<Rightarrow> ('t Session IProtocol \<Rightarrow> ('t Session, 'a) prog) \<Rightarrow> ('a \<Rightarrow> string option) \<Rightarrow>
     ('a \<Rightarrow> DeviceState \<Rightarrow> DeviceState) \<Rightarrow> ('t Device, unit) prog" where
  "settingStep E feature get missing upd =
     catchSony
       (bindP (callP E get) (\<lambda>value. case missing value of
          Some w \<Rightarrow> throwP InvalidResponse w
        | None \<Rightarrow> modifyP (storeFeature E feature (upd value) (\<lambda>_. []))))
       (\<lambda>c w. modifyP (markError feature c w))"

definition settingAction :: "'t Env \<Rightarrow> u32 \<Rightarrow> DeviceCapabilities \<Rightarrow> ('t Device, unit) prog" where
  "settingAction E step c =
     (if step = 3 \<and> cap_codecInfo c
      then settingStep E ''codec'' ip_getCodec
        (\<lambda>v. if v = [] then Some ''Codec not reported'' else None) (\<lambda>v s. s\<lparr>ds_codec := v\<rparr>)
      else if step = 4 \<and> cap_firmwareInfo c
      then settingStep E ''firmware'' ip_getFirmwareVersion
        (\<lambda>v. if v = [] then Some ''Firmware not reported'' else None) (\<lambda>v s. s\<lparr>ds_firmware := v\<rparr>)
      else if step = 5 \<and> cap_speakToChat c
      then settingStep E ''speakToChat'' ip_getSpeakToChat (\<lambda>_. None) (\<lambda>v s. s\<lparr>ds_speakToChat := v\<rparr>)
      else if step = 6 \<and> cap_adaptiveVolume c
      then settingStep E ''adaptiveVolume'' ip_getAdaptiveVolume (\<lambda>_. None) (\<lambda>v s. s\<lparr>ds_adaptiveVolume := v\<rparr>)
      else if step = 7 \<and> cap_autoPowerOff c
      then settingStep E ''autoPowerOff'' ip_getAutoPowerOff (\<lambda>_. None) (\<lambda>v s. s\<lparr>ds_autoPowerOff := v\<rparr>)
      else returnP ())"

definition device_refreshSettingsStep :: "'t Env \<Rightarrow> ('t Device, unit) prog" where
  "device_refreshSettingsStep E d =
     (if dv_protocol d = None \<or> \<not> device_isConnected E d then (Inr (), d)
      else let step = dv_refreshStep d mod 9; d1 = d\<lparr>dv_refreshStep := dv_refreshStep d + 1\<rparr> in
        if step = 0 then device_refreshNoiseControl E d1
        else if step = 1 then device_refreshEqualizer E d1
        else if step = 2 then device_refreshDsee E d1
        else bindP (settingAction E step (dv_capabilities d1))
               (\<lambda>_. modifyP (\<lambda>d. dispatchD (DeviceStateChanged (dv_state d)) d)) d1)"

section \<open>Control\<close>

definition device_setNoiseControl :: "'t Env \<Rightarrow> NoiseControlState \<Rightarrow> ('t Device, unit) prog" where
  "device_setNoiseControl E nc = withProtocol (bindP (callP E (\<lambda>P. ip_setNoiseControl P nc)) (\<lambda>_.
     modifyP (storeFeature E ''noiseControl'' (\<lambda>s. s\<lparr>ds_noiseControl := nc\<rparr>)
       (\<lambda>s. [NoiseControlChanged nc, DeviceStateChanged s]))))"

definition device_setAnc :: "'t Env \<Rightarrow> bool \<Rightarrow> ('t Device, unit) prog" where
  "device_setAnc E enabled = device_setNoiseControl E
     \<lparr>nc_mode = (if enabled then NoiseCancelling else ModeOff), nc_ambientLevel = 0, nc_focusOnVoice = False\<rparr>"

definition device_setAmbient :: "'t Env \<Rightarrow> int \<Rightarrow> bool \<Rightarrow> ('t Device, unit) prog" where
  "device_setAmbient E level focusOnVoice = device_setNoiseControl E
     \<lparr>nc_mode = Ambient, nc_ambientLevel = level, nc_focusOnVoice = focusOnVoice\<rparr>"

definition device_setEqualizerPreset :: "'t Env \<Rightarrow> int \<Rightarrow> ('t Device, unit) prog" where
  "device_setEqualizerPreset E preset =
     (if preset < 0 \<or> 255 < preset then returnP ()
      else withProtocol (bindP (callP E (\<lambda>P. ip_setEqualizerPreset P preset)) (\<lambda>_.
        modifyP (storeFeature E ''equalizer''
          (\<lambda>s. s\<lparr>ds_equalizer := (ds_equalizer s)\<lparr>eq_preset := preset\<rparr>\<rparr>)
          (\<lambda>s. [EqualizerChanged (ds_equalizer s), DeviceStateChanged s])))))"

definition device_setEqualizerCustom :: "'t Env \<Rightarrow> int \<Rightarrow> int list \<Rightarrow> ('t Device, unit) prog" where
  "device_setEqualizerCustom E clearBass bands =
     withProtocol (bindP (callP E (\<lambda>P. ip_setEqualizerCustom P clearBass bands)) (\<lambda>_.
       modifyP (storeFeature E ''equalizer''
         (\<lambda>s. s\<lparr>ds_equalizer := \<lparr>eq_preset = 0xa0, eq_clearBass = clearBass, eq_bands = bands\<rparr>\<rparr>)
         (\<lambda>s. [EqualizerChanged (ds_equalizer s), DeviceStateChanged s]))))"

definition device_setDsee :: "'t Env \<Rightarrow> bool \<Rightarrow> ('t Device, unit) prog" where
  "device_setDsee E enabled = withProtocol (bindP (callP E (\<lambda>P. ip_setDsee P enabled)) (\<lambda>_.
     modifyP (storeFeature E ''dsee'' (\<lambda>s. s\<lparr>ds_dsee := enabled\<rparr>) (\<lambda>s. [DeviceStateChanged s]))))"

definition device_setAutoPowerOff :: "'t Env \<Rightarrow> int \<Rightarrow> ('t Device, unit) prog" where
  "device_setAutoPowerOff E index = withProtocol (bindP (callP E (\<lambda>P. ip_setAutoPowerOff P index)) (\<lambda>_.
     modifyP (storeFeature E ''autoPowerOff'' (\<lambda>s. s\<lparr>ds_autoPowerOff := index\<rparr>) (\<lambda>s. [DeviceStateChanged s]))))"

definition device_setSpeakToChat :: "'t Env \<Rightarrow> bool \<Rightarrow> ('t Device, unit) prog" where
  "device_setSpeakToChat E enabled = withProtocol (ifP (\<lambda>d. \<not> cap_speakToChat (dv_capabilities d))
     (throwP Unsupported ''Speak-to-Chat is not supported by this device model'')
     (bindP (callP E (\<lambda>P. ip_setSpeakToChat P enabled)) (\<lambda>_.
        modifyP (storeFeature E ''speakToChat'' (\<lambda>s. s\<lparr>ds_speakToChat := enabled\<rparr>) (\<lambda>s. [DeviceStateChanged s])))))"

definition device_setAdaptiveVolume :: "'t Env \<Rightarrow> bool \<Rightarrow> ('t Device, unit) prog" where
  "device_setAdaptiveVolume E enabled = withProtocol (ifP (\<lambda>d. \<not> cap_adaptiveVolume (dv_capabilities d))
     (throwP Unsupported ''Adaptive Volume is not supported by this device model'')
     (bindP (callP E (\<lambda>P. ip_setAdaptiveVolume P enabled)) (\<lambda>_.
        modifyP (storeFeature E ''adaptiveVolume'' (\<lambda>s. s\<lparr>ds_adaptiveVolume := enabled\<rparr>) (\<lambda>s. [DeviceStateChanged s])))))"

definition device_reset :: "'t Env \<Rightarrow> ('t Device, unit) prog" where
  "device_reset E = withProtocol (ifP (\<lambda>d. \<not> cap_reset (dv_capabilities d))
     (throwP Unsupported ''Reset opcode is unverified on this device model'')
     (callP E ip_reset))"

definition device_factoryReset :: "'t Env \<Rightarrow> ('t Device, unit) prog" where
  "device_factoryReset E = withProtocol (ifP (\<lambda>d. \<not> cap_factoryReset (dv_capabilities d))
     (throwP Unsupported ''Factory reset opcode is unverified on this device model'')
     (callP E ip_factoryReset))"

section \<open>Connecting\<close>

definition staleFeatures :: "(string \<rightharpoonup> FeatureStatus) \<Rightarrow> (string \<rightharpoonup> FeatureStatus)" where
  "staleFeatures m = (\<lambda>k. map_option (\<lambda>st. if fs_availability st = ''valid''
      then st\<lparr>fs_availability := ''stale''\<rparr> else st) (m k))"

definition device_disconnect :: "'t Env \<Rightarrow> 't Device \<Rightarrow> 't Device" where
  "device_disconnect E d =
     (let d1 = d\<lparr>dv_session := map_option (session_disconnect (en_T E)) (dv_session d)\<rparr>;
          d2 = (case theTransport d1 of
                  Some t \<Rightarrow> if t_isConnected (en_T E) t then putTransport (Some (t_disconnect (en_T E) t)) d1 else d1
                | None \<Rightarrow> d1);
          d3 = d2\<lparr>dv_state := (dv_state d2)\<lparr>ds_features := staleFeatures (ds_features (dv_state d2))\<rparr>\<rparr>
      in dispatchD (ConnectionChanged False '''') d3)"

text \<open>Every data payload handed to the transport, with the profile of its session.\<close>

definition dv_sent :: "'t Device \<Rightarrow> (DeviceProfile \<times> u8 list) list" where
  "dv_sent d = dv_past d @
     (case dv_session d of Some s \<Rightarrow> map (Pair (dv_label d)) (mdrSent s) | None \<Rightarrow> [])"

text \<open>\<open>_protocol.reset(); _session.reset();\<close>, the latter with the session's destructor.\<close>

definition dropSession :: "'t Env \<Rightarrow> 't Device \<Rightarrow> 't Device" where
  "dropSession E d =
     (case dv_session d of
        None \<Rightarrow> d\<lparr>dv_protocol := None\<rparr>
      | Some s \<Rightarrow> d\<lparr>dv_protocol := None, dv_past := dv_sent d, dv_session := None,
                    dv_transport := ss_transport (session_disconnect (en_T E) s)\<rparr>)"

definition initialFeatures :: "DeviceCapabilities \<Rightarrow> string \<rightharpoonup> FeatureStatus" where
  "initialFeatures c = map_of (map (\<lambda>(name, supported). (name,
       defaultFeature\<lparr>fs_availability := (if supported then ''unknown'' else ''unsupported'')\<rparr>))
     [(''battery'', cap_battery c), (''noiseControl'', cap_noiseCancelling c \<or> cap_ambientSound c),
      (''equalizer'', cap_equalizer c), (''dsee'', cap_dsee c), (''codec'', cap_codecInfo c),
      (''firmware'', cap_firmwareInfo c), (''speakToChat'', cap_speakToChat c),
      (''adaptiveVolume'', cap_adaptiveVolume c), (''autoPowerOff'', cap_autoPowerOff c)])"

definition setupSession :: "'t Env \<Rightarrow> ('t Device, unit) prog" where
  "setupSession E d =
     (let s = onNotification (Some 0) (newSession (dv_transport d));
          (r, s') = session_start (en_T E) s
      in (r, d\<lparr>dv_session := Some s', dv_protocol := Some (dv_version d), dv_label := dv_profile d\<rparr>))"

definition selectProfile :: "string \<Rightarrow> 't Device \<Rightarrow> 't Device" where
  "selectProfile name d =
     (let prof = getProfileForDevice name
      in d\<lparr>dv_profile := prof, dv_capabilities := pf_capabilities prof, dv_version := pf_protocol prof,
           dv_name := (if name = [] then to_string_model (pf_model prof) else name)\<rparr>)"

definition prepareConnect :: "'t Env \<Rightarrow> string \<Rightarrow> 't Device \<Rightarrow> 't Device" where
  "prepareConnect E name d =
     (let d1 = selectProfile name (if device_isConnected E d then device_disconnect E d else d);
          d2 = dropSession E d1
      in d2\<lparr>dv_state := defaultState\<lparr>ds_features := initialFeatures (dv_capabilities d2)\<rparr>, dv_refreshStep := 0\<rparr>)"

definition device_connect :: "'t Env \<Rightarrow> string \<Rightarrow> string \<Rightarrow> ('t Device, unit) prog" where
  "device_connect E address name d =
     (if theTransport d = None then (Inl (SonyException TransportFailure ''No transport configured''), d)
      else let d1 = prepareConnect E name d in
        case dv_transport d1 of
          None \<Rightarrow> (Inl (SonyException TransportFailure ''No transport configured''), d1)
        | Some t \<Rightarrow>
            (case t_connect (en_T E) address t of
               (Inl e, t') \<Rightarrow> (Inl e, d1\<lparr>dv_transport := Some t'\<rparr>)
             | (Inr _, t') \<Rightarrow>
                 bindP (setupSession E) (\<lambda>_.
                   bindP (catchSony (callP E ip_initDevice) (\<lambda>_ _. returnP ())) (\<lambda>_.
                     bindP (device_refreshAll E) (\<lambda>_.
                       modifyP (dispatchD (ConnectionChanged True address)))))
                   (d1\<lparr>dv_transport := Some t'\<rparr>)))"

section \<open>What reaches the headset\<close>

text \<open>While a protocol object exists, it is the one of the current profile, the session was
  set up for that profile, and the capabilities in force are its capabilities.\<close>

definition deviceInv :: "'t Device \<Rightarrow> bool" where
  "deviceInv d \<longleftrightarrow> (dv_protocol d = None \<or>
     dv_session d \<noteq> None \<and> dv_protocol d = Some (pf_protocol (dv_profile d)) \<and>
     dv_label d = dv_profile d \<and> dv_capabilities d = pf_capabilities (dv_profile d) \<and>
     dv_profile d \<in> range getProfileForDevice)"

text \<open>What may be sent on behalf of a profile.\<close>

definition sendOk :: "DeviceProfile \<times> u8 list \<Rightarrow> bool" where
  "sendOk = (\<lambda>(prof, p). prof \<in> range getProfileForDevice \<and>
     (pf_protocol prof = V1 \<longrightarrow> v1Safe p) \<and>
     (p = resetPayload \<longrightarrow> cap_reset (pf_capabilities prof)) \<and>
     (p = factoryResetPayload \<longrightarrow> cap_factoryReset (pf_capabilities prof)))"

text \<open>And without wiping the pairing; and without any reset.\<close>

definition noWipe :: "DeviceProfile \<times> u8 list \<Rightarrow> bool" where
  "noWipe = (\<lambda>x. sendOk x \<and> snd x \<noteq> factoryResetPayload)"

definition calmOk :: "DeviceProfile \<times> u8 list \<Rightarrow> bool" where
  "calmOk = (\<lambda>x. noWipe x \<and> snd x \<noteq> resetPayload)"

lemma calmOk_noWipe: "calmOk x \<Longrightarrow> noWipe x"
  by (simp add: calmOk_def)

lemma noWipe_sendOk: "noWipe x \<Longrightarrow> sendOk x"
  by (simp add: noWipe_def)

definition protoSafe :: "SonyProtocolVersion \<Rightarrow> u8 list \<Rightarrow> bool" where
  "protoSafe v = (if v = V1 then v1Safe else v2Calm)"

lemma v1_without_resets:
  "iprotocol_laws (protocolV1 L) sent ok \<Longrightarrow> iprotocol_laws (withoutResets (protocolV1 L)) sent ok"
  by (simp add: iprotocol_laws_def withoutResets_def emits_return)

lemma protocolFor_laws: "iprotocol_laws (withoutResets (protocolFor E v)) mdrSent (protoSafe v)"
  by (simp add: protocolFor_def protoSafe_def Let_def v1_without_resets [OF sess.v1_laws] sess.v2_laws)

interpretation dev: iprotocol_laws "withoutResets (protocolFor E v)" mdrSent "protoSafe v" for E v
  by (rule protocolFor_laws)

lemma withoutResets_ops:
  "ip_initDevice (withoutResets P) = ip_initDevice P"
  "ip_getBattery (withoutResets P) = ip_getBattery P"
  "ip_getNoiseControl (withoutResets P) = ip_getNoiseControl P"
  "ip_setNoiseControl (withoutResets P) = ip_setNoiseControl P"
  "ip_getEqualizer (withoutResets P) = ip_getEqualizer P"
  "ip_setEqualizerPreset (withoutResets P) = ip_setEqualizerPreset P"
  "ip_setEqualizerCustom (withoutResets P) = ip_setEqualizerCustom P"
  "ip_getDsee (withoutResets P) = ip_getDsee P"
  "ip_setDsee (withoutResets P) = ip_setDsee P"
  "ip_getFirmwareVersion (withoutResets P) = ip_getFirmwareVersion P"
  "ip_getCodec (withoutResets P) = ip_getCodec P"
  "ip_getAutoPowerOff (withoutResets P) = ip_getAutoPowerOff P"
  "ip_setAutoPowerOff (withoutResets P) = ip_setAutoPowerOff P"
  "ip_getSpeakToChat (withoutResets P) = ip_getSpeakToChat P"
  "ip_setSpeakToChat (withoutResets P) = ip_setSpeakToChat P"
  "ip_getAdaptiveVolume (withoutResets P) = ip_getAdaptiveVolume P"
  "ip_setAdaptiveVolume (withoutResets P) = ip_setAdaptiveVolume P"
  by (simp_all add: withoutResets_def)

lemmas device_emits =
  dev.emits_initDevice [unfolded withoutResets_ops]
  dev.emits_getBattery [unfolded withoutResets_ops]
  dev.emits_getNoiseControl [unfolded withoutResets_ops]
  dev.emits_setNoiseControl [unfolded withoutResets_ops]
  dev.emits_getEqualizer [unfolded withoutResets_ops]
  dev.emits_setEqualizerPreset [unfolded withoutResets_ops]
  dev.emits_setEqualizerCustom [unfolded withoutResets_ops]
  dev.emits_getDsee [unfolded withoutResets_ops]
  dev.emits_setDsee [unfolded withoutResets_ops]
  dev.emits_getFirmwareVersion [unfolded withoutResets_ops]
  dev.emits_getCodec [unfolded withoutResets_ops]
  dev.emits_getAutoPowerOff [unfolded withoutResets_ops]
  dev.emits_setAutoPowerOff [unfolded withoutResets_ops]
  dev.emits_getSpeakToChat [unfolded withoutResets_ops]
  dev.emits_setSpeakToChat [unfolded withoutResets_ops]
  dev.emits_getAdaptiveVolume [unfolded withoutResets_ops]
  dev.emits_setAdaptiveVolume [unfolded withoutResets_ops]

text \<open>Bookkeeping neither sends nor changes who is being spoken to.\<close>

definition sameLink :: "'t Device \<Rightarrow> 't Device \<Rightarrow> bool" where
  "sameLink d d' \<longleftrightarrow> dv_session d' = dv_session d \<and> dv_protocol d' = dv_protocol d \<and>
     dv_profile d' = dv_profile d \<and> dv_capabilities d' = dv_capabilities d \<and>
     dv_label d' = dv_label d \<and> dv_past d' = dv_past d \<and> dv_version d' = dv_version d \<and>
     dv_transport d' = dv_transport d"

lemma sameLink_refl [simp]: "sameLink d d"
  by (simp add: sameLink_def)

lemma sameLink_trans: "sameLink a b \<Longrightarrow> sameLink b c \<Longrightarrow> sameLink a c"
  by (simp add: sameLink_def)

lemma sameLink_inv: "sameLink d d' \<Longrightarrow> deviceInv d' = deviceInv d \<and> dv_sent d' = dv_sent d"
  by (auto simp: sameLink_def deviceInv_def dv_sent_def split: option.split)

lemma sameLink_dispatch [simp]: "sameLink d (dispatchD e d)"
  by (simp add: sameLink_def dispatchD_def)

lemma sameLink_dispatches: "sameLink d (fold dispatchD es d)"
  by (induction es arbitrary: d) (auto intro: sameLink_trans sameLink_dispatch)

lemma sameLink_store: "sameLink d (storeFeature E feature u evs d)"
proof -
  have "sameLink d (markSuccess E feature (d\<lparr>dv_state := u (dv_state d)\<rparr>))"
    by (simp add: sameLink_def markSuccess_def)
  then show ?thesis unfolding storeFeature_def Let_def
    by (rule sameLink_trans) (rule sameLink_dispatches)
qed

lemma sameLink_error: "sameLink d (markError feature c w d)"
  by (simp add: sameLink_def markError_def Let_def)

lemma sameLink_note: "sameLink d (device_onNotification E f d)"
  by (simp add: device_onNotification_def sameLink_store Let_def split: prod.split bool.split)

lemma sameLink_notes: "sameLink d (fold (\<lambda>(cb, f). device_onNotification E f) fs d)"
  by (induction fs arbitrary: d) (auto intro: sameLink_trans sameLink_note)

text \<open>So it may be added to a program at will.\<close>

lemma safe_store [emits_intros]: "safeP deviceInv dv_sent calmOk (modifyP (storeFeature E feature u evs))"
  using sameLink_inv [OF sameLink_store] by (intro emits_modify) blast+

lemma safe_error [emits_intros]: "safeP deviceInv dv_sent calmOk (modifyP (markError feature c w))"
  using sameLink_inv [OF sameLink_error] by (intro emits_modify) blast+

lemma safe_dispatch [emits_intros]: "safeP deviceInv dv_sent calmOk (modifyP (\<lambda>d. dispatchD (e d) d))"
  using sameLink_inv [OF sameLink_dispatch] by (intro emits_modify) blast+

lemma absorb_effect:
  assumes "deviceInv d" "dv_protocol d = Some v" "dv_session d = Some s"
    and "mdrSent s' = mdrSent s @ ps"
  shows "deviceInv (absorb E s s' d) \<and> dv_sent (absorb E s s' d) = dv_sent d @ map (Pair (dv_profile d)) ps"
proof -
  have "sameLink (d\<lparr>dv_session := Some s'\<rparr>) (absorb E s s' d)"
    by (simp add: absorb_def sameLink_notes)
  from sameLink_inv [OF this] assms show ?thesis
    by (auto simp: deviceInv_def dv_sent_def)
qed

text \<open>A call is safe when what it may send is allowed for the current profile.\<close>

lemma callP_effect:
  assumes inv: "deviceInv d" and em: "emits mdrSent ok (f (protocolFor E (pf_protocol (dv_profile d))))"
    and ok: "\<And>p. ok p \<Longrightarrow> dvok (dv_profile d, p)"
  shows "deviceInv (snd (callP E f d)) \<and>
    (\<exists>xs. dv_sent (snd (callP E f d)) = dv_sent d @ xs \<and> list_all dvok xs)"
proof (cases "dv_protocol d")
  case None
  with inv show ?thesis by (simp add: callP_def)
next
  case (Some v)
  with inv obtain s where s: "dv_session d = Some s" and v: "v = pf_protocol (dv_profile d)"
    by (auto simp: deviceInv_def)
  obtain r s' where run: "f (protocolFor E v) s = (r, s')" by fastforce
  with em v obtain ps where ps: "mdrSent s' = mdrSent s @ ps" "list_all ok ps"
    by (auto elim: emits_step)
  from absorb_effect [OF inv Some s ps(1), of E] ps(2) ok show ?thesis
    by (auto simp: callP_def Some s run list_all_iff)
qed

lemma protoSafe_ok:
  "deviceInv d \<Longrightarrow> dv_protocol d \<noteq> None \<Longrightarrow> protoSafe (pf_protocol (dv_profile d)) p \<Longrightarrow> calmOk (dv_profile d, p)"
  by (cases "pf_protocol (dv_profile d)") (auto simp: deviceInv_def calmOk_def noWipe_def sendOk_def protoSafe_def v1Safe_def v2Calm_def)

lemma safe_callP [emits_intros]:
  assumes "\<And>v. emits mdrSent (protoSafe v) (f (protocolFor E v))"
  shows "safeP deviceInv dv_sent calmOk (callP E f)"
  unfolding safeP_def
proof (intro allI impI)
  fix d :: "'a Device" assume inv: "deviceInv d"
  show "deviceInv (snd (callP E f d)) \<and>
    (\<exists>xs. dv_sent (snd (callP E f d)) = dv_sent d @ xs \<and> list_all calmOk xs)"
  proof (cases "dv_protocol d = None")
    case True
    with inv show ?thesis by (simp add: callP_def)
  next
    case False
    show ?thesis
      using inv assms protoSafe_ok [OF inv False]
      by (rule callP_effect [where ok = "protoSafe (pf_protocol (dv_profile d))"])
  qed
qed

lemma safe_withProtocol [emits_intros]:
  "safeP deviceInv dv_sent calmOk m \<Longrightarrow> safeP deviceInv dv_sent calmOk (withProtocol m)"
  unfolding withProtocol_def by (intro emits_intros)

section \<open>Every operation is safe\<close>

lemma safe_refresh [emits_intros]:
  "safeP deviceInv dv_sent calmOk (device_refreshBattery E)"
  "safeP deviceInv dv_sent calmOk (device_refreshNoiseControl E)"
  "safeP deviceInv dv_sent calmOk (device_refreshEqualizer E)"
  "safeP deviceInv dv_sent calmOk (device_refreshDsee E)"
  unfolding device_refreshBattery_def device_refreshNoiseControl_def device_refreshEqualizer_def
    device_refreshDsee_def
  by (intro emits_intros device_emits)+

lemma safe_refreshAll [emits_intros]: "safeP deviceInv dv_sent calmOk (device_refreshAll E)"
  unfolding device_refreshAll_def by (intro emits_intros)

lemma safe_settingStep:
  assumes "\<And>v. emits mdrSent (protoSafe v) (get (protocolFor E v))"
  shows "safeP deviceInv dv_sent calmOk (settingStep E feature get missing upd)"
proof -
  have "safeP deviceInv dv_sent calmOk (case missing v of Some w \<Rightarrow> throwP InvalidResponse w
      | None \<Rightarrow> modifyP (storeFeature E feature (upd v) (\<lambda>_. [])))" for v
    by (cases "missing v") (simp_all add: emits_throw safe_store)
  then show ?thesis unfolding settingStep_def by (intro emits_intros assms)
qed

lemma safe_settingAction [emits_intros]: "safeP deviceInv dv_sent calmOk (settingAction E step c)"
  unfolding settingAction_def by (intro emits_if safe_settingStep device_emits emits_return)

lemma deviceInv_step:
  "deviceInv (d\<lparr>dv_refreshStep := n\<rparr>) = deviceInv d" "dv_sent (d\<lparr>dv_refreshStep := n\<rparr>) = dv_sent d"
  by (simp_all add: deviceInv_def dv_sent_def cong: option.case_cong)

lemma safe_refreshSettingsStep [emits_intros]:
  "safeP deviceInv dv_sent calmOk (device_refreshSettingsStep E)"
  unfolding safeP_def
proof (intro allI impI)
  fix d :: "'a Device" assume inv: "deviceInv d"
  let ?d = "d\<lparr>dv_refreshStep := dv_refreshStep d + 1\<rparr>" and ?step = "dv_refreshStep d mod 9"
  let ?m = "if ?step = 0 then device_refreshNoiseControl E else if ?step = 1 then device_refreshEqualizer E
    else if ?step = 2 then device_refreshDsee E
    else bindP (settingAction E ?step (dv_capabilities d)) (\<lambda>_. modifyP (\<lambda>d. dispatchD (DeviceStateChanged (dv_state d)) d))"
  have "safeP deviceInv dv_sent calmOk ?m" by (intro emits_intros)
  from emits_then [OF this, of ?d d "[]"] inv
  have "deviceInv (snd (?m ?d)) \<and> (\<exists>xs. dv_sent (snd (?m ?d)) = dv_sent d @ xs \<and> list_all calmOk xs)"
    by (simp only: deviceInv_step append_Nil2 list.pred_inject simp_thms)
  moreover have "device_refreshSettingsStep E d =
      (if dv_protocol d = None \<or> \<not> device_isConnected E d then (Inr (), d) else ?m ?d)"
    by (simp add: device_refreshSettingsStep_def Let_def del: bindP_def)
  ultimately show "deviceInv (snd (device_refreshSettingsStep E d)) \<and>
      (\<exists>xs. dv_sent (snd (device_refreshSettingsStep E d)) = dv_sent d @ xs \<and> list_all calmOk xs)"
    using inv by (cases "dv_protocol d = None \<or> \<not> device_isConnected E d") auto
qed

lemma safe_controls [emits_intros]:
  "safeP deviceInv dv_sent calmOk (device_setNoiseControl E nc)"
  "safeP deviceInv dv_sent calmOk (device_setEqualizerPreset E i)"
  "safeP deviceInv dv_sent calmOk (device_setEqualizerCustom E i bands)"
  "safeP deviceInv dv_sent calmOk (device_setDsee E b)"
  "safeP deviceInv dv_sent calmOk (device_setAutoPowerOff E i)"
  "safeP deviceInv dv_sent calmOk (device_setSpeakToChat E b)"
  "safeP deviceInv dv_sent calmOk (device_setAdaptiveVolume E b)"
  unfolding device_setNoiseControl_def device_setEqualizerPreset_def device_setEqualizerCustom_def
    device_setDsee_def device_setAutoPowerOff_def device_setSpeakToChat_def device_setAdaptiveVolume_def
  by (intro emits_intros device_emits)+

lemma safe_anc [emits_intros]:
  "safeP deviceInv dv_sent calmOk (device_setAnc E b)"
  "safeP deviceInv dv_sent calmOk (device_setAmbient E i b)"
  unfolding device_setAnc_def device_setAmbient_def by (intro emits_intros)+

text \<open>The resets, behind their capability.\<close>

lemma reset_emits:
  "emits mdrSent (\<lambda>p. v = V2 \<and> p = resetPayload) (ip_reset (protocolFor E v))"
  "emits mdrSent (\<lambda>p. v = V2 \<and> p = factoryResetPayload) (ip_factoryReset (protocolFor E v))"
proof -
  show "emits mdrSent (\<lambda>p. v = V2 \<and> p = resetPayload) (ip_reset (protocolFor E v))"
    by (cases v; simp only: protocolFor_def Let_def protocolV1_def protocolV2_def IProtocol.simps simp_thms
        if_True if_False SonyProtocolVersion.distinct emits_throw sess.v2_reset_sends)
  show "emits mdrSent (\<lambda>p. v = V2 \<and> p = factoryResetPayload) (ip_factoryReset (protocolFor E v))"
    by (cases v; simp only: protocolFor_def Let_def protocolV1_def protocolV2_def IProtocol.simps simp_thms
        if_True if_False SonyProtocolVersion.distinct emits_throw sess.v2_factoryReset_sends)
qed

lemma reset_guarded:
  assumes "\<And>v. emits mdrSent (\<lambda>p. v = V2 \<and> p = q) (f (protocolFor E v))"
    and "\<And>prof. prof \<in> range getProfileForDevice \<Longrightarrow> pf_protocol prof = V2 \<Longrightarrow>
      cap (pf_capabilities prof) \<Longrightarrow> dvok (prof, q)"
  shows "safeP deviceInv dv_sent dvok
    (withProtocol (ifP (\<lambda>d. \<not> cap (dv_capabilities d)) (throwP c w) (callP E f)))"
  unfolding safeP_def
proof (intro allI impI)
  fix d :: "'a Device" assume inv: "deviceInv d"
  let ?m = "withProtocol (ifP (\<lambda>d. \<not> cap (dv_capabilities d)) (throwP c w) (callP E f))"
  show "deviceInv (snd (?m d)) \<and> (\<exists>xs. dv_sent (snd (?m d)) = dv_sent d @ xs \<and> list_all dvok xs)"
  proof (cases "dv_protocol d \<noteq> None \<and> cap (dv_capabilities d)")
    case True
    with inv have "deviceInv (snd (callP E f d)) \<and>
        (\<exists>xs. dv_sent (snd (callP E f d)) = dv_sent d @ xs \<and> list_all dvok xs)"
      using assms by (intro callP_effect [where ok = "\<lambda>p. pf_protocol (dv_profile d) = V2 \<and> p = q"])
        (auto simp: deviceInv_def)
    with True show ?thesis by (auto simp: withProtocol_def ifP_def)
  next
    case False
    with inv show ?thesis by (auto simp: withProtocol_def ifP_def)
  qed
qed

lemma safe_reset [emits_intros]:
  "safeP deviceInv dv_sent noWipe (device_reset E)"
  "safeP deviceInv dv_sent sendOk (device_factoryReset E)"
proof -
  show "safeP deviceInv dv_sent noWipe (device_reset E)"
    unfolding device_reset_def by (rule reset_guarded [OF reset_emits(1)]) (simp add: noWipe_def sendOk_def)
  show "safeP deviceInv dv_sent sendOk (device_factoryReset E)"
    unfolding device_factoryReset_def by (rule reset_guarded [OF reset_emits(2)]) (simp add: sendOk_def)
qed

section \<open>Connecting is safe\<close>

lemma mdrSent_local [simp]:
  "mdrSent (session_disconnect T s) = mdrSent s" "mdrSent (s\<lparr>ss_transport := t\<rparr>) = mdrSent s"
  "mdrSent (snd (session_start T s)) = mdrSent s" "mdrSent (onNotification cb s) = mdrSent s"
  "mdrSent (newSession t) = []"
  by (simp_all add: mdrSent_def session_disconnect_def clearSession_def session_start_def
      onNotification_def newSession_def split: option.split)

lemma mdrSent_reads [simp]: "mdrSent ((readerStep T ^^ n) s) = mdrSent s"
  by (induction n) simp_all

lemma putTransport_effect: "deviceInv (putTransport t d) = deviceInv d \<and> dv_sent (putTransport t d) = dv_sent d"
  by (auto simp: putTransport_def deviceInv_def dv_sent_def split: option.split)

lemma disconnect_effects:
  "deviceInv (device_disconnect E d) = deviceInv d \<and> dv_sent (device_disconnect E d) = dv_sent d"
proof -
  let ?d1 = "d\<lparr>dv_session := map_option (session_disconnect (en_T E)) (dv_session d)\<rparr>"
  have d1: "deviceInv ?d1 = deviceInv d" "dv_sent ?d1 = dv_sent d"
    by (auto simp: deviceInv_def dv_sent_def split: option.split)
  define d2 where "d2 = (case theTransport ?d1 of
      Some t \<Rightarrow> if t_isConnected (en_T E) t then putTransport (Some (t_disconnect (en_T E) t)) ?d1 else ?d1
    | None \<Rightarrow> ?d1)"
  have d2: "deviceInv d2 = deviceInv d" "dv_sent d2 = dv_sent d"
    unfolding d2_def using d1 by (simp_all add: putTransport_effect split: option.split)
  let ?d3 = "d2\<lparr>dv_state := (dv_state d2)\<lparr>ds_features := staleFeatures (ds_features (dv_state d2))\<rparr>\<rparr>"
  have "device_disconnect E d = dispatchD (ConnectionChanged False []) ?d3"
    by (simp only: device_disconnect_def Let_def d2_def)
  moreover have "sameLink d2 (dispatchD (ConnectionChanged False []) ?d3)"
    by (rule sameLink_trans [OF _ sameLink_dispatch]) (simp add: sameLink_def)
  ultimately show ?thesis using sameLink_inv d2 by metis
qed

lemma disconnect_effect:
  "deviceInv d \<Longrightarrow> deviceInv (device_disconnect E d) \<and> dv_sent (device_disconnect E d) = dv_sent d"
  by (simp add: disconnect_effects)

lemma read_effect:
  "deviceInv d \<Longrightarrow> deviceInv (deviceRead E n d) \<and> dv_sent (deviceRead E n d) = dv_sent d"
proof (cases "dv_session d")
  case None
  then show "deviceInv d \<Longrightarrow> ?thesis" by (simp add: deviceRead_def)
next
  case (Some s)
  let ?s = "(readerStep (en_T E) ^^ n) s"
  have "sameLink (d\<lparr>dv_session := Some ?s\<rparr>) (absorb E s ?s d)" by (simp add: absorb_def sameLink_notes)
  from sameLink_inv [OF this] Some show "deviceInv d \<Longrightarrow> ?thesis"
    by (auto simp: deviceRead_def deviceInv_def dv_sent_def)
qed

text \<open>The device between dropping the old session and opening the new one.\<close>

lemma prepareConnect_effect:
  assumes "deviceInv d" and d1: "d1 = prepareConnect E name d"
  shows "dv_session d1 = None" "dv_protocol d1 = None" "dv_sent d1 = dv_sent d"
    "dv_profile d1 = getProfileForDevice name" "dv_version d1 = pf_protocol (getProfileForDevice name)"
    "dv_capabilities d1 = pf_capabilities (getProfileForDevice name)"
proof -
  let ?d0 = "if device_isConnected E d then device_disconnect E d else d"
  have sent: "dv_sent ?d0 = dv_sent d" using disconnect_effect [OF assms(1), of E] by simp
  have sel: "dv_sent (selectProfile name d') = dv_sent d'" for d' :: "'a Device"
    by (auto simp: selectProfile_def dv_sent_def Let_def split: option.split)
  have drop: "dv_sent (dropSession E d') = dv_sent d'" "dv_session (dropSession E d') = None" for d' :: "'a Device"
    by (auto simp: dropSession_def dv_sent_def split: option.split)
  have state: "dv_sent (d'\<lparr>dv_state := a, dv_refreshStep := b\<rparr>) = dv_sent d'" for d' :: "'a Device" and a b
    by (auto simp: dv_sent_def split: option.split)
  show "dv_sent d1 = dv_sent d"
    unfolding d1 prepareConnect_def Let_def by (simp only: state drop sel sent)
  show "dv_session d1 = None" "dv_protocol d1 = None" "dv_profile d1 = getProfileForDevice name"
    "dv_version d1 = pf_protocol (getProfileForDevice name)"
    "dv_capabilities d1 = pf_capabilities (getProfileForDevice name)"
    unfolding d1 prepareConnect_def Let_def
    by (simp_all add: dropSession_def selectProfile_def Let_def split: option.split)
qed

lemma setup_effect:
  assumes "dv_session d = None" "dv_version d = pf_protocol (dv_profile d)"
    and "dv_capabilities d = pf_capabilities (dv_profile d)" "dv_profile d \<in> range getProfileForDevice"
  shows "deviceInv (snd (setupSession E d)) \<and> dv_sent (snd (setupSession E d)) = dv_sent d"
proof -
  have "mdrSent (snd (session_start (en_T E) (onNotification (Some 0) (newSession (dv_transport d))))) = []"
    by simp
  then show ?thesis using assms
    by (auto simp: setupSession_def deviceInv_def dv_sent_def Let_def case_prod_unfold)
qed

lemma safe_connect [emits_intros]: "safeP deviceInv dv_sent calmOk (device_connect E address name)"
  unfolding safeP_def
proof (intro allI impI)
  fix d :: "'a Device" assume inv: "deviceInv d"
  let ?d1 = "prepareConnect E name d"
  let ?rest = "\<lambda>_. bindP (catchSony (callP E ip_initDevice) (\<lambda>_ _. returnP ())) (\<lambda>_.
      bindP (device_refreshAll E) (\<lambda>_. modifyP (dispatchD (ConnectionChanged True address))))"
  note p = prepareConnect_effect [OF inv refl, of E name]
  have rest: "safeP deviceInv dv_sent calmOk (?rest ())"
    by (intro emits_intros device_emits)
  have none: "deviceInv ?d1 \<and> (\<exists>xs. dv_sent ?d1 = dv_sent d @ xs \<and> list_all calmOk xs)"
    using p(2,3) by (auto simp: deviceInv_def)
  have upd: "deviceInv (?d1\<lparr>dv_transport := t'\<rparr>) \<and> dv_sent (?d1\<lparr>dv_transport := t'\<rparr>) = dv_sent d" for t'
    using p(1-3) by (auto simp: deviceInv_def dv_sent_def)
  have ok: "deviceInv (snd (bindP (setupSession E) ?rest (?d1\<lparr>dv_transport := t'\<rparr>))) \<and>
     (\<exists>xs. dv_sent (snd (bindP (setupSession E) ?rest (?d1\<lparr>dv_transport := t'\<rparr>))) = dv_sent d @ xs \<and>
       list_all calmOk xs)" for t'
  proof -
    obtain r d2 where s: "setupSession E (?d1\<lparr>dv_transport := t'\<rparr>) = (r, d2)" by fastforce
    with setup_effect [of "?d1\<lparr>dv_transport := t'\<rparr>" E] upd [of t'] p(1,4-6)
    have d2: "deviceInv d2" "dv_sent d2 = dv_sent d @ []" by auto
    from emits_then [OF rest d2] d2 show ?thesis
      by (cases r) (auto simp: bindP_def [of "setupSession E"] s)
  qed
  show "deviceInv (snd (device_connect E address name d)) \<and>
    (\<exists>xs. dv_sent (snd (device_connect E address name d)) = dv_sent d @ xs \<and> list_all calmOk xs)"
    unfolding device_connect_def Let_def using inv none upd ok
    by (auto split: option.split prod.split sum.split)
qed

section \<open>Any use of the device\<close>

text \<open>The public operations, as data.\<close>

datatype DeviceCall =
    CConnect string string | CDisconnect | CRead nat
  | CRefreshAll | CRefreshBattery | CRefreshNoiseControl | CRefreshEqualizer | CRefreshDsee
  | CRefreshSettingsStep
  | CSetNoiseControl NoiseControlState | CSetAnc bool | CSetAmbient int bool
  | CSetEqualizerPreset int | CSetEqualizerCustom int "int list" | CSetDsee bool
  | CSetAutoPowerOff int | CSetSpeakToChat bool | CSetAdaptiveVolume bool
  | CReset | CFactoryReset

fun runCall :: "'t Env \<Rightarrow> DeviceCall \<Rightarrow> ('t Device, unit) prog" where
  "runCall E (CConnect a n) = device_connect E a n"
| "runCall E CDisconnect = modifyP (device_disconnect E)"
| "runCall E (CRead n) = modifyP (deviceRead E n)"
| "runCall E CRefreshAll = device_refreshAll E"
| "runCall E CRefreshBattery = device_refreshBattery E"
| "runCall E CRefreshNoiseControl = device_refreshNoiseControl E"
| "runCall E CRefreshEqualizer = device_refreshEqualizer E"
| "runCall E CRefreshDsee = device_refreshDsee E"
| "runCall E CRefreshSettingsStep = device_refreshSettingsStep E"
| "runCall E (CSetNoiseControl nc) = device_setNoiseControl E nc"
| "runCall E (CSetAnc b) = device_setAnc E b"
| "runCall E (CSetAmbient i b) = device_setAmbient E i b"
| "runCall E (CSetEqualizerPreset i) = device_setEqualizerPreset E i"
| "runCall E (CSetEqualizerCustom i bs) = device_setEqualizerCustom E i bs"
| "runCall E (CSetDsee b) = device_setDsee E b"
| "runCall E (CSetAutoPowerOff i) = device_setAutoPowerOff E i"
| "runCall E (CSetSpeakToChat b) = device_setSpeakToChat E b"
| "runCall E (CSetAdaptiveVolume b) = device_setAdaptiveVolume E b"
| "runCall E CReset = device_reset E"
| "runCall E CFactoryReset = device_factoryReset E"

text \<open>One call after the other, whatever each throws.\<close>

fun runCalls :: "'t Env \<Rightarrow> DeviceCall list \<Rightarrow> 't Device \<Rightarrow> 't Device" where
  "runCalls E [] d = d"
| "runCalls E (c # cs) d = runCalls E cs (snd (runCall E c d))"

lemma safe_disconnect [emits_intros]: "safeP deviceInv dv_sent ok (modifyP (device_disconnect E))"
  using disconnect_effect by (auto simp: safeP_def modifyP_def)

lemma safe_read [emits_intros]: "safeP deviceInv dv_sent ok (modifyP (deviceRead E n))"
  using read_effect by (auto simp: safeP_def modifyP_def)

lemma safe_runCall_wipeless:
  assumes "c \<noteq> CFactoryReset"
  shows "safeP deviceInv dv_sent noWipe (runCall E c)"
proof (cases "c = CReset")
  case True
  then show ?thesis by (simp add: emits_intros)
next
  case False
  with assms have "safeP deviceInv dv_sent calmOk (runCall E c)"
    by (cases c) (simp_all add: emits_intros)
  then show ?thesis by (rule emits_mono) (rule calmOk_noWipe)
qed

lemma safe_runCall: "safeP deviceInv dv_sent sendOk (runCall E c)"
proof (cases "c = CFactoryReset")
  case True
  then show ?thesis by (simp add: emits_intros)
next
  case False
  from safe_runCall_wipeless [OF this] show ?thesis by (rule emits_mono) (rule noWipe_sendOk)
qed

lemma runCalls_safe:
  "deviceInv d \<Longrightarrow> list_all sendOk (dv_sent d) \<Longrightarrow> deviceInv (runCalls E cs d) \<and> list_all sendOk (dv_sent (runCalls E cs d))"
proof (induction cs arbitrary: d)
  case (Cons c cs)
  obtain r d' where run: "runCall E c d = (r, d')" by (cases "runCall E c d")
  from safe_runCall run Cons.prems(1) obtain xs where "deviceInv d'" "dv_sent d' = dv_sent d @ xs" "list_all sendOk xs"
    by (rule emits_step)
  with Cons run show ?case by simp
qed simp

text \<open>C2: No headset is ever switched off or wiped by mistake. After any sequence of calls on a
  device, with any transport, any answers, any names, and any errors on the way, every data
  payload ever handed to the transport was sent on behalf of the profile that its device
  name selects, and: to a V1 headset nothing but known V1 commands was sent, never the
  power-off opcode \<open>22\<close>; a reset went only to a profile that allows it, and a factory
  reset likewise, which is the WH-1000XM5.\<close>

theorem device_never_endangers:
  "list_all (\<lambda>(prof, p). (\<exists>n. prof = getProfileForDevice n) \<and>
     (if pf_protocol prof = V1 then p \<noteq> [] \<and> hd p \<in> {0x04, 0x10, 0x18, 0x48, 0x56, 0x58, 0x66, 0x68} else True) \<and>
     (if p = [0xf8, 0x09, 0x00] then cap_reset (pf_capabilities prof) else True) \<and>
     (if p = [0xf8, 0x09, 0x01] then pf_model prof = WH1000XM5 else True))
   (dv_sent (runCalls E cs (newDevice t version)))"
proof -
  have new: "deviceInv (newDevice t version)" "dv_sent (newDevice t version) = []"
    by (simp_all add: newDevice_def deviceInv_def dv_sent_def Let_def)
  have xm5: "pf_model (getProfileForDevice n) = WH1000XM5" if "cap_factoryReset (pf_capabilities (getProfileForDevice n))" for n
    using that profile_guards [unfolded list_all_iff, THEN bspec, OF profileForDevice_member [of n]] by blast
  from runCalls_safe [OF new(1), of E cs] new(2)
  have "list_all sendOk (dv_sent (runCalls E cs (newDevice t version)))" by simp
  then show ?thesis
    by (rule list.pred_mono_strong) (auto simp: sendOk_def v1Safe_def hd_conv_nth dest: xm5)
qed

section \<open>What the operations do to the state\<close>

lemma dispatches_state [simp]: "dv_state (fold dispatchD es d) = dv_state d"
  by (induction es arbitrary: d) (simp_all add: dispatchD_def)

lemma dispatches_log:
  "map fst (dp_log (dv_dispatcher (fold dispatchD es d))) = map fst (dp_log (dv_dispatcher d)) @ es"
  by (induction es arbitrary: d) (simp_all add: dispatchD_def)

lemma store_state:
  "dv_state (storeFeature E feature u evs d) = (u (dv_state d))\<lparr>ds_features := (ds_features (u (dv_state d)))
     (feature \<mapsto> \<lparr>fs_availability = ''valid'', fs_lastSuccessMs = en_clock E (dv_ticks d), fs_error = ''''\<rparr>)\<rparr>"
  by (simp add: storeFeature_def markSuccess_def Let_def)

lemma store_log:
  "map fst (dp_log (dv_dispatcher (storeFeature E feature u evs d)))
   = map fst (dp_log (dv_dispatcher d)) @ evs (dv_state (storeFeature E feature u evs d))"
  by (simp add: storeFeature_def Let_def dispatches_log) (simp add: markSuccess_def)

text \<open>A device after a call, and a setter by the outcome of its call.\<close>

abbreviation afterCall :: "'t Env \<Rightarrow> ('t Session IProtocol \<Rightarrow> ('t Session, 'a) prog) \<Rightarrow> 't Device \<Rightarrow> 't Device" where
  "afterCall E f d \<equiv> snd (callP E f d)"

lemma setter_cases:
  "bindP (callP E f) (\<lambda>_. modifyP g) d =
     (case fst (callP E f d) of Inl e \<Rightarrow> (Inl e, afterCall E f d) | Inr _ \<Rightarrow> (Inr (), g (afterCall E f d)))"
  by (simp add: bindP_def modifyP_def case_prod_unfold split: sum.split)


text \<open>The availability an error leaves.\<close>

definition errorStatus :: "string \<Rightarrow> SonyErrorCode \<Rightarrow> DeviceState \<Rightarrow> string" where
  "errorStatus feature c s = (if c = Unsupported then ''unsupported''
     else if fs_lastSuccessMs (statusOf feature s) \<noteq> 0 then ''stale'' else ''unknown'')"

lemma error_state:
  "dv_state (markError feature c w d) = (dv_state d)\<lparr>ds_features := (ds_features (dv_state d))(feature \<mapsto>
     (statusOf feature (dv_state d))\<lparr>fs_availability := errorStatus feature c (dv_state d), fs_error := w\<rparr>)\<rparr>"
  by (simp add: markError_def errorStatus_def Let_def)

text \<open>A refresh of the battery never shows a value that was not read. It throws only what
  is not a \<open>SonyException\<close>. A reading replaces the battery and marks it valid; an answer
  without any level, or a \<open>SonyException\<close>, keeps the battery as it was and marks the
  feature: unsupported when the protocol says so, stale when it was ever read, unknown
  otherwise, with the message kept and the time of the last success untouched.\<close>

theorem refresh_battery_effect:
  "let d1 = afterCall E ip_getBattery d in case device_refreshBattery E d of (r, d') \<Rightarrow>
    if dv_protocol d = None then r = Inr () \<and> d' = d
    else if cap_battery (dv_capabilities d) = False then r = Inr () \<and> d' = d
    else case fst (callP E ip_getBattery d) of
        Inl (StdException w) \<Rightarrow> r = Inl (StdException w) \<and> d' = d1
      | Inl (SonyException c w) \<Rightarrow> r = Inr () \<and> d' = markError ''battery'' c w d1 \<and>
          ds_battery (dv_state d') = ds_battery (dv_state d1) \<and>
          statusOf ''battery'' (dv_state d') = (statusOf ''battery'' (dv_state d1))
            \<lparr>fs_availability := errorStatus ''battery'' c (dv_state d1), fs_error := w\<rparr>
      | Inr bat \<Rightarrow> r = Inr () \<and>
          (if bt_main bat = None \<and> bt_left bat = None \<and> bt_right bat = None \<and> bt_case bat = None
           then ds_battery (dv_state d') = ds_battery (dv_state d1) \<and>
             fs_availability (statusOf ''battery'' (dv_state d')) \<noteq> ''valid''
           else ds_battery (dv_state d') = bat \<and>
             fs_availability (statusOf ''battery'' (dv_state d')) = ''valid'' \<and>
             fs_lastSuccessMs (statusOf ''battery'' (dv_state d')) = en_clock E (dv_ticks d1))"
  unfolding Let_def
  by (cases "callP E ip_getBattery d")
     (auto simp: device_refreshBattery_def withProtocol_def prog_simps store_state error_state
       errorStatus_def statusOf_def split: sum.split exn.split)

text \<open>After \<open>disconnect\<close> nothing passes for current. The device is disconnected; no
  feature is still marked valid, those that were are stale; every value stays what it was,
  for display; and subscribers are told.\<close>

theorem disconnect_marks_stale:
  "let d' = device_disconnect E d in
    \<not> device_isConnected E d' \<and>
    ''valid'' \<notin> fs_availability ` ran (ds_features (dv_state d')) \<and>
    dom (ds_features (dv_state d')) = dom (ds_features (dv_state d)) \<and>
    (dv_state d')\<lparr>ds_features := ds_features (dv_state d)\<rparr> = dv_state d \<and>
    fst (last (dp_log (dv_dispatcher d'))) = ConnectionChanged False ''''"
proof -
  have one: "fs_availability st \<noteq> ''valid''" if some: "staleFeatures m k = Some st" for m k st
  proof -
    from some obtain st0 where "m k = Some st0"
      and "st = (if fs_availability st0 = ''valid'' then st0\<lparr>fs_availability := ''stale''\<rparr> else st0)"
      unfolding staleFeatures_def map_option_eq_Some by (elim exE conjE) (rule that, assumption, erule sym)
    then show ?thesis by simp
  qed
  have stale: "''valid'' \<notin> fs_availability ` ran (staleFeatures m)" for m
  proof
    assume "''valid'' \<in> fs_availability ` ran (staleFeatures m)"
    then obtain k st where "staleFeatures m k = Some st" "''valid'' = fs_availability st"
      by (auto simp only: ran_def image_iff mem_Collect_eq)
    with one [of m k st] show False by simp
  qed
  have dom: "dom (staleFeatures m) = dom m" for m by (auto simp: staleFeatures_def)
  have put: "dv_state (putTransport t d') = dv_state d'" "dv_dispatcher (putTransport t d') = dv_dispatcher d'" for t and d' :: "'a Device"
    by (simp_all add: putTransport_def split: option.split)
  have off: "\<not> device_isConnected E d'" if "\<forall>s. dv_session d' = Some s \<longrightarrow> \<not> ss_running s" for d'
    using that by (auto simp: device_isConnected_def isConnected_def split: option.split)
  let ?d1 = "d\<lparr>dv_session := map_option (session_disconnect (en_T E)) (dv_session d)\<rparr>"
  define d2 where "d2 = (case theTransport ?d1 of
      Some t \<Rightarrow> if t_isConnected (en_T E) t then putTransport (Some (t_disconnect (en_T E) t)) ?d1 else ?d1
    | None \<Rightarrow> ?d1)"
  have d2: "dv_state d2 = dv_state d" "\<forall>s. dv_session d2 = Some s \<longrightarrow> \<not> ss_running s"
    by (auto simp: d2_def put putTransport_def session_disconnect_def clearSession_def split: option.split)
  have eq: "device_disconnect E d = dispatchD (ConnectionChanged False '''')
      (d2\<lparr>dv_state := (dv_state d2)\<lparr>ds_features := staleFeatures (ds_features (dv_state d2))\<rparr>\<rparr>)"
    by (simp only: device_disconnect_def Let_def d2_def)
  show ?thesis
    unfolding eq Let_def by (auto simp: dispatchD_def dom d2 intro!: off) (use stale in auto)
qed

text \<open>A flaw that the model shows: on V2 an auto-power-off index out of range is not sent
  at all, yet the call succeeds and the device reports it as the current, valid setting.\<close>

theorem out_of_range_power_off_recorded:
  assumes "dv_protocol d = Some V2" "dv_session d = Some s" "index < 0 \<or> 6 \<le> index"
  shows "\<exists>d'. device_setAutoPowerOff E index d = (Inr (), d') \<and> dv_sent d' = dv_sent d \<and>
    ds_autoPowerOff (dv_state d') = index \<and>
    fs_availability (statusOf ''autoPowerOff'' (dv_state d')) = ''valid''"
proof -
  have call: "callP E (\<lambda>P. ip_setAutoPowerOff P index) d = (Inr (), absorb E s s d)"
    using assms by (auto simp: callP_def protocolFor_def Let_def protocolV2_def v2_setAutoPowerOff_def)
  have "sameLink d (absorb E s s d)" using assms(2) by (simp add: absorb_def sameLink_def)
  then have "dv_sent (absorb E s s d) = dv_sent d" using sameLink_inv by blast
  with assms(1) show ?thesis
    by (simp add: device_setAutoPowerOff_def withProtocol_def ifP_def setter_cases call
        sameLink_inv [OF sameLink_store] store_state statusOf_def)
qed

theorem out_of_range_power_off_recorded_witness:
  "\<exists>d'. device_setAutoPowerOff \<lparr>en_T = fake_ops, en_polls = \<lambda>_. 5, en_clock = int\<rparr> 42
      ((newDevice None V1)\<lparr>dv_protocol := Some V2, dv_session := Some (fakeSession [])\<rparr>) = (Inr (), d') \<and>
    ds_autoPowerOff (dv_state d') = 42"
  using out_of_range_power_off_recorded [of "(newDevice None V1)\<lparr>dv_protocol := Some V2, dv_session := Some (fakeSession [])\<rparr>"
      "fakeSession []" 42 "\<lparr>en_T = fake_ops, en_polls = \<lambda>_. 5, en_clock = int\<rparr>"]
  by fastforce

end
