(* ===== verification/IDeviceService.thy ===== *)
theory IDeviceService
  imports SonyDevice
begin

text \<open>
  The interface \<open>IDeviceService.h\<close> between the daemon's two protocols and the service that
  owns the device: a record of its operations on an abstract service state, and the locale
  of what the protocols rely on.

  \<open>activeDevice()\<close> hands out a pointer: reading through it is \<open>is_activeDevice\<close>, calling
  a method that changes the device is \<open>is_onDevice\<close>.
\<close>

record DiscoveredDevice =
  dd_address :: string
  dd_name :: string
  dd_version :: SonyProtocolVersion
  dd_paired :: "bool option"
  dd_connected :: "bool option"

record ('s, 't) IDeviceService =
  is_tick :: "('s, unit) prog"
  is_startAutoConnect :: "string \<Rightarrow> ('s, unit) prog"
  is_connectionState :: "'s \<Rightarrow> string"
  is_selectedAddress :: "'s \<Rightarrow> string"
  is_lastError :: "'s \<Rightarrow> string"
  is_discoverDevices :: "('s, DiscoveredDevice list) prog"
  is_connect :: "string \<Rightarrow> string \<Rightarrow> ('s, unit) prog"
  is_disconnect :: "'s \<Rightarrow> 's"
  is_isConnected :: "'s \<Rightarrow> bool"
  is_activeDevice :: "'s \<Rightarrow> 't Device option"
  is_onDevice :: "('t Device, unit) prog \<Rightarrow> ('s, unit) prog"
  is_snapshot :: "'s \<Rightarrow> DeviceState"

text \<open>The service adds nothing of its own to what reaches a headset, and keeps the device's
  invariant; a method called through the active device acts on that device.\<close>

locale service_laws =
  fixes S :: "('s, 't) IDeviceService" and inv :: "'s \<Rightarrow> bool"
    and sent :: "'s \<Rightarrow> (DeviceProfile \<times> u8 list) list"
  assumes onDevice_safe: "safeP deviceInv dv_sent ok m \<Longrightarrow> safeP inv sent ok (is_onDevice S m)"
    and discover_safe: "safeP inv sent ok (is_discoverDevices S)"
    and connect_safe: "safeP inv sent calmOk (is_connect S address name)"
    and disconnect_safe: "safeP inv sent ok (modifyP (is_disconnect S))"
    and tick_safe: "safeP inv sent calmOk (is_tick S)"
    and autoConnect_safe: "safeP inv sent ok (is_startAutoConnect S address)"
    and onDevice_runs: "is_activeDevice S s = Some d \<Longrightarrow>
      fst (is_onDevice S m s) = fst (m d) \<and> is_activeDevice S (snd (is_onDevice S m s)) = Some (snd (m d))"
begin

lemmas service_emits = onDevice_safe discover_safe disconnect_safe autoConnect_safe

lemma connect_noWipe: "safeP inv sent noWipe (is_connect S address name)"
  using connect_safe by (rule emits_mono) (rule calmOk_noWipe)

lemma tick_noWipe: "safeP inv sent noWipe (is_tick S)"
  using tick_safe by (rule emits_mono) (rule calmOk_noWipe)

end

text \<open>What may not wipe is allowed where wiping may be allowed.\<close>

lemma wipe_weaken: "safeP I obs noWipe m \<Longrightarrow> safeP I obs (if b then sendOk else noWipe) m"
  by (erule emits_mono) (simp add: noWipe_sendOk)

section \<open>Requests that make sense\<close>

text \<open>Values a headset knows.\<close>

fun callInRange :: "DeviceCall \<Rightarrow> bool" where
  "callInRange (CSetAmbient level voice) \<longleftrightarrow> 1 \<le> level \<and> level \<le> 20"
| "callInRange (CSetEqualizerPreset p) \<longleftrightarrow> 0 \<le> p \<and> p \<le> 255"
| "callInRange (CSetEqualizerCustom bass bands) \<longleftrightarrow>
     - 10 \<le> bass \<and> bass \<le> 10 \<and> length bands = 5 \<and> list_all (\<lambda>b. - 10 \<le> b \<and> b \<le> 10) bands"
| "callInRange (CSetAutoPowerOff i) \<longleftrightarrow> 0 \<le> i \<and> i \<le> 5"
| "callInRange (CConnect a n) = False"
| "callInRange CDisconnect = False"
| "callInRange _ = True"

end
