(* ===== verification/DeviceService.thy ===== *)
theory DeviceService
  imports IDeviceService "HOL-Library.Char_ord" "HOL-Library.List_Lexorder"
begin

text \<open>
  \<open>DeviceService\<close>, what the daemon holds: one device, the list of devices the system
  knows, and the automatic reconnection that \<open>tick\<close> drives. Every public method runs
  under one recursive mutex, so a method is one step of the service.

  The clock is read through \<open>ve_now\<close>, by the number of the reading, in nanoseconds of
  the steady clock; the discovery, platform code, is \<open>ve_discover\<close>, by the number of the
  call. The transport is shared with the device: it is in the device once there is one.
  The warnings that \<open>tick\<close> logs are left out.
\<close>

section \<open>Stable sorting\<close>

text \<open>\<open>std::stable_sort\<close> with a comparator. The standard fixes its result: ordered,
  and elements that neither precede the other keep their order; this is insertion sort.\<close>

fun insertBy :: "('a \<Rightarrow> 'a \<Rightarrow> bool) \<Rightarrow> 'a \<Rightarrow> 'a list \<Rightarrow> 'a list" where
  "insertBy lt x [] = [x]"
| "insertBy lt x (y # ys) = (if lt y x then y # insertBy lt x ys else x # y # ys)"

definition stable_sort :: "('a \<Rightarrow> 'a \<Rightarrow> bool) \<Rightarrow> 'a list \<Rightarrow> 'a list" where
  "stable_sort lt xs = foldr (insertBy lt) xs []"

lemma mset_insertBy [simp]: "mset (insertBy lt x ys) = add_mset x (mset ys)"
  by (induction ys) auto

lemma mset_stable_sort [simp]: "mset (stable_sort lt xs) = mset xs"
  by (induction xs) (auto simp: stable_sort_def)

lemma set_insertBy [simp]: "set (insertBy lt x ys) = insert x (set ys)"
  by (induction ys) auto

lemma sorted_insertBy:
  assumes "transp (\<lambda>x y. \<not> lt y x)" "asymp lt" "sorted_wrt (\<lambda>x y. \<not> lt y x) ys"
  shows "sorted_wrt (\<lambda>x y. \<not> lt y x) (insertBy lt x ys)"
  using assms(3)
proof (induction ys)
  case (Cons y ys)
  with assms(1,2) show ?case by (auto dest: transpD asympD)
qed simp

lemma sorted_stable_sort:
  assumes "transp (\<lambda>x y. \<not> lt y x)" "asymp lt"
  shows "sorted_wrt (\<lambda>x y. \<not> lt y x) (stable_sort lt xs)"
  using assms by (induction xs) (auto simp: stable_sort_def intro: sorted_insertBy)

text \<open>Elements that a predicate selects, none of which precedes another, keep their order.\<close>

lemma filter_insertBy:
  assumes "\<And>y. y \<in> set ys \<Longrightarrow> P x \<Longrightarrow> P y \<Longrightarrow> \<not> lt y x"
  shows "filter P (insertBy lt x ys) = (if P x then x # filter P ys else filter P ys)"
  using assms by (induction ys) auto

lemma filter_stable_sort:
  assumes "\<And>x y. P x \<Longrightarrow> P y \<Longrightarrow> \<not> lt y x"
  shows "filter P (stable_sort lt xs) = filter P xs"
  using assms by (induction xs) (auto simp: stable_sort_def filter_insertBy)

section \<open>State\<close>

record 't ServiceEnv =
  ve_dev :: "'t Env"
  ve_now :: "nat \<Rightarrow> int"
  ve_discover :: "(nat \<Rightarrow> exn + FoundDevice list) option"

text \<open>Ghosts: \<open>sv_clocks\<close> and \<open>sv_discoveries\<close> count readings of the clock and
  discoveries.\<close>

record 't Service =
  sv_transport :: "'t option"
  sv_device :: "'t Device option"
  sv_automatic :: bool
  sv_wasConnected :: bool
  sv_retrySeconds :: u32
  sv_nextAttempt :: int
  sv_nextSettings :: int
  sv_nextBattery :: int
  sv_target :: string
  sv_selected :: string
  sv_connectionState :: string
  sv_lastError :: string
  sv_clocks :: nat
  sv_discoveries :: nat

definition newService :: "'t option \<Rightarrow> 't Service" where
  "newService t =
     \<lparr>sv_transport = t, sv_device = None, sv_automatic = False, sv_wasConnected = False,
      sv_retrySeconds = 1, sv_nextAttempt = 0, sv_nextSettings = 0, sv_nextBattery = 0,
      sv_target = '''', sv_selected = '''', sv_connectionState = ''disconnected'',
      sv_lastError = '''', sv_clocks = 0, sv_discoveries = 0\<rparr>"

definition seconds :: "int \<Rightarrow> int" where
  "seconds n = n * 1000000000"

definition milliseconds :: "int \<Rightarrow> int" where
  "milliseconds n = n * 1000000"

definition nowP :: "'t ServiceEnv \<Rightarrow> ('t Service, int) prog" where
  "nowP V s = (Inr (ve_now V (sv_clocks s)), s\<lparr>sv_clocks := sv_clocks s + 1\<rparr>)"

text \<open>A method of the device; there is nothing to call without one (\<open>_device\<close> is null).\<close>

definition onDevice :: "('t Device, 'a) prog \<Rightarrow> ('t Service, 'a) prog" where
  "onDevice m s = (case sv_device s of
      Some d \<Rightarrow> let (r, d') = m d in (r, s\<lparr>sv_device := Some d'\<rparr>)
    | None \<Rightarrow> (Inl (StdException ''null device''), s))"

text \<open>\<open>if (_device) _device->disconnect();\<close>\<close>

definition disconnectDevice :: "'t ServiceEnv \<Rightarrow> 't Service \<Rightarrow> 't Service" where
  "disconnectDevice V s = s\<lparr>sv_device := map_option (device_disconnect (ve_dev V)) (sv_device s)\<rparr>"

section \<open>Queries\<close>

definition service_isConnected :: "'t ServiceEnv \<Rightarrow> 't Service \<Rightarrow> bool" where
  "service_isConnected V s = (case sv_device s of Some d \<Rightarrow> device_isConnected (ve_dev V) d | None \<Rightarrow> False)"

definition service_snapshot :: "'t Service \<Rightarrow> DeviceState" where
  "service_snapshot s = (case sv_device s of Some d \<Rightarrow> dv_state d | None \<Rightarrow> defaultState)"

definition connectionState :: "'t ServiceEnv \<Rightarrow> 't Service \<Rightarrow> string" where
  "connectionState V s =
     (if sv_connectionState s = ''connected'' \<and> \<not> service_isConnected V s then ''retrying''
      else sv_connectionState s)"

section \<open>Discovery\<close>

definition deviceBefore :: "DiscoveredDevice \<Rightarrow> DiscoveredDevice \<Rightarrow> bool" where
  "deviceBefore a b =
     (let ca = (case dd_connected a of Some c \<Rightarrow> c | None \<Rightarrow> False);
          cb = (case dd_connected b of Some c \<Rightarrow> c | None \<Rightarrow> False)
      in if ca \<noteq> cb then ca else dd_address a < dd_address b)"

definition describeFound :: "FoundDevice \<Rightarrow> DiscoveredDevice" where
  "describeFound dev =
     \<lparr>dd_address = fd_address dev, dd_name = fd_name dev,
      dd_version = pf_protocol (getProfileForDevice (fd_name dev)),
      dd_paired = fd_paired dev, dd_connected = fd_connected dev\<rparr>"

definition discoverDevices :: "'t ServiceEnv \<Rightarrow> ('t Service, DiscoveredDevice list) prog" where
  "discoverDevices V s = (case ve_discover V of
      None \<Rightarrow> (Inr [], s)
    | Some disc \<Rightarrow>
        let s' = s\<lparr>sv_discoveries := sv_discoveries s + 1\<rparr> in
        (case disc (sv_discoveries s) of
           Inl e \<Rightarrow> (Inl e, s')
         | Inr rawDevices \<Rightarrow> (Inr (stable_sort deviceBefore (map describeFound rawDevices)), s')))"

section \<open>Connecting\<close>

definition service_connect1 :: "'t ServiceEnv \<Rightarrow> string \<Rightarrow> string \<Rightarrow> ('t Service, unit) prog" where
  "service_connect1 V address name =
     bindP (modifyP (\<lambda>s. s\<lparr>sv_selected := address, sv_connectionState := ''connecting'',
        sv_device := (case sv_device s of None \<Rightarrow> Some (newDevice (sv_transport s) V1) | Some d \<Rightarrow> Some d)\<rparr>))
     (\<lambda>_. bindP (onDevice (device_connect (ve_dev V) address name))
     (\<lambda>_. bindP (ifP (\<lambda>s. \<not> service_isConnected V s)
             (throwP Disconnected ''Bluetooth link closed during initialization'') (returnP ()))
     (\<lambda>_. bindP (modifyP (\<lambda>s. s\<lparr>sv_wasConnected := True, sv_connectionState := ''connected'',
             sv_lastError := '''', sv_retrySeconds := 1\<rparr>))
     (\<lambda>_. bindP (nowP V) (\<lambda>t. bindP (modifyP (\<lambda>s. s\<lparr>sv_nextSettings := t + seconds 5\<rparr>))
     (\<lambda>_. bindP (nowP V) (\<lambda>t. modifyP (\<lambda>s. s\<lparr>sv_nextBattery := t + seconds 30\<rparr>))))))))"

definition service_connect :: "'t ServiceEnv \<Rightarrow> string \<Rightarrow> string \<Rightarrow> ('t Service, unit) prog" where
  "service_connect V address name =
     bindP (modifyP (\<lambda>s. s\<lparr>sv_target := address, sv_automatic := True, sv_retrySeconds := 1\<rparr>))
     (\<lambda>_. catchAny (service_connect1 V address name)
       (\<lambda>e. bindP (modifyP (\<lambda>s. (disconnectDevice V (s\<lparr>sv_wasConnected := False\<rparr>))
              \<lparr>sv_lastError := exn_what e, sv_connectionState := ''retrying''\<rparr>))
         (\<lambda>_. bindP (nowP V) (\<lambda>t. bindP (modifyP (\<lambda>s. s\<lparr>sv_nextAttempt := t + seconds 1\<rparr>))
           (\<lambda>_. raiseP e)))))"

definition service_disconnect :: "'t ServiceEnv \<Rightarrow> 't Service \<Rightarrow> 't Service" where
  "service_disconnect V s = disconnectDevice V
     (s\<lparr>sv_automatic := False, sv_wasConnected := False, sv_connectionState := ''manually_disconnected''\<rparr>)"

definition startAutoConnect :: "'t ServiceEnv \<Rightarrow> string \<Rightarrow> ('t Service, unit) prog" where
  "startAutoConnect V address =
     bindP (modifyP (\<lambda>s. s\<lparr>sv_target := address, sv_automatic := True, sv_retrySeconds := 1\<rparr>))
     (\<lambda>_. bindP (nowP V) (\<lambda>t. modifyP (\<lambda>s. s\<lparr>sv_nextAttempt := t, sv_connectionState := ''searching''\<rparr>)))"

section \<open>Maintenance\<close>

text \<open>While connected: at most one settings inquiry and one battery inquiry per tick.\<close>

definition maintain :: "'t ServiceEnv \<Rightarrow> ('t Service, unit) prog" where
  "maintain V =
     bindP (bindP (nowP V) (\<lambda>t. ifP (\<lambda>s. sv_nextSettings s \<le> t)
       (bindP (onDevice (device_refreshSettingsStep (ve_dev V)))
         (\<lambda>_. bindP (nowP V) (\<lambda>t. modifyP (\<lambda>s. s\<lparr>sv_nextSettings := t + milliseconds 500\<rparr>))))
       (returnP ())))
     (\<lambda>_. bindP (nowP V) (\<lambda>t. ifP (\<lambda>s. sv_nextBattery s \<le> t)
       (bindP (onDevice (device_refreshBattery (ve_dev V)))
         (\<lambda>_. bindP (nowP V) (\<lambda>t. modifyP (\<lambda>s. s\<lparr>sv_nextBattery := t + seconds 30\<rparr>))))
       (returnP ())))"

text \<open>The first tick after the link was lost.\<close>

definition noteLoss :: "'t ServiceEnv \<Rightarrow> ('t Service, unit) prog" where
  "noteLoss V = ifP sv_wasConnected
     (bindP (modifyP (\<lambda>s. s\<lparr>sv_wasConnected := False\<rparr>))
       (\<lambda>_. bindP (onDevice (\<lambda>d. (Inr (), device_disconnect (ve_dev V) d)))
       (\<lambda>_. bindP (modifyP (\<lambda>s. s\<lparr>sv_lastError := ''Bluetooth connection lost; reconnecting''\<rparr>))
       (\<lambda>_. bindP (nowP V) (\<lambda>t. modifyP (\<lambda>s. s\<lparr>sv_nextAttempt := t, sv_connectionState := ''retrying''\<rparr>))))))
     (returnP ())"

text \<open>The loop over the candidates; true when one connected.\<close>

fun tryCandidates :: "'t ServiceEnv \<Rightarrow> DiscoveredDevice list \<Rightarrow> ('t Service, bool) prog" where
  "tryCandidates V [] = returnP False"
| "tryCandidates V (candidate # rest) =
     bindP (catchAny
        (bindP (service_connect1 V (dd_address candidate) (dd_name candidate)) (\<lambda>_. returnP True))
        (\<lambda>e. bindP (modifyP (\<lambda>s. disconnectDevice V (s\<lparr>sv_lastError := exn_what e\<rparr>))) (\<lambda>_. returnP False)))
      (\<lambda>connected. if connected then returnP True else tryCandidates V rest)"

definition selectTarget :: "string \<Rightarrow> DiscoveredDevice list \<Rightarrow> DiscoveredDevice list" where
  "selectTarget target candidates =
     (if target = '''' then candidates
      else case find (\<lambda>d. dd_address d = target) candidates of
        Some d \<Rightarrow> [d]
      | None \<Rightarrow> [\<lparr>dd_address = target, dd_name = '''', dd_version = V1, dd_paired = None, dd_connected = None\<rparr>])"

definition attempt :: "'t ServiceEnv \<Rightarrow> ('t Service, bool) prog" where
  "attempt V =
     catchAny
       (bindP (discoverDevices V) (\<lambda>found. bindP (getP (\<lambda>s. selectTarget (sv_target s) found)) (\<lambda>candidates.
          bindP (modifyP (\<lambda>s. s\<lparr>sv_connectionState := ''searching''\<rparr>)) (\<lambda>_.
          bindP (tryCandidates V candidates) (\<lambda>connected.
            if connected then returnP True
            else bindP (modifyP (\<lambda>s. if candidates = [] then s\<lparr>sv_lastError := ''No paired Sony device found''\<rparr> else s))
                   (\<lambda>_. returnP False))))))
       (\<lambda>e. bindP (modifyP (\<lambda>s. s\<lparr>sv_lastError := exn_what e\<rparr>)) (\<lambda>_. returnP False))"

definition backOff :: "'t ServiceEnv \<Rightarrow> ('t Service, unit) prog" where
  "backOff V = bindP (modifyP (\<lambda>s. s\<lparr>sv_connectionState := ''retrying''\<rparr>))
     (\<lambda>_. bindP (nowP V) (\<lambda>t. modifyP (\<lambda>s. s\<lparr>sv_nextAttempt := t + seconds (uint (sv_retrySeconds s)),
        sv_retrySeconds := min 30 (sv_retrySeconds s * 2)\<rparr>)))"

definition service_tick :: "'t ServiceEnv \<Rightarrow> ('t Service, unit) prog" where
  "service_tick V =
     ifP (service_isConnected V) (maintain V)
     (ifP (\<lambda>s. \<not> sv_automatic s) (returnP ())
       (bindP (noteLoss V) (\<lambda>_. bindP (nowP V) (\<lambda>t. ifP (\<lambda>s. t < sv_nextAttempt s) (returnP ())
         (bindP (attempt V) (\<lambda>connected. if connected then returnP () else backOff V))))))"

section \<open>What a connection attempt leaves\<close>

text \<open>The members that only the public methods themselves assign.\<close>

lemma onDevice_frame:
  "sv_automatic (snd (onDevice m s)) = sv_automatic s" "sv_wasConnected (snd (onDevice m s)) = sv_wasConnected s"
  "sv_retrySeconds (snd (onDevice m s)) = sv_retrySeconds s" "sv_nextAttempt (snd (onDevice m s)) = sv_nextAttempt s"
  "sv_target (snd (onDevice m s)) = sv_target s" "sv_selected (snd (onDevice m s)) = sv_selected s"
  "sv_connectionState (snd (onDevice m s)) = sv_connectionState s" "sv_lastError (snd (onDevice m s)) = sv_lastError s"
  "sv_clocks (snd (onDevice m s)) = sv_clocks s" "sv_nextSettings (snd (onDevice m s)) = sv_nextSettings s"
  "sv_nextBattery (snd (onDevice m s)) = sv_nextBattery s"
  "(sv_device (snd (onDevice m s)) = None) = (sv_device s = None)"
  by (simp_all add: onDevice_def case_prod_unfold Let_def split: option.split)

lemma disconnectDevice_frame [simp]:
  "sv_automatic (disconnectDevice V s) = sv_automatic s" "sv_wasConnected (disconnectDevice V s) = sv_wasConnected s"
  "sv_retrySeconds (disconnectDevice V s) = sv_retrySeconds s" "sv_nextAttempt (disconnectDevice V s) = sv_nextAttempt s"
  "sv_target (disconnectDevice V s) = sv_target s" "sv_connectionState (disconnectDevice V s) = sv_connectionState s"
  "sv_lastError (disconnectDevice V s) = sv_lastError s" "sv_clocks (disconnectDevice V s) = sv_clocks s"
  "(sv_device (disconnectDevice V s) = None) = (sv_device s = None)"
  by (simp_all add: disconnectDevice_def)

text \<open>A device that is not running reads nothing more and stays disconnected.\<close>

definition stopped :: "'t Service \<Rightarrow> bool" where
  "stopped s \<longleftrightarrow> (case sv_device s of None \<Rightarrow> True
     | Some d \<Rightarrow> (case dv_session d of None \<Rightarrow> True | Some ss \<Rightarrow> \<not> ss_running ss))"

lemma stopped_disconnected: "stopped s \<Longrightarrow> \<not> service_isConnected V s"
  by (simp add: stopped_def service_isConnected_def device_isConnected_def isConnected_def split: option.splits)

lemma device_disconnect_session:
  "dv_session (device_disconnect E d) = Some ss \<Longrightarrow> \<not> ss_running ss"
  by (auto simp: device_disconnect_def dispatchD_def putTransport_def session_disconnect_def clearSession_def
      Let_def split: option.splits if_splits)

lemma stopped_disconnectDevice [simp]: "stopped (disconnectDevice V s)"
  by (auto simp: stopped_def disconnectDevice_def dest: device_disconnect_session split: option.splits)

text \<open>\<open>_connect\<close>, by its outcome.\<close>

lemma connect1_outcome:
  assumes "service_connect1 V address name s = (r, s')"
  shows "sv_automatic s' = sv_automatic s" "sv_target s' = sv_target s" "sv_device s' \<noteq> None"
    "sv_selected s' = address" "sv_nextAttempt s' = sv_nextAttempt s"
    "case r of
       Inr _ \<Rightarrow> service_isConnected V s' \<and> sv_wasConnected s' \<and> sv_connectionState s' = ''connected'' \<and>
         sv_lastError s' = '''' \<and> sv_retrySeconds s' = 1
     | Inl e \<Rightarrow> sv_connectionState s' = ''connecting'' \<and> sv_wasConnected s' = sv_wasConnected s \<and>
         sv_retrySeconds s' = sv_retrySeconds s"
proof -
  let ?s1 = "s\<lparr>sv_selected := address, sv_connectionState := ''connecting'',
        sv_device := (case sv_device s of None \<Rightarrow> Some (newDevice (sv_transport s) V1) | Some d \<Rightarrow> Some d)\<rparr>"
  obtain r2 s2 where run: "onDevice (device_connect (ve_dev V) address name) ?s1 = (r2, s2)" by fastforce
  have dev: "sv_device ?s1 \<noteq> None" by (simp split: option.split)
  note frame = onDevice_frame [of "device_connect (ve_dev V) address name" ?s1, unfolded run snd_conv]
  have con: "service_isConnected V (s2\<lparr>sv_wasConnected := a, sv_connectionState := b, sv_lastError := c,
      sv_retrySeconds := e, sv_clocks := f, sv_nextSettings := g, sv_nextBattery := h\<rparr>) = service_isConnected V s2"
    for a b c e f g h by (simp add: service_isConnected_def)
  show "sv_automatic s' = sv_automatic s" "sv_target s' = sv_target s" "sv_device s' \<noteq> None"
    "sv_selected s' = address" "sv_nextAttempt s' = sv_nextAttempt s"
    "case r of
       Inr _ \<Rightarrow> service_isConnected V s' \<and> sv_wasConnected s' \<and> sv_connectionState s' = ''connected'' \<and>
         sv_lastError s' = '''' \<and> sv_retrySeconds s' = 1
     | Inl e \<Rightarrow> sv_connectionState s' = ''connecting'' \<and> sv_wasConnected s' = sv_wasConnected s \<and>
         sv_retrySeconds s' = sv_retrySeconds s"
    using assms frame dev
    by (auto simp: service_connect1_def prog_simps nowP_def run con service_isConnected_def
        split: sum.splits if_splits)
qed

text \<open>The loop over candidates and a whole attempt never throw; they end connected, or with
  the device stopped and the bookkeeping of the back-off untouched.\<close>

definition attemptOutcome :: "'t ServiceEnv \<Rightarrow> 't Service \<Rightarrow> (exn + bool) \<times> 't Service \<Rightarrow> bool" where
  "attemptOutcome V s = (\<lambda>(r, s'). sv_automatic s' = sv_automatic s \<and> sv_target s' = sv_target s \<and>
     sv_nextAttempt s' = sv_nextAttempt s \<and>
     (case r of
        Inl e \<Rightarrow> False
      | Inr True \<Rightarrow> service_isConnected V s' \<and> sv_wasConnected s' \<and> sv_device s' \<noteq> None \<and>
          sv_connectionState s' = ''connected'' \<and> sv_lastError s' = '''' \<and> sv_retrySeconds s' = 1
      | Inr False \<Rightarrow> stopped s' \<and> \<not> sv_wasConnected s' \<and> sv_retrySeconds s' = sv_retrySeconds s))"

lemma attemptOutcome_frame:
  assumes "attemptOutcome V s1 q" "sv_automatic s1 = sv_automatic s" "sv_target s1 = sv_target s"
    "sv_nextAttempt s1 = sv_nextAttempt s" "sv_retrySeconds s1 = sv_retrySeconds s"
  shows "attemptOutcome V s q"
  using assms(1) unfolding attemptOutcome_def assms(2-5) .

lemma tryCandidates_outcome:
  "stopped s \<Longrightarrow> \<not> sv_wasConnected s \<Longrightarrow> attemptOutcome V s (tryCandidates V cs s)"
proof (induction V cs arbitrary: s rule: tryCandidates.induct)
  case (1 V)
  then show ?case by (simp add: attemptOutcome_def)
next
  case (2 V c cs)
  obtain r s' where run: "service_connect1 V (dd_address c) (dd_name c) s = (r, s')" by fastforce
  note o = connect1_outcome [OF run]
  show ?case
  proof (cases r)
    case (Inl e)
    let ?s = "disconnectDevice V (s'\<lparr>sv_lastError := exn_what e\<rparr>)"
    have eq: "tryCandidates V (c # cs) s = tryCandidates V cs ?s"
      by (simp add: prog_simps run Inl)
    have "attemptOutcome V ?s (tryCandidates V cs ?s)"
      using "2.IH" [of False ?s] "2.prems" o(6) Inl by simp
    then show ?thesis unfolding eq
      by (rule attemptOutcome_frame) (use o Inl in simp_all)
  next
    case (Inr x)
    with o have "attemptOutcome V s (Inr True, s')" by (simp add: attemptOutcome_def)
    moreover have "tryCandidates V (c # cs) s = (Inr True, s')" by (simp add: prog_simps run Inr)
    ultimately show ?thesis by metis
  qed
qed

lemma stopped_fields [simp]:
  "stopped (s\<lparr>sv_connectionState := a\<rparr>) = stopped s" "stopped (s\<lparr>sv_lastError := b\<rparr>) = stopped s"
  "stopped (s\<lparr>sv_wasConnected := c\<rparr>) = stopped s" "stopped (s\<lparr>sv_nextAttempt := i\<rparr>) = stopped s"
  "stopped (s\<lparr>sv_retrySeconds := w\<rparr>) = stopped s" "stopped (s\<lparr>sv_clocks := n\<rparr>) = stopped s"
  "stopped (s\<lparr>sv_discoveries := n\<rparr>) = stopped s" "stopped (s\<lparr>sv_target := a\<rparr>) = stopped s"
  "stopped (s\<lparr>sv_automatic := c\<rparr>) = stopped s"
  by (simp_all add: stopped_def)

lemma discover_frame:
  "\<exists>n. snd (discoverDevices V s) = s\<lparr>sv_discoveries := n\<rparr>"
  by (auto simp: discoverDevices_def Let_def split: option.split sum.split intro: exI [of _ "sv_discoveries s"])

lemma attempt_outcome:
  assumes "stopped s" "\<not> sv_wasConnected s"
  shows "attemptOutcome V s (attempt V s)"
proof -
  obtain r s1 where run: "discoverDevices V s = (r, s1)" by fastforce
  with discover_frame [of V s] obtain n where s1: "s1 = s\<lparr>sv_discoveries := n\<rparr>" by auto
  show ?thesis
  proof (cases r)
    case (Inl e)
    with assms show ?thesis by (simp add: attempt_def prog_simps run attemptOutcome_def s1)
  next
    case (Inr found)
    let ?cs = "selectTarget (sv_target s) found"
    let ?s2 = "s1\<lparr>sv_connectionState := ''searching''\<rparr>"
    obtain q s3 where go: "tryCandidates V ?cs ?s2 = (q, s3)" by fastforce
    with tryCandidates_outcome [of ?s2 V ?cs] assms s1 have out: "attemptOutcome V ?s2 (q, s3)" by simp
    then obtain b where q: "q = Inr b" by (cases q) (auto simp: attemptOutcome_def)
    have "attempt V s = (Inr b, if b then s3 else if ?cs = [] then s3\<lparr>sv_lastError := ''No paired Sony device found''\<rparr> else s3)"
      using go by (simp add: attempt_def prog_simps run Inr s1 q)
    with out show ?thesis by (cases b) (simp_all add: attemptOutcome_def q s1)
  qed
qed

section \<open>Any use of the service\<close>

text \<open>A control request reaches the device as both protocols do it, when it is connected.
  \<open>SRead\<close> is the device's reader between calls.\<close>

datatype ServiceCall =
    SDiscover | SConnect string string | SDisconnect | SAutoConnect string | STick
  | SControl DeviceCall | SRead nat

definition control :: "'t ServiceEnv \<Rightarrow> DeviceCall \<Rightarrow> ('t Service, unit) prog" where
  "control V c = ifP (service_isConnected V) (onDevice (runCall (ve_dev V) c)) (returnP ())"

fun runService :: "'t ServiceEnv \<Rightarrow> ServiceCall \<Rightarrow> ('t Service, unit) prog" where
  "runService V SDiscover = bindP (discoverDevices V) (\<lambda>_. returnP ())"
| "runService V (SConnect a n) = service_connect V a n"
| "runService V SDisconnect = modifyP (service_disconnect V)"
| "runService V (SAutoConnect a) = startAutoConnect V a"
| "runService V STick = service_tick V"
| "runService V (SControl c) = control V c"
| "runService V (SRead n) = modifyP (\<lambda>s. s\<lparr>sv_device := map_option (deviceRead (ve_dev V) n) (sv_device s)\<rparr>)"

fun runServices :: "'t ServiceEnv \<Rightarrow> ServiceCall list \<Rightarrow> 't Service \<Rightarrow> 't Service" where
  "runServices V [] s = s"
| "runServices V (c # cs) s = runServices V cs (snd (runService V c s))"

text \<open>Between calls.\<close>

definition serviceInv :: "'t Service \<Rightarrow> bool" where
  "serviceInv s \<longleftrightarrow>
     (if sv_wasConnected s then sv_device s \<noteq> None else stopped s) \<and>
     sv_connectionState s \<in> {''disconnected'', ''manually_disconnected'', ''searching'', ''retrying'', ''connected''} \<and>
     (sv_connectionState s = ''connected'' \<longrightarrow> sv_wasConnected s) \<and>
     (sv_wasConnected s \<longrightarrow> sv_connectionState s \<in> {''connected'', ''searching''}) \<and>
     (sv_automatic s \<longleftrightarrow> sv_connectionState s \<notin> {''disconnected'', ''manually_disconnected''}) \<and>
     sv_retrySeconds s \<in> {1, 2, 4, 8, 16, 30}"

lemma serviceInv_new: "serviceInv (newService t)"
  by (simp add: serviceInv_def newService_def stopped_def)

lemma serviceInv_connected: "serviceInv s \<Longrightarrow> service_isConnected V s \<Longrightarrow> sv_wasConnected s"
  using stopped_disconnected by (auto simp: serviceInv_def split: if_splits)

lemma serviceInv_onDevice:
  assumes "serviceInv s" "sv_wasConnected s"
  shows "serviceInv (snd (onDevice m s))"
  using assms onDevice_frame(12) [of m s] by (simp add: serviceInv_def onDevice_frame(1-11))

lemma serviceInv_fields [simp]:
  "serviceInv (s\<lparr>sv_clocks := n\<rparr>) = serviceInv s" "serviceInv (s\<lparr>sv_discoveries := n\<rparr>) = serviceInv s"
  "serviceInv (s\<lparr>sv_nextSettings := i\<rparr>) = serviceInv s" "serviceInv (s\<lparr>sv_nextBattery := i\<rparr>) = serviceInv s"
  "serviceInv (s\<lparr>sv_lastError := a\<rparr>) = serviceInv s" "serviceInv (s\<lparr>sv_nextAttempt := i\<rparr>) = serviceInv s"
  by (simp_all add: serviceInv_def stopped_def)

lemma noteLoss_run:
  assumes "serviceInv s" "sv_automatic s"
  shows "noteLoss V s =
    (Inr (), if sv_wasConnected s
      then (disconnectDevice V s)\<lparr>sv_wasConnected := False, sv_lastError := ''Bluetooth connection lost; reconnecting'',
        sv_clocks := sv_clocks s + 1, sv_nextAttempt := ve_now V (sv_clocks s), sv_connectionState := ''retrying''\<rparr>
      else s)"
  using assms by (auto simp: noteLoss_def prog_simps onDevice_def nowP_def disconnectDevice_def serviceInv_def)

text \<open>The invariant by its cases: waiting to reconnect, and connected.\<close>

lemma serviceInv_retry: "serviceInv s \<Longrightarrow> sv_retrySeconds s \<in> {1, 2, 4, 8, 16, 30}"
  by (simp add: serviceInv_def)

lemma serviceInv_waiting:
  "stopped s \<Longrightarrow> \<not> sv_wasConnected s \<Longrightarrow> sv_automatic s \<Longrightarrow> sv_retrySeconds s \<in> {1, 2, 4, 8, 16, 30} \<Longrightarrow>
   sv_connectionState s \<in> {''searching'', ''retrying''} \<Longrightarrow> serviceInv s"
  unfolding serviceInv_def by (elim insertE emptyE) simp_all

lemma serviceInv_up:
  "sv_device s \<noteq> None \<Longrightarrow> sv_wasConnected s \<Longrightarrow> sv_automatic s \<Longrightarrow> sv_retrySeconds s = 1 \<Longrightarrow>
   sv_connectionState s = ''connected'' \<Longrightarrow> serviceInv s"
  by (simp add: serviceInv_def)

lemma noteLoss_outcome:
  assumes "serviceInv s" "sv_automatic s" "noteLoss V s = (r, s1)"
  shows "r = Inr ()" "stopped s1" "\<not> sv_wasConnected s1" "sv_retrySeconds s1 = sv_retrySeconds s"
    "sv_automatic s1" "serviceInv s1"
proof -
  have s1: "r = Inr ()" "s1 = (if sv_wasConnected s
      then (disconnectDevice V s)\<lparr>sv_wasConnected := False, sv_lastError := ''Bluetooth connection lost; reconnecting'',
        sv_clocks := sv_clocks s + 1, sv_nextAttempt := ve_now V (sv_clocks s), sv_connectionState := ''retrying''\<rparr>
      else s)"
    using assms(3) by (simp_all only: noteLoss_run [OF assms(1,2)] prod.inject)
  from s1(1) show "r = Inr ()" .
  have idle: "\<not> sv_wasConnected s \<Longrightarrow> stopped s" using assms(1) by (simp add: serviceInv_def)
  then show o: "stopped s1" "\<not> sv_wasConnected s1" "sv_retrySeconds s1 = sv_retrySeconds s" "sv_automatic s1"
    by (simp_all add: s1(2) assms(2))
  show "serviceInv s1"
  proof (cases "sv_wasConnected s")
    case True
    with o serviceInv_retry [OF assms(1)] show ?thesis by (intro serviceInv_waiting) (simp_all add: s1(2))
  next
    case False
    with assms(1) show ?thesis by (simp add: s1(2))
  qed
qed

text \<open>A doubling of the waiting time that stays in the schedule.\<close>

lemma retry_doubles: "r \<in> {1, 2, 4, 8, 16, 30} \<Longrightarrow> min 30 (r * 2) \<in> {1, 2, 4, 8, 16, 30 :: u32}"
  by (auto simp: min_def)

lemma attempt_inv:
  assumes "serviceInv s" "stopped s" "\<not> sv_wasConnected s" "sv_automatic s"
    and "bindP (attempt V) (\<lambda>connected. if connected then returnP () else backOff V) s = (r, s')"
  shows "serviceInv s' \<and> r = Inr ()"
proof -
  obtain q s1 where run: "attempt V s = (q, s1)" by fastforce
  with attempt_outcome [OF assms(2,3), of V] obtain b where q: "q = Inr b"
    and out: "attemptOutcome V s (Inr b, s1)" by (cases q) (auto simp: attemptOutcome_def)
  show ?thesis
  proof (cases b)
    case True
    with assms(5) run q have "s' = s1" "r = Inr ()" by (auto simp: bindP_def)
    with True out assms(4) show ?thesis by (auto simp: attemptOutcome_def intro: serviceInv_up)
  next
    case False
    with assms(5) run q have "backOff V s1 = (r, s')" by (simp add: bindP_def)
    then have s': "r = Inr ()" "s' = s1\<lparr>sv_connectionState := ''retrying'', sv_clocks := sv_clocks s1 + 1,
        sv_nextAttempt := ve_now V (sv_clocks s1) + seconds (uint (sv_retrySeconds s1)),
        sv_retrySeconds := min 30 (sv_retrySeconds s1 * 2)\<rparr>"
      by (simp_all add: backOff_def prog_simps nowP_def)
    from False out have "stopped s1" "\<not> sv_wasConnected s1" "sv_automatic s1" "sv_retrySeconds s1 = sv_retrySeconds s"
      using assms(4) by (simp_all add: attemptOutcome_def)
    with retry_doubles [OF serviceInv_retry [OF assms(1)]] have "serviceInv s'"
      unfolding s' by (intro serviceInv_waiting) simp_all
    with s' show ?thesis by simp
  qed
qed

abbreviation keeps :: "('s \<Rightarrow> bool) \<Rightarrow> ('s, 'a) prog \<Rightarrow> bool" where
  "keeps I m \<equiv> safeP I (\<lambda>_. []) (\<lambda>_ :: unit. True) m"

lemma maintain_inv: "keeps (\<lambda>s. serviceInv s \<and> sv_wasConnected s) (maintain V)"
proof -
  have now: "keeps (\<lambda>s. serviceInv s \<and> sv_wasConnected s) (nowP V)"
    by (simp add: safeP_def nowP_def)
  have dev: "keeps (\<lambda>s. serviceInv s \<and> sv_wasConnected s) (onDevice m)" for m :: "('a Device, unit) prog"
    by (simp add: safeP_def serviceInv_onDevice onDevice_frame)
  show ?thesis unfolding maintain_def by (intro emits_intros now dev emits_modify) simp_all
qed

lemma tick_inv:
  assumes "serviceInv s" shows "serviceInv (snd (service_tick V s))"
proof (cases "service_isConnected V s")
  case True
  with assms serviceInv_connected maintain_inv [of V] show ?thesis
    by (auto simp: service_tick_def ifP_def safeP_def)
next
  case False
  show ?thesis
  proof (cases "sv_automatic s")
    case True
    obtain r s1 where loss: "noteLoss V s = (r, s1)" by fastforce
    note o = noteLoss_outcome [OF assms True loss]
    let ?s2 = "s1\<lparr>sv_clocks := sv_clocks s1 + 1\<rparr>"
    obtain r' s' where run: "bindP (attempt V) (\<lambda>connected. if connected then returnP () else backOff V) ?s2 = (r', s')"
      by fastforce
    from attempt_inv [OF _ _ _ _ run] o have "serviceInv s'" by simp
    moreover have "service_tick V s = (if ve_now V (sv_clocks s1) < sv_nextAttempt s1 then (Inr (), ?s2)
        else bindP (attempt V) (\<lambda>connected. if connected then returnP () else backOff V) ?s2)"
      using False True o(1)
      by (simp add: service_tick_def ifP_def bindP_def [of "noteLoss V"] bindP_def [of "nowP V"] loss nowP_def)
    ultimately show ?thesis using o(6) run by simp
  next
    case automatic: False
    with False assms show ?thesis by (simp add: service_tick_def prog_simps)
  qed
qed

lemma connect_inv:
  assumes "serviceInv s" shows "serviceInv (snd (service_connect V a n s))"
proof -
  let ?s = "s\<lparr>sv_target := a, sv_automatic := True, sv_retrySeconds := 1\<rparr>"
  obtain r s' where run: "service_connect1 V a n ?s = (r, s')" by fastforce
  note o = connect1_outcome [OF run]
  show ?thesis
    using o by (cases r) (auto simp: service_connect_def prog_simps run nowP_def serviceInv_def)
qed

lemma read_stopped: "stopped s \<Longrightarrow> stopped (s\<lparr>sv_device := map_option (deviceRead E n) (sv_device s)\<rparr>)"
proof -
  assume stop: "stopped s"
  have step: "(readerStep T ^^ n) ss = ss" if "\<not> ss_running ss" for T and ss :: "'a Session"
    using that by (induction n) (simp_all add: readerStep_def)
  show ?thesis
    using stop by (auto simp: stopped_def deviceRead_def absorb_def step split: option.splits)
qed

lemma runService_inv: "serviceInv s \<Longrightarrow> serviceInv (snd (runService V c s))"
proof (cases c)
  case SDiscover
  assume inv: "serviceInv s"
  obtain r s' where run: "discoverDevices V s = (r, s')" by fastforce
  with discover_frame [of V s] inv show ?thesis by (cases r) (auto simp: SDiscover prog_simps run)
next
  case (SControl dc)
  assume inv: "serviceInv s"
  show ?thesis
    using inv serviceInv_onDevice [OF inv serviceInv_connected [OF inv, of V], of "runCall (ve_dev V) dc"]
    by (simp add: SControl control_def ifP_def)
next
  case (SRead n)
  assume inv: "serviceInv s"
  with read_stopped [of s "ve_dev V" n] show ?thesis
    by (auto simp: SRead modifyP_def serviceInv_def)
next
  case (SAutoConnect a)
  assume "serviceInv s" then show ?thesis
    by (auto simp: SAutoConnect startAutoConnect_def prog_simps nowP_def serviceInv_def)
next
  case SDisconnect
  assume "serviceInv s"
  then have "sv_retrySeconds s \<in> {1, 2, 4, 8, 16, 30}" by (rule serviceInv_retry)
  then show ?thesis
    by (simp add: SDisconnect modifyP_def service_disconnect_def serviceInv_def)
qed (simp_all only: runService.simps tick_inv connect_inv)

lemma runServices_inv: "serviceInv s \<Longrightarrow> serviceInv (runServices V cs s)"
  by (induction cs arbitrary: s) (simp_all add: runService_inv)

section \<open>What the service guarantees\<close>


text \<open>What is no request to connect, and the payloads ever handed to the transport.\<close>

fun asksToConnect :: "ServiceCall \<Rightarrow> bool" where
  "asksToConnect (SConnect a n) = True"
| "asksToConnect (SAutoConnect a) = True"
| "asksToConnect c = False"

definition sv_sent :: "'t Service \<Rightarrow> (DeviceProfile \<times> u8 list) list" where
  "sv_sent s = (case sv_device s of None \<Rightarrow> [] | Some d \<Rightarrow> dv_sent d)"

definition manuallyOff :: "'t Service \<Rightarrow> bool" where
  "manuallyOff s \<longleftrightarrow> stopped s \<and> \<not> sv_automatic s \<and> \<not> sv_wasConnected s \<and>
     sv_connectionState s = ''manually_disconnected''"

lemma stopped_read:
  assumes "stopped s"
  shows "s\<lparr>sv_device := map_option (deviceRead E n) (sv_device s)\<rparr> = s"
proof -
  have step: "(readerStep T ^^ n) ss = ss" if "\<not> ss_running ss" for T and ss :: "'a Session"
    using that by (induction n) (simp_all add: readerStep_def)
  have "deviceRead E n d = d" if "sv_device s = Some d" for d
    using assms that by (auto simp: stopped_def deviceRead_def absorb_def step split: option.splits)
  then show ?thesis by (cases "sv_device s") simp_all
qed

lemma disconnectDevice_sent [simp]: "sv_sent (disconnectDevice V s) = sv_sent s"
  by (simp add: sv_sent_def disconnectDevice_def disconnect_effects split: option.split)

lemma sv_sent_fields [simp]:
  "sv_sent (s\<lparr>sv_clocks := n\<rparr>) = sv_sent s" "sv_sent (s\<lparr>sv_discoveries := n\<rparr>) = sv_sent s"
  "sv_sent (s\<lparr>sv_automatic := b, sv_wasConnected := c, sv_connectionState := a\<rparr>) = sv_sent s"
  by (simp_all add: sv_sent_def)

lemma manuallyOff_step:
  assumes "\<not> asksToConnect c" "manuallyOff s"
  shows "manuallyOff (snd (runService V c s)) \<and> sv_sent (snd (runService V c s)) = sv_sent s \<and>
    sv_clocks (snd (runService V c s)) = sv_clocks s"
proof -
  have down: "\<not> service_isConnected V s" using assms(2) stopped_disconnected by (auto simp: manuallyOff_def)
  show ?thesis
  proof (cases c)
    case SDiscover
    obtain r s' where run: "discoverDevices V s = (r, s')" by fastforce
    with discover_frame [of V s] obtain n where "s' = s\<lparr>sv_discoveries := n\<rparr>" by auto
    with assms(2) run show ?thesis by (cases r) (auto simp: SDiscover prog_simps manuallyOff_def)
  next
    case SDisconnect
    show ?thesis by (simp add: SDisconnect modifyP_def service_disconnect_def manuallyOff_def)
  next
    case STick
    with down assms(2) show ?thesis by (simp add: service_tick_def prog_simps manuallyOff_def)
  next
    case (SControl d)
    with down assms(2) show ?thesis by (simp add: control_def ifP_def)
  next
    case (SRead n)
    with assms(2) stopped_read [of s] show ?thesis by (simp add: modifyP_def manuallyOff_def)
  qed (use assms(1) in simp_all)
qed

lemma manuallyOff_run:
  "manuallyOff s \<Longrightarrow> let s' = runServices V (filter (Not \<circ> asksToConnect) cs) s in
     manuallyOff s' \<and> sv_sent s' = sv_sent s \<and> sv_clocks s' = sv_clocks s"
proof (induction cs arbitrary: s)
  case (Cons c cs)
  with manuallyOff_step [of c s V] show ?case by (auto simp: Let_def)
qed simp

text \<open>C19: A manual disconnect is final until someone asks for a connection. Whatever else
  follows, ticks, reader, discoveries, control requests, further disconnects: the device is
  not connected, the state reported is "manually_disconnected", nothing more is sent and the
  clock is not even read.\<close>

theorem manual_disconnect_is_final:
  "let s0 = service_disconnect V s; s' = runServices V (filter (Not \<circ> asksToConnect) cs) s0 in
    \<not> service_isConnected V s' \<and> connectionState V s' = ''manually_disconnected'' \<and>
    sv_sent s' = sv_sent s \<and> sv_clocks s' = sv_clocks s"
proof -
  have "manuallyOff (service_disconnect V s)" "sv_sent (service_disconnect V s) = sv_sent s"
    "sv_clocks (service_disconnect V s) = sv_clocks s"
    by (simp_all add: manuallyOff_def service_disconnect_def)
  with manuallyOff_run [of "service_disconnect V s" V cs] stopped_disconnected show ?thesis
    by (auto simp: Let_def manuallyOff_def connectionState_def)
qed

text \<open>C20: Reconnection. On a steady clock, when a service in use is told to reconnect by itself
  and is not connected, a tick never throws, and does one of three things: before the time set
  for the next attempt it only reads the clock, nothing reaches the device; otherwise, and
  at once on the first tick after the link was lost, it makes an attempt. When that connects,
  the waiting time is back to one second; when it fails, the next attempt waits for the
  current waiting time from a fresh reading of the clock, and the waiting time doubles, up
  to thirty seconds.\<close>

theorem ticks_back_off:
  assumes "s = runServices V cs (newService t)" "\<not> service_isConnected V s" "sv_automatic s"
    and "service_tick V s = (r, s')" "mono (ve_now V)"
  shows "r = Inr () \<and>
    (if \<not> sv_wasConnected s \<and> ve_now V (sv_clocks s) < sv_nextAttempt s
     then s' = s\<lparr>sv_clocks := sv_clocks s + 1\<rparr>
     else if service_isConnected V s' then connectionState V s' = ''connected'' \<and> sv_retrySeconds s' = 1
     else connectionState V s' = ''retrying'' \<and>
       sv_nextAttempt s' = ve_now V (sv_clocks s' - 1) + seconds (uint (sv_retrySeconds s)) \<and>
       sv_retrySeconds s' = min 30 (sv_retrySeconds s * 2))"
proof -
  have inv: "serviceInv s" unfolding assms(1) by (rule runServices_inv) (rule serviceInv_new)
  obtain q s1 where loss: "noteLoss V s = (q, s1)" by fastforce
  note o = noteLoss_outcome [OF inv assms(3) loss]
  let ?s2 = "s1\<lparr>sv_clocks := sv_clocks s1 + 1\<rparr>"
  have tick: "service_tick V s = (if ve_now V (sv_clocks s1) < sv_nextAttempt s1 then (Inr (), ?s2)
      else bindP (attempt V) (\<lambda>connected. if connected then returnP () else backOff V) ?s2)"
    using assms(2,3) o(1)
    by (simp add: service_tick_def ifP_def bindP_def [of "noteLoss V"] bindP_def [of "nowP V"] loss nowP_def)
  have same: "\<not> sv_wasConnected s \<Longrightarrow> s1 = s"
    using loss noteLoss_run [OF inv assms(3), of V] by simp
  have at_once: "sv_wasConnected s \<Longrightarrow> \<not> ve_now V (sv_clocks s1) < sv_nextAttempt s1"
    using loss noteLoss_run [OF inv assms(3), of V] monoD [OF assms(5), of "sv_clocks s" "Suc (sv_clocks s)"] by auto
  show ?thesis
  proof (cases "ve_now V (sv_clocks s1) < sv_nextAttempt s1")
    case True
    then have s': "r = Inr ()" "s' = ?s2" using tick assms(4) by simp_all
    with True same at_once show ?thesis by (cases "sv_wasConnected s") auto
  next
    case due: False
    with same have started: "\<not> (\<not> sv_wasConnected s \<and> ve_now V (sv_clocks s) < sv_nextAttempt s)" by auto
    obtain q' s3 where run: "attempt V ?s2 = (q', s3)" by fastforce
    with attempt_outcome [of ?s2 V] o obtain b where q': "q' = Inr b" and out: "attemptOutcome V ?s2 (Inr b, s3)"
      by (cases q') (auto simp: attemptOutcome_def)
    show ?thesis
    proof (cases b)
      case True
      with due tick assms(4) run q' have "s' = s3" "r = Inr ()" by (auto simp: bindP_def)
      with True out started show ?thesis by (auto simp: attemptOutcome_def connectionState_def)
    next
      case False
      with due tick assms(4) run q' have backed: "backOff V s3 = (r, s')" by (simp add: bindP_def)
      have s': "r = Inr ()" "s' = s3\<lparr>sv_connectionState := ''retrying'', sv_clocks := sv_clocks s3 + 1,
          sv_nextAttempt := ve_now V (sv_clocks s3) + seconds (uint (sv_retrySeconds s3)),
          sv_retrySeconds := min 30 (sv_retrySeconds s3 * 2)\<rparr>"
        using backed by (simp_all add: backOff_def prog_simps nowP_def)
      from False out o(4) have "stopped s'" "sv_retrySeconds s3 = sv_retrySeconds s"
        by (simp_all add: attemptOutcome_def s')
      with stopped_disconnected [of s' V] s' started show ?thesis by (auto simp: connectionState_def)
    qed
  qed
qed

text \<open>A service with no transport, asked to connect: its attempts fail.\<close>

definition lonelyEnv :: "FakeTransport ServiceEnv" where
  "lonelyEnv = \<lparr>ve_dev = \<lparr>en_T = fake_ops, en_polls = \<lambda>_. 5, en_clock = int\<rparr>, ve_now = int, ve_discover = None\<rparr>"

definition searching :: "FakeTransport Service" where
  "searching = runServices lonelyEnv [SAutoConnect ''AA''] (newService None)"

theorem ticks_back_off_witness:
  "sv_retrySeconds searching = 1 \<and> sv_retrySeconds (snd (service_tick lonelyEnv searching)) = 2 \<and>
   sv_nextAttempt (snd (service_tick lonelyEnv searching)) = 1000000002"
proof -
  have facts: "\<not> service_isConnected lonelyEnv searching" "sv_automatic searching" "sv_retrySeconds searching = 1"
    "\<not> service_isConnected lonelyEnv (snd (service_tick lonelyEnv searching))"
    "sv_clocks (snd (service_tick lonelyEnv searching)) = 3"
    "\<not> ve_now lonelyEnv (sv_clocks searching) < sv_nextAttempt searching"
    by code_simp+
  have "mono (ve_now lonelyEnv)" by (simp add: mono_def lonelyEnv_def)
  from ticks_back_off [OF searching_def facts(1,2) prod.collapse [symmetric] this] facts
  have "sv_retrySeconds (snd (service_tick lonelyEnv searching)) = 2"
    "sv_nextAttempt (snd (service_tick lonelyEnv searching)) = ve_now lonelyEnv 2 + seconds 1" by auto
  with facts(3) show ?thesis by (simp add: lonelyEnv_def seconds_def)
qed

text \<open>The devices are listed as people expect them: every device found, with the protocol
  its name selects, once each; the connected ones first; by address within the connected and
  within the others; and devices with the same flag and address in the order they were
  found. A discovery that fails passes its error on; without a discovery there are none.\<close>

theorem devices_listed_in_order:
  "case fst (discoverDevices V s) of
     Inl e \<Rightarrow> \<exists>disc. ve_discover V = Some disc \<and> disc (sv_discoveries s) = Inl e
   | Inr ds \<Rightarrow> (case ve_discover V of
       None \<Rightarrow> ds = []
     | Some disc \<Rightarrow> \<exists>found. disc (sv_discoveries s) = Inr found \<and>
         mset ds = mset (map describeFound found) \<and>
         sorted_wrt (\<lambda>a b. if (dd_connected a = Some True) = (dd_connected b = Some True)
           then dd_address a \<le> dd_address b else dd_connected a = Some True) ds \<and>
         filter (\<lambda>d. dd_address d = a \<and> (dd_connected d = Some True) = c) ds =
         filter (\<lambda>d. dd_address d = a \<and> (dd_connected d = Some True) = c) (map describeFound found))"
proof -
  have before: "\<not> deviceBefore y x \<longleftrightarrow> (if (dd_connected x = Some True) = (dd_connected y = Some True)
      then dd_address x \<le> dd_address y else dd_connected x = Some True)" for x y
    by (auto simp: deviceBefore_def Let_def split: option.splits)
  have trans: "transp (\<lambda>x y. \<not> deviceBefore y x)" unfolding before
    by (rule transpI) (auto split: if_splits)
  have asym: "asymp deviceBefore"
    by (rule asympI) (auto simp: deviceBefore_def Let_def split: option.splits if_splits)
  have sort: "sorted_wrt (\<lambda>a b. if (dd_connected a = Some True) = (dd_connected b = Some True)
      then dd_address a \<le> dd_address b else dd_connected a = Some True) (stable_sort deviceBefore ds)" for ds
    using sorted_stable_sort [OF trans asym, of ds] unfolding before .
  have stable: "filter (\<lambda>d. dd_address d = a \<and> (dd_connected d = Some True) = c) (stable_sort deviceBefore ds) =
      filter (\<lambda>d. dd_address d = a \<and> (dd_connected d = Some True) = c) ds" for ds
    by (rule filter_stable_sort) (simp add: before)
  show ?thesis
  proof (cases "ve_discover V")
    case None
    then show ?thesis by (simp add: discoverDevices_def)
  next
    case (Some disc)
    show ?thesis
    proof (cases "disc (sv_discoveries s)")
      case (Inl e)
      with Some show ?thesis by (simp add: discoverDevices_def Let_def)
    next
      case (Inr found)
      with Some have run: "fst (discoverDevices V s) = Inr (stable_sort deviceBefore (map describeFound found))"
        by (simp add: discoverDevices_def Let_def)
      show ?thesis
        unfolding run Some sum.case option.case using Inr sort stable mset_stable_sort by blast
    qed
  qed
qed

section \<open>The interface implemented\<close>

definition deviceService :: "'t ServiceEnv \<Rightarrow> ('t Service, 't) IDeviceService" where
  "deviceService V =
     \<lparr>is_tick = service_tick V, is_startAutoConnect = startAutoConnect V,
      is_connectionState = connectionState V, is_selectedAddress = sv_selected, is_lastError = sv_lastError,
      is_discoverDevices = discoverDevices V, is_connect = service_connect V,
      is_disconnect = service_disconnect V, is_isConnected = service_isConnected V,
      is_activeDevice = sv_device, is_onDevice = onDevice, is_snapshot = service_snapshot\<rparr>"

definition linkInv :: "'t Service \<Rightarrow> bool" where
  "linkInv s \<longleftrightarrow> (case sv_device s of None \<Rightarrow> True | Some d \<Rightarrow> deviceInv d)"

lemma newDevice_safe: "deviceInv (newDevice t v)" "dv_sent (newDevice t v) = []"
  by (simp_all add: newDevice_def deviceInv_def dv_sent_def Let_def)

lemma safe_onDevice [emits_intros]:
  assumes "safeP deviceInv dv_sent ok m"
  shows "safeP linkInv sv_sent ok (onDevice m)"
  unfolding safeP_def
proof (intro allI impI)
  fix s :: "'a Service" assume inv: "linkInv s"
  show "linkInv (snd (onDevice m s)) \<and> (\<exists>xs. sv_sent (snd (onDevice m s)) = sv_sent s @ xs \<and> list_all ok xs)"
  proof (cases "sv_device s")
    case None
    then show ?thesis by (simp add: onDevice_def linkInv_def sv_sent_def)
  next
    case (Some d)
    obtain r d' where run: "m d = (r, d')" by fastforce
    from inv Some have "deviceInv d" by (simp add: linkInv_def)
    with assms run obtain xs where "deviceInv d'" "dv_sent d' = dv_sent d @ xs" "list_all ok xs"
      by (elim emits_step) auto
    with Some run show ?thesis by (auto simp: onDevice_def linkInv_def sv_sent_def)
  qed
qed

text \<open>Steps that leave the device alone, or only disconnect it.\<close>

lemma safe_members:
  assumes "\<And>s. sv_device (f s) = sv_device s \<or> sv_device (f s) = sv_device (disconnectDevice V s)"
  shows "safeP linkInv sv_sent ok (modifyP f)"
proof -
  have "linkInv s \<Longrightarrow> linkInv (f s)" "sv_sent (f s) = sv_sent s" for s
    using assms [of s] by (auto simp: linkInv_def sv_sent_def disconnectDevice_def disconnect_effects split: option.split)
  then show ?thesis by (intro emits_modify)
qed

lemma safe_now [emits_intros]: "safeP linkInv sv_sent ok (nowP V)"
  by (simp add: safeP_def nowP_def linkInv_def sv_sent_def)

lemma safe_discover [emits_intros]: "safeP linkInv sv_sent ok (discoverDevices V)"
proof -
  have "linkInv (snd (discoverDevices V s)) = linkInv s \<and> sv_sent (snd (discoverDevices V s)) = sv_sent s" for s
    using discover_frame [of V s] by (auto simp: linkInv_def sv_sent_def)
  then show ?thesis by (simp add: safeP_def)
qed

lemma safe_connect1 [emits_intros]: "safeP linkInv sv_sent calmOk (service_connect1 V a n)"
proof -
  have start: "safeP linkInv sv_sent calmOk (modifyP (\<lambda>s. s\<lparr>sv_selected := a, sv_connectionState := ''connecting'',
      sv_device := (case sv_device s of None \<Rightarrow> Some (newDevice (sv_transport s) V1) | Some d \<Rightarrow> Some d)\<rparr>))"
    by (rule emits_modify) (auto simp: linkInv_def sv_sent_def newDevice_safe split: option.splits)
  show ?thesis unfolding service_connect1_def
    by (intro emits_intros start safe_members) simp_all
qed

lemma safe_tryCandidates [emits_intros]: "safeP linkInv sv_sent calmOk (tryCandidates V cs)"
proof (induction cs)
  case (Cons c cs)
  have "safeP linkInv sv_sent calmOk (modifyP (\<lambda>s. disconnectDevice V (s\<lparr>sv_lastError := w\<rparr>)))" for w
    by (rule safe_members [where V = V]) (simp add: disconnectDevice_def)
  with Cons show ?case unfolding tryCandidates.simps by (intro emits_intros)
qed (simp only: tryCandidates.simps emits_return)

lemma safe_attempt [emits_intros]: "safeP linkInv sv_sent calmOk (attempt V)"
  unfolding attempt_def by (intro emits_intros safe_members) simp_all

lemma safe_maintain [emits_intros]: "safeP linkInv sv_sent calmOk (maintain V)"
  unfolding maintain_def by (intro emits_intros safe_members) simp_all

lemma safe_noteLoss [emits_intros]: "safeP linkInv sv_sent calmOk (noteLoss V)"
proof -
  have "safeP deviceInv dv_sent calmOk (\<lambda>d. (Inr (), device_disconnect E d))" for E :: "'a Env"
    using safe_disconnect by (simp add: modifyP_def)
  then show ?thesis unfolding noteLoss_def by (intro emits_intros safe_members) simp_all
qed

lemma safe_tick: "safeP linkInv sv_sent calmOk (service_tick V)"
  unfolding service_tick_def backOff_def by (intro emits_intros safe_members) simp_all

lemma safe_service_connect: "safeP linkInv sv_sent calmOk (service_connect V a n)"
proof -
  have "safeP linkInv sv_sent calmOk (modifyP (\<lambda>s. (disconnectDevice V (s\<lparr>sv_wasConnected := False\<rparr>))
      \<lparr>sv_lastError := w, sv_connectionState := ''retrying''\<rparr>))" for w
    by (rule safe_members [where V = V]) (simp add: disconnectDevice_def)
  then show ?thesis unfolding service_connect_def
    by (intro emits_intros) (auto intro!: safe_members)
qed

interpretation svc: service_laws "deviceService V" linkInv sv_sent for V
proof
  fix m :: "('a Device, unit) prog" and s d
  assume "is_activeDevice (deviceService V) s = Some d"
  then show "fst (is_onDevice (deviceService V) m s) = fst (m d) \<and>
      is_activeDevice (deviceService V) (snd (is_onDevice (deviceService V) m s)) = Some (snd (m d))"
    by (simp add: deviceService_def onDevice_def case_prod_unfold Let_def)
next
  show "safeP linkInv sv_sent ok (modifyP (is_disconnect (deviceService V)))" for ok
    unfolding deviceService_def IDeviceService.simps
    by (rule safe_members [where V = V]) (simp add: service_disconnect_def disconnectDevice_def)
next
  show "safeP linkInv sv_sent ok (is_startAutoConnect (deviceService V) address)" for ok address
    unfolding deviceService_def IDeviceService.simps startAutoConnect_def
    by (intro emits_intros safe_members) simp_all
qed (simp_all add: deviceService_def safe_onDevice safe_discover safe_service_connect safe_tick)

end
