(* ===== verification/IpcProtocol.thy ===== *)
theory IpcProtocol
  imports IDeviceService EqualizerPresets
begin

text \<open>
  \<open>IpcProtocol\<close>, the daemon's text protocol: one command per line, one response line per
  command. Commands are parsed into \<open>IpcCommand\<close>, executed on the service, and the
  response is written as status, message and data between bars, with the newlines of the
  data as record separators.

  The model is the Release build, in which \<open>raw\<close> is compiled out and refused (for the other one
  see \<open>DebugBuild\<close>). A line that
  starts with a brace or bracket goes to the JSON protocol, the parameter \<open>json\<close> here.
\<close>

section \<open>Commands\<close>

datatype IpcCommandType =
    Devices | Info | Battery | Anc | AmbientCmd | EqGet | EqPreset | EqCustom | Dsee
  | AutoPowerOff | SpeakToChat | AdaptiveVolume | Status | Reset | FactoryReset | Raw | UnknownCmd

record IpcCommand =
  ic_type :: IpcCommandType
  ic_args :: "string list"
  ic_raw :: string

record IpcResponse =
  ir_success :: bool
  ir_message :: string
  ir_data :: string

definition kConfirmArg :: string where
  "kConfirmArg = ''--yes''"

text \<open>\<open>splitTokens\<close>: \<open>cur\<close> is the token being read.\<close>

fun splitAcc :: "string \<Rightarrow> string \<Rightarrow> string list" where
  "splitAcc cur [] = (if cur = [] then [] else [cur])"
| "splitAcc cur (c # cs) =
     (if isspaceC c then (if cur = [] then splitAcc [] cs else cur # splitAcc [] cs)
      else splitAcc (cur @ [c]) cs)"

definition splitTokens :: "string \<Rightarrow> string list" where
  "splitTokens str = splitAcc '''' str"

definition commandType :: "string list \<Rightarrow> IpcCommandType" where
  "commandType tokens =
     (let verb = toLower (hd tokens) in
      if verb = ''devices'' then Devices
      else if verb = ''info'' then Info
      else if verb = ''battery'' then Battery
      else if verb = ''anc'' then Anc
      else if verb = ''ambient'' then AmbientCmd
      else if verb = ''eq'' then
        (if 1 < length tokens \<and> toLower (tokens ! 1) = ''get'' then EqGet
         else if 1 < length tokens \<and> toLower (tokens ! 1) = ''preset'' then EqPreset
         else if 1 < length tokens \<and> toLower (tokens ! 1) = ''custom'' then EqCustom
         else EqPreset)
      else if verb = ''dsee'' then Dsee
      else if verb = ''autopoweroff'' \<or> verb = ''apo'' then AutoPowerOff
      else if verb = ''speaktochat'' then SpeakToChat
      else if verb = ''adaptivevolume'' then AdaptiveVolume
      else if verb = ''status'' then Status
      else if verb = ''reset'' then Reset
      else if verb = ''factoryreset'' then FactoryReset
      else if verb = ''raw'' then Raw
      else UnknownCmd)"

definition parseCommand :: "string \<Rightarrow> IpcCommand" where
  "parseCommand line =
     (let tokens = splitTokens line in
      if tokens = [] then \<lparr>ic_type = UnknownCmd, ic_args = [], ic_raw = line\<rparr>
      else \<lparr>ic_type = commandType tokens, ic_args = tl tokens, ic_raw = line\<rparr>)"

definition needsConfirmation :: "IpcCommand \<Rightarrow> bool" where
  "needsConfirmation cmd =
     (if ic_type cmd \<noteq> FactoryReset then False
      else list_all (\<lambda>arg. toLower arg \<noteq> kConfirmArg) (ic_args cmd))"

section \<open>Responses\<close>

definition NL :: char where "NL = CHR 0x0A"
definition CR :: char where "CR = CHR 0x0D"
definition RS :: char where "RS = CHR 0x1E"
definition BAR :: char where "BAR = CHR 0x7C"

definition respond :: "bool \<Rightarrow> string \<Rightarrow> string \<Rightarrow> IpcResponse" where
  "respond ok message data = \<lparr>ir_success = ok, ir_message = message, ir_data = data\<rparr>"

definition serializeResponse :: "IpcResponse \<Rightarrow> string" where
  "serializeResponse r =
     (let encodedData = map (\<lambda>c. if c = NL then RS else c) (ir_data r)
      in (if ir_success r then ''OK'' else ''ERR'') @ [BAR] @ ir_message r @ [BAR] @ encodedData @ [NL])"

definition stripEnd :: "string \<Rightarrow> string" where
  "stripEnd line = rev (dropWhile (\<lambda>c. c = NL \<or> c = CR) (rev line))"

definition parseResponse :: "string \<Rightarrow> IpcResponse" where
  "parseResponse line0 =
     (let line = stripEnd line0;
          status = takeWhile (\<lambda>c. c \<noteq> BAR) line;
          rest = dropWhile (\<lambda>c. c \<noteq> BAR) line
      in if rest = [] then respond False line ''''
         else let body = tl rest;
                  second = dropWhile (\<lambda>c. c \<noteq> BAR) body
              in if second = [] then respond (status = ''OK'') body ''''
                 else respond (status = ''OK'') (takeWhile (\<lambda>c. c \<noteq> BAR) body)
                        (map (\<lambda>c. if c = RS then NL else c) (tl second)))"

section \<open>Execution\<close>

definition showNat :: "nat \<Rightarrow> string" where
  "showNat n = natDigits n"

definition devicesText :: "DiscoveredDevice list \<Rightarrow> string" where
  "devicesText devs = concat (map (\<lambda>(i, d). dd_name d @ '' ['' @ dd_address d @ '']'' @
     (if i + 1 < length devs then [NL] else [])) (enumerate 0 devs))"

definition orUnknown :: "string \<Rightarrow> string" where
  "orUnknown s = (if s = '''' then ''Unknown'' else s)"

definition infoText :: "'t Device \<Rightarrow> string" where
  "infoText dev =
     (let snap = dv_state dev; caps = dv_capabilities dev; nc = ds_noiseControl snap in
      dv_name dev @ [NL, NL] @
      ''Protocol: '' @ (if dv_version dev = V1 then ''v1'' else ''v2'') @ [NL] @
      ''Firmware: '' @ orUnknown (ds_firmware snap) @ [NL] @
      ''Codec: '' @ orUnknown (ds_codec snap) @ [NL] @
      (case bt_main (ds_battery snap) of
         Some m \<Rightarrow> ''Battery: '' @ to_string_int m @ ''%'' @ [NL] | None \<Rightarrow> '''') @
      [NL] @ ''Noise Control:'' @ [NL] @ ''  '' @
      (if nc_mode nc = NoiseCancelling then ''Noise Cancelling'' @ [NL]
       else if nc_mode nc = Ambient then ''Ambient (Level '' @ to_string_int (nc_ambientLevel nc) @ '')'' @ [NL]
       else ''Off'' @ [NL]) @
      [NL] @ ''Capabilities:'' @ [NL] @
      (if cap_noiseCancelling caps then ''  ANC'' @ [NL] else '''') @
      (if cap_ambientSound caps then ''  Ambient Sound'' @ [NL] else '''') @
      (if cap_equalizer caps then ''  Equalizer'' @ [NL] else '''') @
      (if cap_clearBass caps then ''  Clear Bass'' @ [NL] else '''') @
      (if cap_dsee caps then ''  DSEE'' @ [NL] else '''') @
      (if cap_speakToChat caps then ''  Speak-to-Chat'' @ [NL] else '''') @
      (if cap_adaptiveVolume caps then ''  Adaptive Volume'' @ [NL] else ''''))"

definition batteryText :: "DeviceState \<Rightarrow> string" where
  "batteryText snap =
     (let b = ds_battery snap in
      (case (bt_left b, bt_right b) of
         (Some l, Some r) \<Rightarrow> ''Left: '' @ to_string_int l @ ''%, Right: '' @ to_string_int r @ ''%'' @
           (case bt_case b of Some c \<Rightarrow> '', Case: '' @ to_string_int c @ ''%'' | None \<Rightarrow> '''')
       | _ \<Rightarrow> (case bt_main b of
           Some m \<Rightarrow> ''Battery: '' @ to_string_int m @ ''%'' | None \<Rightarrow> ''Battery: Unknown'')) @
      (if bt_charging b then '' (Charging)'' else ''''))"

definition bandsText :: "int list \<Rightarrow> string" where
  "bandsText bands = concat (map (\<lambda>(i, b). to_string_int b @ (if i + 1 < length bands then '', '' else ''''))
     (enumerate 0 bands))"

definition eqText :: "DeviceState \<Rightarrow> string" where
  "eqText snap =
     (let e = ds_equalizer snap in
      ''Preset: '' @ equalizerPresetName (eq_preset e) @ [NL] @
      ''Clear Bass: '' @ to_string_int (eq_clearBass e) @ [NL] @
      ''Bands: ['' @ bandsText (eq_bands e) @ '']'')"

text \<open>\<open>std::clamp(std::stoi(arg), lo, hi)\<close>, with the value kept when \<open>stoi\<close> throws.\<close>

definition clampArg :: "int \<Rightarrow> string \<Rightarrow> int \<Rightarrow> int \<Rightarrow> int" where
  "clampArg keep arg lo hi = (case stoi arg of Some v \<Rightarrow> clamp v lo hi | None \<Rightarrow> keep)"

definition firstArg :: "IpcCommand \<Rightarrow> string option" where
  "firstArg cmd = (case ic_args cmd of [] \<Rightarrow> None | a # _ \<Rightarrow> Some a)"

text \<open>On, unless the first argument says \<open>off\<close>.\<close>

definition onArg :: "IpcCommand \<Rightarrow> bool" where
  "onArg cmd = (case firstArg cmd of Some a \<Rightarrow> toLower a \<noteq> ''off'' | None \<Rightarrow> True)"

definition customArgs :: "IpcCommand \<Rightarrow> int \<times> int list" where
  "customArgs cmd =
     (let args = ic_args cmd;
          start = (if args \<noteq> [] \<and> toLower (hd args) = ''custom'' then 1 else 0);
          bass = (if start < length args then clampArg 0 (args ! start) (- 10) 10 else 0)
      in (bass, map (\<lambda>i. if start + 1 + i < length args then clampArg 0 (args ! (start + 1 + i)) (- 10) 10 else 0)
                  [0..<5]))"

definition presetArg :: "IpcCommand \<Rightarrow> string" where
  "presetArg cmd =
     (let name = (case firstArg cmd of None \<Rightarrow> ''off'' | Some a \<Rightarrow> a)
      in if name = ''preset'' \<and> 1 < length (ic_args cmd) then ic_args cmd ! 1 else name)"

text \<open>The switch over the commands for a connected device. \<open>act\<close> calls a method of the
  device and then answers.\<close>

definition act :: "('s, 't) IDeviceService \<Rightarrow> ('t Device, unit) prog \<Rightarrow> string \<Rightarrow> ('s, IpcResponse) prog" where
  "act S m message = bindP (is_onDevice S m) (\<lambda>_. returnP (respond True message ''''))"

definition ipc_switch ::
    "('s, 't) IDeviceService \<Rightarrow> 't Env \<Rightarrow> IpcCommand \<Rightarrow> 't Device \<Rightarrow> ('s, IpcResponse) prog" where
  "ipc_switch S E cmd dev =
     (let snap = dv_state dev; on = onArg cmd in
      case ic_type cmd of
        Info \<Rightarrow> returnP (respond True (dv_name dev) (infoText dev))
      | Battery \<Rightarrow> returnP (respond True ''Battery status'' (batteryText snap))
      | Anc \<Rightarrow> act S (device_setAnc E on) (if on then ''ANC enabled'' else ''ANC disabled'')
      | AmbientCmd \<Rightarrow>
          (if \<not> on then act S (device_setAnc E False) ''Ambient sound disabled''
           else let level = (case firstArg cmd of Some a \<Rightarrow> clampArg 10 a 1 20 | None \<Rightarrow> 10)
             in act S (device_setAmbient E level False) (''Ambient sound set to level '' @ to_string_int level))
      | EqGet \<Rightarrow> returnP (respond True ''Equalizer state'' (eqText snap))
      | EqPreset \<Rightarrow>
          (let name = presetArg cmd; preset = equalizerPresetFromName name
           in if preset < 0 \<or> 255 < preset then returnP (respond False (''Unknown preset: '' @ name) '''')
              else act S (device_setEqualizerPreset E preset) (''Equalizer set to preset '' @ equalizerPresetName preset))
      | EqCustom \<Rightarrow>
          (case customArgs cmd of (clearBass, bands) \<Rightarrow>
             act S (device_setEqualizerCustom E clearBass bands) ''Custom EQ applied'')
      | Dsee \<Rightarrow> act S (device_setDsee E on) (if on then ''DSEE enabled'' else ''DSEE disabled'')
      | AutoPowerOff \<Rightarrow>
          (let idx = (case firstArg cmd of Some a \<Rightarrow> clampArg 0 a 0 5 | None \<Rightarrow> 0)
           in act S (device_setAutoPowerOff E idx) (''Auto power off set to index '' @ to_string_int idx))
      | SpeakToChat \<Rightarrow> act S (device_setSpeakToChat E on) (if on then ''Speak-to-Chat enabled'' else ''Speak-to-Chat disabled'')
      | AdaptiveVolume \<Rightarrow>
          act S (device_setAdaptiveVolume E on) (if on then ''Adaptive Volume enabled'' else ''Adaptive Volume disabled'')
      | Status \<Rightarrow> returnP (respond True ''Connected'' (''model='' @ dv_name dev))
      | Reset \<Rightarrow> act S (device_reset E) ''Headphone settings initialized; device will disconnect''
      | FactoryReset \<Rightarrow>
          act S (device_factoryReset E) ''Factory reset sent; pairing wiped, headphones will need to be re-paired''
      | _ \<Rightarrow> returnP (respond False (''Unknown command: '' @ ic_raw cmd) ''''))"

definition ipc_execute :: "('s, 't) IDeviceService \<Rightarrow> 't Env \<Rightarrow> IpcCommand \<Rightarrow> ('s, IpcResponse) prog" where
  "ipc_execute S E cmd =
     (if ic_type cmd = Devices
      then bindP (is_discoverDevices S) (\<lambda>devs.
             returnP (respond True (showNat (length devs) @ '' devices found'') (devicesText devs)))
      else if needsConfirmation cmd
      then returnP (respond False ''factoryreset wipes the pairing and must be confirmed explicitly (pass --yes)'' '''')
      else if ic_type cmd = Raw
      then returnP (respond False ''raw is only available in Debug builds (rebuild sonyd with -DCMAKE_BUILD_TYPE=Debug)'' '''')
      else bindP (getP (\<lambda>s. (is_activeDevice S s, is_isConnected S s))) (\<lambda>(dev, connected).
        if ic_type cmd = Status
        then returnP (respond connected
               (if connected then ''Connected'' else if dev \<noteq> None then ''Device disconnected'' else ''No device selected'')
               (case dev of Some d \<Rightarrow> ''model='' @ dv_name d | None \<Rightarrow> ''''))
        else case dev of
          None \<Rightarrow> returnP (respond False ''No device connected'' '''')
        | Some d \<Rightarrow>
            if \<not> device_isConnected E d then returnP (respond False ''No device connected'' '''')
            else catchAny (ipc_switch S E cmd d)
                   (\<lambda>e. returnP (respond False (''Command failed: '' @ exn_what e) ''''))))"

text \<open>A line that starts, after blanks, with a brace or bracket.\<close>

definition jsonLine :: "string \<Rightarrow> bool" where
  "jsonLine line =
     (let start = dropWhile (\<lambda>c. c = CHR '' '' \<or> c = CR \<or> c = CHR 0x09) line
      in start \<noteq> [] \<and> (hd start = CHR 0x7B \<or> hd start = CHR 0x5B))"

text \<open>\<open>executeLine\<close>; \<open>json\<close> is \<open>JsonProtocol::executeLine\<close>.\<close>

definition ipc_executeLine ::
    "('s, 't) IDeviceService \<Rightarrow> 't Env \<Rightarrow> (string \<Rightarrow> ('s, string) prog) \<Rightarrow> string \<Rightarrow> ('s, string) prog" where
  "ipc_executeLine S E json line =
     (if jsonLine line then json line
      else bindP (ipc_execute S E (parseCommand line)) (\<lambda>r. returnP (serializeResponse r)))"

section \<open>Parsing\<close>

text \<open>Tokens are what lies between white space: none is empty or holds any, and joining
  them with single spaces gives a line with the same tokens.\<close>

lemma splitAcc_tokens:
  "list_all (Not \<circ> isspaceC) cur \<Longrightarrow> list_all (\<lambda>t. t \<noteq> [] \<and> list_all (Not \<circ> isspaceC) t) (splitAcc cur s)"
  by (induction cur s rule: splitAcc.induct) auto

fun joinTokens :: "string list \<Rightarrow> string" where
  "joinTokens [] = ''''"
| "joinTokens [t] = t"
| "joinTokens (t # ts) = t @ CHR '' '' # joinTokens ts"

lemma splitAcc_word:
  "list_all (Not \<circ> isspaceC) w \<Longrightarrow> splitAcc cur (w @ s) = splitAcc (cur @ w) s"
  by (induction w arbitrary: cur) auto

lemma isspace_blank [simp]: "isspaceC (CHR '' '')"
  by (simp add: isspaceC_def Let_def)

lemma split_join:
  "list_all (\<lambda>t. t \<noteq> [] \<and> list_all (Not \<circ> isspaceC) t) ts \<Longrightarrow> splitTokens (joinTokens ts) = ts"
proof (induction ts rule: joinTokens.induct)
  case (2 t)
  with splitAcc_word [of t "[]" "[]"] show ?case by (simp add: splitTokens_def comp_def)
next
  case (3 t t' ts)
  with splitAcc_word [of t "[]" "CHR '' '' # joinTokens (t' # ts)"] show ?case
    by (simp add: splitTokens_def comp_def)
qed (simp add: splitTokens_def)

text \<open>A command line is its words. The words of a line are never empty and hold no white
  space, writing them again with single spaces between them gives the same command (only
  \<open>raw\<close> remembers the line), and verb, keywords and the confirmation are read in either
  case.\<close>

theorem command_is_its_words:
  "(case splitTokens line of
      [] \<Rightarrow> parseCommand line = \<lparr>ic_type = UnknownCmd, ic_args = [], ic_raw = line\<rparr>
    | verb # args \<Rightarrow>
        list_all (\<lambda>t. t \<noteq> '''' \<and> list_all (Not \<circ> isspaceC) t) (verb # args) \<and>
        parseCommand line = \<lparr>ic_type = commandType (verb # args), ic_args = args, ic_raw = line\<rparr> \<and>
        parseCommand (joinTokens (verb # args)) = (parseCommand line)\<lparr>ic_raw := joinTokens (verb # args)\<rparr> \<and>
        commandType (toLower verb # map toLower args) = commandType (verb # args) \<and>
        needsConfirmation ((parseCommand line)\<lparr>ic_args := map toLower args\<rparr>) = needsConfirmation (parseCommand line))"
proof (cases "splitTokens line")
  case Nil
  then show ?thesis by (simp add: parseCommand_def)
next
  case (Cons verb args)
  have words: "list_all (\<lambda>t. t \<noteq> '''' \<and> list_all (Not \<circ> isspaceC) t) (verb # args)"
    using splitAcc_tokens [of "''''" line] Cons by (simp add: splitTokens_def)
  have low: "toLower (toLower t) = toLower t" for t by (simp add: toLower_def)
  have nth: "1 < length (verb # args) \<Longrightarrow> toLower ((toLower verb # map toLower args) ! 1) = toLower ((verb # args) ! 1)"
    by (cases args) (simp_all add: low)
  have type: "commandType (toLower verb # map toLower args) = commandType (verb # args)"
    unfolding commandType_def by (cases args) (simp_all add: low Let_def)
  have conf: "needsConfirmation (c\<lparr>ic_args := map toLower (ic_args c)\<rparr>) = needsConfirmation c" for c
    by (simp add: needsConfirmation_def list_all_iff low)
  have args: "ic_args (parseCommand line) = args" using Cons by (simp add: parseCommand_def)
  show ?thesis
    using words type conf [of "parseCommand line"] split_join [OF words] Cons
    by (simp add: parseCommand_def Let_def)
qed

section \<open>Responses on the wire\<close>

lemma chars [simp]: "NL \<noteq> BAR" "CR \<noteq> BAR" "RS \<noteq> BAR" "NL \<noteq> RS" "NL \<noteq> CR" "RS \<noteq> CR"
  by (simp_all add: NL_def CR_def RS_def BAR_def)

lemma chars_sym [simp]: "BAR \<noteq> NL" "BAR \<noteq> CR" "BAR \<noteq> RS" "RS \<noteq> NL" "CR \<noteq> NL" "CR \<noteq> RS"
  by (simp_all add: NL_def CR_def RS_def BAR_def)

lemma split_bar:
  "BAR \<notin> set a \<Longrightarrow> takeWhile (\<lambda>c. c \<noteq> BAR) (a @ BAR # b) = a \<and> dropWhile (\<lambda>c. c \<noteq> BAR) (a @ BAR # b) = BAR # b"
  by (induction a) auto

lemma stripEnd_line:
  "stripEnd (xs @ [NL]) = stripEnd xs"
  by (simp add: stripEnd_def)

lemma stripEnd_append:
  "stripEnd ys \<noteq> [] \<Longrightarrow> stripEnd (xs @ ys) = xs @ stripEnd ys"
  unfolding stripEnd_def by (simp add: dropWhile_append split: if_splits) (metis dropWhile_eq_Nil_conv)

lemma stripEnd_bar: "stripEnd (xs @ BAR # ys) = xs @ BAR # stripEnd ys"
  by (cases "dropWhile (\<lambda>c. c = NL \<or> c = CR) (rev ys) = []")
     (auto simp: stripEnd_def dropWhile_append dropWhile_append3)

text \<open>What a client reads of any response whose message has no bar: the same, but for carriage
  returns at the very end of the data and record separators in it.\<close>

lemma parse_serialized:
  assumes "BAR \<notin> set (ir_message r)"
  shows "parseResponse (serializeResponse r) = respond (ir_success r) (ir_message r)
     (map (\<lambda>c. if c = RS then NL else c) (stripEnd (map (\<lambda>c. if c = NL then RS else c) (ir_data r))))"
proof -
  let ?st = "if ir_success r then ''OK'' else ''ERR''"
  let ?d = "map (\<lambda>c. if c = NL then RS else c) (ir_data r)"
  have st: "BAR \<notin> set ?st" "(?st = ''OK'') = ir_success r" by (simp_all add: BAR_def)
  have line: "stripEnd (serializeResponse r) = ?st @ BAR # ir_message r @ BAR # stripEnd ?d"
    using stripEnd_line [of "?st @ BAR # ir_message r @ BAR # ?d"]
      stripEnd_bar [of "?st @ BAR # ir_message r" ?d]
    by (simp add: serializeResponse_def Let_def)
  show ?thesis
    unfolding parseResponse_def line Let_def
    using split_bar [OF st(1), of "ir_message r @ BAR # stripEnd ?d"] split_bar [OF assms, of "stripEnd ?d"] st(2)
    by simp
qed



text \<open>A flaw that the model shows: the message is not encoded, so an unknown command with a
  bar in it comes back to the client cut short, with the rest of it as data.\<close>

theorem bar_in_message_is_lost:
  "let cmd = parseCommand ''play|x''; r = respond False (''Unknown command: '' @ ic_raw cmd) ''''
   in ic_type cmd = UnknownCmd \<and>
      parseResponse (serializeResponse r) = respond False ''Unknown command: play'' ''x|''"
  by code_simp

section \<open>What a command does\<close>

text \<open>Abstractly, a command asks for at most one call on the device.\<close>

definition ipcCall :: "IpcCommand \<Rightarrow> DeviceCall option" where
  "ipcCall cmd = (case ic_type cmd of
      Anc \<Rightarrow> Some (CSetAnc (onArg cmd))
    | AmbientCmd \<Rightarrow> Some (if onArg cmd
        then CSetAmbient (case firstArg cmd of Some a \<Rightarrow> clampArg 10 a 1 20 | None \<Rightarrow> 10) False
        else CSetAnc False)
    | EqPreset \<Rightarrow>
        (let p = equalizerPresetFromName (presetArg cmd)
         in if p < 0 \<or> 255 < p then None else Some (CSetEqualizerPreset p))
    | EqCustom \<Rightarrow> Some (CSetEqualizerCustom (fst (customArgs cmd)) (snd (customArgs cmd)))
    | Dsee \<Rightarrow> Some (CSetDsee (onArg cmd))
    | AutoPowerOff \<Rightarrow> Some (CSetAutoPowerOff (case firstArg cmd of Some a \<Rightarrow> clampArg 0 a 0 5 | None \<Rightarrow> 0))
    | SpeakToChat \<Rightarrow> Some (CSetSpeakToChat (onArg cmd))
    | AdaptiveVolume \<Rightarrow> Some (CSetAdaptiveVolume (onArg cmd))
    | Reset \<Rightarrow> Some CReset
    | FactoryReset \<Rightarrow> if needsConfirmation cmd then None else Some CFactoryReset
    | _ \<Rightarrow> None)"

lemma clampArg_range: "lo \<le> keep \<Longrightarrow> keep \<le> hi \<Longrightarrow> lo \<le> clampArg keep a lo hi \<and> clampArg keep a lo hi \<le> hi"
  using clamp_bounds [of lo hi] by (simp add: clampArg_def split: option.split)

lemma customArgs_range:
  "- 10 \<le> fst (customArgs cmd) \<and> fst (customArgs cmd) \<le> 10 \<and> length (snd (customArgs cmd)) = 5 \<and>
   list_all (\<lambda>b. - 10 \<le> b \<and> b \<le> 10) (snd (customArgs cmd))"
  using clampArg_range [of "- 10" 0 10] by (auto simp: customArgs_def Let_def list_all_iff)

lemma ipcCall_inRange: "ipcCall cmd = Some c \<Longrightarrow> callInRange c"
  using clampArg_range [of 1 10 20] clampArg_range [of 0 0 5] customArgs_range [of cmd]
  by (auto simp: ipcCall_def Let_def split: IpcCommandType.splits if_splits option.splits)

text \<open>The switch runs that call, and succeeds when it does.\<close>

lemma act_run:
  "act S m w s = (case is_onDevice S m s of (Inl e, s') \<Rightarrow> (Inl e, s') | (Inr _, s') \<Rightarrow> (Inr (respond True w ''''), s'))"
  by (simp add: act_def bindP_def split: sum.split prod.split)

lemma switch_acts:
  assumes "ipcCall cmd = Some c"
  shows "\<exists>w. ipc_switch S E cmd d = act S (runCall E c) w"
  using assms by (cases "ic_type cmd")
    (auto simp: ipcCall_def ipc_switch_def Let_def case_prod_unfold split: if_splits)

lemma switch_answers:
  assumes "ipcCall cmd = None" "\<not> needsConfirmation cmd"
  shows "\<exists>r. ipc_switch S E cmd d = returnP r"
  using assms by (cases "ic_type cmd")
    (auto simp: ipcCall_def ipc_switch_def Let_def returnP_def split: if_splits)

lemma ipcCall_type:
  assumes "ipcCall cmd = Some c"
  shows "ic_type cmd \<notin> {Devices, Raw, Status}" "\<not> needsConfirmation cmd"
  using assms by (auto simp: ipcCall_def needsConfirmation_def split: IpcCommandType.splits if_splits)

text \<open>\<open>execute\<close> after the checks that need no device.\<close>

lemma execute_call:
  assumes "ipcCall cmd = Some c"
  shows "ipc_execute S E cmd s = (case is_activeDevice S s of
      None \<Rightarrow> (Inr (respond False ''No device connected'' ''''), s)
    | Some d \<Rightarrow> if \<not> device_isConnected E d then (Inr (respond False ''No device connected'' ''''), s)
        else catchAny (ipc_switch S E cmd d) (\<lambda>e. returnP (respond False (''Command failed: '' @ exn_what e) '''')) s)"
  using ipcCall_type [OF assms] by (simp add: ipc_execute_def bindP_def getP_def split: option.split)

lemma execute_answer:
  assumes "ipcCall cmd = None" "ic_type cmd \<noteq> Devices"
  shows "\<exists>r. ipc_execute S E cmd s = (Inr r, s)"
proof (cases "needsConfirmation cmd \<or> ic_type cmd = Raw")
  case True
  with assms(2) show ?thesis by (auto simp: ipc_execute_def)
next
  case False
  show ?thesis
  proof (cases "is_activeDevice S s")
    case None
    with False assms(2) show ?thesis by (auto simp: ipc_execute_def bindP_def getP_def)
  next
    case (Some d)
    from False obtain r where "ipc_switch S E cmd d = returnP r"
      using switch_answers [OF assms(1)] by meson
    with False Some assms(2) show ?thesis by (auto simp: ipc_execute_def bindP_def getP_def catchAny_def)
  qed
qed

text \<open>C21: A command does what it says and nothing else. Executing a command refines an abstract
  reading of it as at most one call on the device: a command without one (a query, an unknown
  or refused command) leaves the service as it was, but for a discovery; one with a call makes
  it with values a headset knows, on a connected device only, makes exactly that one call,
  reports success just when the call returned, and "Command failed" with the reason when it
  threw; without a connection nothing is called and the response says so.\<close>

theorem execute_refines_call:
  "case ipcCall cmd of
     None \<Rightarrow> snd (ipc_execute S E cmd s) = (if ic_type cmd = Devices then snd (is_discoverDevices S s) else s)
   | Some c \<Rightarrow> callInRange c \<and>
      (case is_activeDevice S s of
         None \<Rightarrow> ipc_execute S E cmd s = (Inr (respond False ''No device connected'' ''''), s)
       | Some d \<Rightarrow>
           if \<not> device_isConnected E d then ipc_execute S E cmd s = (Inr (respond False ''No device connected'' ''''), s)
           else (case is_onDevice S (runCall E c) s of
               (Inl e, s') \<Rightarrow> ipc_execute S E cmd s = (Inr (respond False (''Command failed: '' @ exn_what e) ''''), s')
             | (Inr _, s') \<Rightarrow> \<exists>message. ipc_execute S E cmd s = (Inr (respond True message ''''), s')))"
proof (cases "ipcCall cmd")
  case None
  show ?thesis
  proof (cases "ic_type cmd = Devices")
    case True
    with None show ?thesis by (auto simp: ipc_execute_def bindP_def split: prod.split sum.split)
  next
    case False
    with execute_answer [OF None False, of S E s] None show ?thesis by auto
  qed
next
  case (Some c)
  have "(case is_onDevice S (runCall E c) s of
      (Inl e, s') \<Rightarrow> ipc_execute S E cmd s = (Inr (respond False (''Command failed: '' @ exn_what e) ''''), s')
    | (Inr _, s') \<Rightarrow> \<exists>message. ipc_execute S E cmd s = (Inr (respond True message ''''), s'))"
    if up: "is_activeDevice S s = Some d" "device_isConnected E d" for d
  proof -
    obtain w where "ipc_switch S E cmd d = act S (runCall E c) w" using switch_acts [OF Some] by blast
    then show ?thesis
      using up by (auto simp: execute_call [OF Some] catchAny_def act_run split: prod.split sum.split)
  qed
  with ipcCall_inRange [OF Some] Some show ?thesis
    by (auto simp: execute_call [OF Some] split: option.split)
qed

text \<open>A flaw that the model shows: the keyword of \<open>eq preset\<close> is recognised in any case by
  the parser but only in lower case by the executor, so \<open>eq PRESET vocal\<close> asks for the preset
  "PRESET" and is refused, while \<open>eq preset vocal\<close> and \<open>EQ vocal\<close> select the preset.\<close>

theorem preset_keyword_case:
  "ipcCall (parseCommand ''eq preset vocal'') = Some (CSetEqualizerPreset 0x14) \<and>
   ipcCall (parseCommand ''EQ vocal'') = Some (CSetEqualizerPreset 0x14) \<and>
   ic_type (parseCommand ''eq PRESET vocal'') = EqPreset \<and>
   presetArg (parseCommand ''eq PRESET vocal'') = ''PRESET'' \<and>
   ipcCall (parseCommand ''eq PRESET vocal'') = None"
  by code_simp

section \<open>What reaches the headset\<close>

text \<open>Only a confirmed factory reset may wipe.\<close>

definition mayWipe :: "IpcCommand \<Rightarrow> bool" where
  "mayWipe cmd \<longleftrightarrow> ic_type cmd = FactoryReset \<and> \<not> needsConfirmation cmd"

lemma ipcCall_wipe: "ipcCall cmd = Some CFactoryReset \<Longrightarrow> mayWipe cmd"
  by (auto simp: ipcCall_def mayWipe_def Let_def split: IpcCommandType.splits if_splits)

lemma execute_after:
  obtains "snd (ipc_execute S E cmd s) = s"
  | "snd (ipc_execute S E cmd s) = snd (is_discoverDevices S s)"
  | c where "ipcCall cmd = Some c" "snd (ipc_execute S E cmd s) = snd (is_onDevice S (runCall E c) s)"
proof (cases "ipcCall cmd")
  case None
  show thesis
  proof (cases "ic_type cmd = Devices")
    case True
    then have "snd (ipc_execute S E cmd s) = snd (is_discoverDevices S s)"
      by (auto simp: ipc_execute_def bindP_def split: prod.split sum.split)
    then show thesis by (rule that(2))
  next
    case False
    from execute_answer [OF None False, of S E s] have "snd (ipc_execute S E cmd s) = s" by auto
    then show thesis by (rule that(1))
  qed
next
  case (Some c)
  have "snd (ipc_execute S E cmd s) = s \<or> snd (ipc_execute S E cmd s) = snd (is_onDevice S (runCall E c) s)"
  proof (cases "is_activeDevice S s")
    case None
    then show ?thesis by (simp add: execute_call [OF Some])
  next
    case up: (Some d)
    obtain w where "ipc_switch S E cmd d = act S (runCall E c) w" using switch_acts [OF Some] by blast
    with up show ?thesis
      by (auto simp: execute_call [OF Some] catchAny_def act_run split: prod.split sum.split)
  qed
  with Some that(1,3) show thesis by blast
qed

context service_laws
begin

lemma call_safe:
  "safeP inv sent (if c = CFactoryReset then sendOk else noWipe) (is_onDevice S (runCall E c))"
proof (cases "c = CFactoryReset")
  case True
  with onDevice_safe [OF safe_runCall [of E c]] show ?thesis by (simp only: if_True simp_thms)
next
  case False
  with onDevice_safe [OF safe_runCall_wipeless [of c E]] show ?thesis by simp
qed

lemma execute_safe: "safeP inv sent (if mayWipe cmd then sendOk else noWipe) (ipc_execute S E cmd)"
  unfolding safeP_def
proof (intro allI impI)
  fix s assume inv: "inv s"
  let ?ok = "if mayWipe cmd then sendOk else noWipe"
  have discover: "safeP inv sent ?ok (is_discoverDevices S)" by (rule discover_safe)
  have call: "safeP inv sent ?ok (is_onDevice S (runCall E c))" if "ipcCall cmd = Some c" for c
    by (rule emits_mono [OF call_safe [of c E]]) (use that ipcCall_wipe noWipe_sendOk in \<open>auto split: if_splits\<close>)
  show "inv (snd (ipc_execute S E cmd s)) \<and>
      (\<exists>xs. sent (snd (ipc_execute S E cmd s)) = sent s @ xs \<and> list_all ?ok xs)"
  proof (cases rule: execute_after [of S E cmd s])
    case 1
    with inv show ?thesis by simp
  next
    case 2
    with inv discover show ?thesis by (simp add: safeP_def)
  next
    case (3 c)
    with inv call [of c] show ?thesis by (simp add: safeP_def)
  qed
qed

lemma executeLine_safe:
  "\<not> jsonLine line \<Longrightarrow>
   safeP inv sent (if mayWipe (parseCommand line) then sendOk else noWipe) (ipc_executeLine S E json line)"
  by (simp only: ipc_executeLine_def if_False) (intro emits_bind execute_safe emits_return)

end

end
