(* ===== verification/JsonProtocol.thy ===== *)
theory JsonProtocol
  imports IDeviceService EqualizerPresets
begin

text \<open>
  \<open>JsonProtocol\<close>, the daemon's JSON requests, on values of the JSON library. Parsing and
  printing JSON text is that library's and a parameter of \<open>json_executeLine\<close>; the values,
  their accessors and their errors are modelled as the library documents them: objects are
  maps (a key occurs once), integers are those of 64 bits, signed or unsigned, of which
  \<open>get<int64_t>\<close> keeps the low 64 bits, and \<open>at\<close>, \<open>value\<close> and \<open>get\<close> throw
  \<open>Json::exception\<close> on a missing key or a wrong type.

  A request is first checked in full, then acts at most once on the service, and ends with
  a snapshot; the errors of the two parts are told apart by \<open>jsonError\<close>.
\<close>

section \<open>JSON values\<close>

text \<open>\<open>JFloat m e\<close> is the number \<open>m * 2 ^ e\<close>.\<close>

datatype Json =
    JNull | JBool bool | JInt int | JFloat int int | JString string
  | JArray "Json list" | JObject "string \<Rightarrow> Json option"

text \<open>\<open>Json::exception\<close>, \<open>std::invalid_argument\<close>, a \<open>SonyException\<close>, and any other.\<close>

datatype jsonError =
    JE_Sony SonyErrorCode string | JE_Json | JE_Invalid string | JE_Other string

fun ofExn :: "exn \<Rightarrow> jsonError" where
  "ofExn (SonyException c w) = JE_Sony c w"
| "ofExn (StdException w) = JE_Other w"

definition jat :: "(string \<Rightarrow> Json option) \<Rightarrow> string \<Rightarrow> jsonError + Json" where
  "jat m key = (case m key of Some v \<Rightarrow> Inr v | None \<Rightarrow> Inl JE_Json)"

fun getString :: "Json \<Rightarrow> jsonError + string" where
  "getString (JString s) = Inr s"
| "getString _ = Inl JE_Json"

fun getBool :: "Json \<Rightarrow> jsonError + bool" where
  "getBool (JBool b) = Inr b"
| "getBool _ = Inl JE_Json"

text \<open>\<open>m.value(key, default)\<close>.\<close>

definition jvalue :: "(Json \<Rightarrow> jsonError + 'a) \<Rightarrow> (string \<Rightarrow> Json option) \<Rightarrow> string \<Rightarrow> 'a \<Rightarrow> jsonError + 'a" where
  "jvalue get m key dflt = (case m key of Some v \<Rightarrow> get v | None \<Rightarrow> Inr dflt)"

definition int64Of :: "int \<Rightarrow> int" where
  "int64Of i = sint (word_of_int i :: 64 word)"

definition int32Of :: "int \<Rightarrow> int" where
  "int32Of i = sint (word_of_int i :: 32 word)"

text \<open>\<open>request["version"] != Version\<close>: numbers of any kind are compared by value.\<close>

fun equalsInt :: "Json \<Rightarrow> int \<Rightarrow> bool" where
  "equalsInt (JInt i) v = (i = v)"
| "equalsInt (JFloat m e) v = (if 0 \<le> e then m * 2 ^ nat e = v else m = v * 2 ^ nat (- e))"
| "equalsInt _ v = False"

section \<open>Helpers\<close>

fun jopt :: "('a \<Rightarrow> Json) \<Rightarrow> 'a option \<Rightarrow> Json" where
  "jopt f (Some x) = f x"
| "jopt f None = JNull"

definition integerParam :: "(string \<Rightarrow> Json option) \<Rightarrow> string \<Rightarrow> int \<Rightarrow> int \<Rightarrow> jsonError + int" where
  "integerParam params name lo hi =
     bindE (jat params name) (\<lambda>v. case v of
         JInt i \<Rightarrow> if int64Of i < lo \<or> hi < int64Of i then Inl (JE_Invalid (name @ '' is out of range''))
                  else Inr (int32Of i)
       | _ \<Rightarrow> Inl (JE_Invalid (name @ '' is out of range'')))"

definition supported :: "bool \<Rightarrow> jsonError + unit" where
  "supported yes = requireE yes (JE_Sony Unsupported ''Feature not supported by this device'')"

definition jobject :: "(string \<times> Json) list \<Rightarrow> Json" where
  "jobject kvs = JObject (map_of kvs)"

section \<open>The snapshot\<close>

definition featuresJson :: "bool \<Rightarrow> (string \<rightharpoonup> FeatureStatus) \<Rightarrow> Json" where
  "featuresJson connected features = JObject (\<lambda>name. map_option (\<lambda>status. jobject
     [(''availability'', JString (if \<not> connected \<and> fs_availability status = ''valid'' then ''stale''
                                  else fs_availability status)),
      (''lastSuccessMs'', JInt (fs_lastSuccessMs status)),
      (''error'', JString (fs_error status))]) (features name))"

definition capabilitiesJson :: "DeviceCapabilities \<Rightarrow> Json" where
  "capabilitiesJson c = jobject
     [(''anc'', JBool (cap_noiseCancelling c)), (''ambient'', JBool (cap_ambientSound c)),
      (''focusOnVoice'', JBool (cap_focusOnVoice c)), (''equalizer'', JBool (cap_equalizer c)),
      (''clearBass'', JBool (cap_clearBass c)), (''dsee'', JBool (cap_dsee c)),
      (''battery'', JBool (cap_battery c)), (''speakToChat'', JBool (cap_speakToChat c)),
      (''adaptiveVolume'', JBool (cap_adaptiveVolume c)), (''autoPowerOff'', JBool (cap_autoPowerOff c))]"

definition batteryJson :: "BatteryState \<Rightarrow> Json" where
  "batteryJson b = jobject
     [(''main'', jopt JInt (bt_main b)), (''left'', jopt JInt (bt_left b)), (''right'', jopt JInt (bt_right b)),
      (''case'', jopt JInt (bt_case b)), (''charging'', JBool (bt_charging b))]"

definition noiseJson :: "NoiseControlState \<Rightarrow> Json" where
  "noiseJson nc = jobject
     [(''mode'', JString (if nc_mode nc = NoiseCancelling then ''cancelling''
                         else if nc_mode nc = Ambient then ''ambient'' else ''off'')),
      (''ambientLevel'', JInt (nc_ambientLevel nc)), (''focusOnVoice'', JBool (nc_focusOnVoice nc))]"

definition equalizerJson :: "EqualizerState \<Rightarrow> Json" where
  "equalizerJson e = jobject
     [(''preset'', JInt (eq_preset e)), (''presetName'', JString (equalizerPresetName (eq_preset e))),
      (''clearBass'', JInt (eq_clearBass e)), (''bands'', JArray (map JInt (eq_bands e)))]"

definition json_snapshot :: "('s, 't) IDeviceService \<Rightarrow> 's \<Rightarrow> Json" where
  "json_snapshot S sv =
     (let connected = is_isConnected S sv; dev = is_activeDevice S sv; s = is_snapshot S sv;
          c = (case dev of Some d \<Rightarrow> dv_capabilities d | None \<Rightarrow> noCaps)
      in jobject
        [(''connected'', JBool connected),
         (''connectionState'', JString (is_connectionState S sv)),
         (''address'', JString (is_selectedAddress S sv)),
         (''name'', JString (case dev of Some d \<Rightarrow> dv_name d | None \<Rightarrow> '''')),
         (''lastError'', JString (is_lastError S sv)),
         (''protocol'', JString (case dev of Some d \<Rightarrow> to_string_version (dv_version d) | None \<Rightarrow> ''unknown'')),
         (''capabilities'', capabilitiesJson c),
         (''features'', featuresJson connected (ds_features s)),
         (''battery'', batteryJson (ds_battery s)),
         (''noiseControl'', noiseJson (ds_noiseControl s)),
         (''equalizer'', equalizerJson (ds_equalizer s)),
         (''dsee'', JBool (ds_dsee s)),
         (''speakToChat'', JBool (ds_speakToChat s)),
         (''adaptiveVolume'', JBool (ds_adaptiveVolume s)),
         (''autoPowerOff'', JInt (ds_autoPowerOff s)),
         (''codec'', JString (if ds_codec s = '''' then ''Unknown'' else ds_codec s)),
         (''firmware'', JString (if ds_firmware s = '''' then ''Unknown'' else ds_firmware s))])"

section \<open>Requests\<close>

definition deviceJson :: "DiscoveredDevice \<Rightarrow> Json" where
  "deviceJson d = jobject
     [(''name'', JString (dd_name d)), (''address'', JString (dd_address d)),
      (''paired'', jopt JBool (dd_paired d)), (''systemConnected'', jopt JBool (dd_connected d))]"

text \<open>The address of a connect request: six pairs of hexadecimal digits with colons between,
  turned to upper case.\<close>

definition addressOk :: "string \<Rightarrow> bool" where
  "addressOk a = list_all (\<lambda>(i, c). if i mod 3 = 2 then c = CHR '':'' else isxdigitC c) (enumerate 0 a)"

definition connectParams :: "(string \<Rightarrow> Json option) \<Rightarrow> jsonError + string \<times> string" where
  "connectParams params =
     bindE (bindE (jat params ''address'') getString) (\<lambda>address.
     bindE (requireE (length address = 17) (JE_Invalid ''Expected a Bluetooth address in AA:BB:CC:DD:EE:FF format'')) (\<lambda>_.
     bindE (requireE (addressOk address) (JE_Invalid ''Invalid Bluetooth address'')) (\<lambda>_.
     bindE (jvalue getString params ''name'' '''') (\<lambda>name. Inr (map toupperC address, name)))))"

definition fiveOf :: "Json \<Rightarrow> jsonError + Json list" where
  "fiveOf values = (case values of
      JArray vs \<Rightarrow> if length vs = 5 then Inr vs else Inl (JE_Invalid ''Expected five equalizer bands'')
    | _ \<Rightarrow> Inl (JE_Invalid ''Expected five equalizer bands''))"

fun bandParams :: "Json list \<Rightarrow> jsonError + int list" where
  "bandParams [] = Inr []"
| "bandParams (v # vs) =
     bindE (integerParam [''value'' \<mapsto> v] ''value'' (- 10) 10) (\<lambda>b. bindE (bandParams vs) (\<lambda>bs. Inr (b # bs)))"

text \<open>The checks of the control methods, and the call each makes on the device.\<close>

definition json_control :: "DeviceCapabilities \<Rightarrow> string \<Rightarrow> (string \<Rightarrow> Json option) \<Rightarrow> jsonError + DeviceCall" where
  "json_control c method params =
     (let enabled = (\<lambda>call. bindE (bindE (jat params ''enabled'') getBool) (\<lambda>b. Inr (call b))) in
      if method = ''anc'' then bindE (supported (cap_noiseCancelling c)) (\<lambda>_. enabled CSetAnc)
      else if method = ''ambient'' then
        bindE (supported (cap_ambientSound c)) (\<lambda>_.
        bindE (jvalue getBool params ''focusOnVoice'' False) (\<lambda>voice.
        bindE (if voice then supported (cap_focusOnVoice c) else Inr ()) (\<lambda>_.
        bindE (integerParam params ''level'' 1 20) (\<lambda>level. Inr (CSetAmbient level voice)))))
      else if method = ''eqPreset'' then
        bindE (supported (cap_equalizer c)) (\<lambda>_.
        bindE (integerParam params ''preset'' 0 255) (\<lambda>preset.
        bindE (requireE (equalizerPresetId preset \<noteq> '''') (JE_Invalid ''Unknown equalizer preset'')) (\<lambda>_.
          Inr (CSetEqualizerPreset preset))))
      else if method = ''eqCustom'' then
        bindE (supported (cap_equalizer c)) (\<lambda>_.
        bindE (jat params ''bands'') (\<lambda>values.
        bindE (fiveOf values) (\<lambda>vs.
        bindE (bandParams vs) (\<lambda>bands.
        bindE (integerParam params ''clearBass'' (- 10) 10) (\<lambda>clearBass.
          Inr (CSetEqualizerCustom clearBass bands))))))
      else if method = ''dsee'' then bindE (supported (cap_dsee c)) (\<lambda>_. enabled CSetDsee)
      else if method = ''speakToChat'' then bindE (supported (cap_speakToChat c)) (\<lambda>_. enabled CSetSpeakToChat)
      else if method = ''adaptiveVolume'' then bindE (supported (cap_adaptiveVolume c)) (\<lambda>_. enabled CSetAdaptiveVolume)
      else if method = ''autoPowerOff'' then
        bindE (supported (cap_autoPowerOff c)) (\<lambda>_.
        bindE (integerParam params ''index'' 0 5) (\<lambda>index. Inr (CSetAutoPowerOff index)))
      else if method = ''reset'' then bindE (supported (cap_reset c)) (\<lambda>_. Inr CReset)
      else if method = ''factoryReset'' then
        bindE (supported (cap_factoryReset c)) (\<lambda>_.
        bindE (jvalue getBool params ''confirm'' False) (\<lambda>confirm.
        bindE (requireE confirm (JE_Invalid ''factoryReset wipes the pairing and requires \"confirm\": true'')) (\<lambda>_.
          Inr CFactoryReset)))
      else Inl (JE_Invalid (''Unknown method: '' @ method)))"

text \<open>A request that passed its checks, on the service; the exceptions of the service are
  \<open>jsonError\<close>s from here on.\<close>

definition liftJ :: "('s, 'a) prog \<Rightarrow> ('a \<Rightarrow> 's \<Rightarrow> Json) \<Rightarrow> 's \<Rightarrow> (jsonError + Json) \<times> 's" where
  "liftJ m answer s = (case m s of (Inl e, s') \<Rightarrow> (Inl (ofExn e), s') | (Inr x, s') \<Rightarrow> (Inr (answer x s'), s'))"

definition json_method ::
    "('s, 't) IDeviceService \<Rightarrow> 't Env \<Rightarrow> string \<Rightarrow> (string \<Rightarrow> Json option) \<Rightarrow> 's \<Rightarrow> (jsonError + Json) \<times> 's" where
  "json_method S E method params s =
     (if method = ''snapshot'' then (Inr (json_snapshot S s), s)
      else if method = ''devices'' then liftJ (is_discoverDevices S) (\<lambda>ds _. JArray (map deviceJson ds)) s
      else if method = ''connect'' then
        (case connectParams params of
           Inl e \<Rightarrow> (Inl e, s)
         | Inr (address, name) \<Rightarrow> liftJ (is_connect S address name) (\<lambda>_. json_snapshot S) s)
      else if method = ''disconnect'' then liftJ (modifyP (is_disconnect S)) (\<lambda>_. json_snapshot S) s
      else case is_activeDevice S s of
        None \<Rightarrow> (Inl (JE_Sony Disconnected ''Headphones are disconnected; wait for reconnection''), s)
      | Some dev \<Rightarrow>
          if \<not> is_isConnected S s
          then (Inl (JE_Sony Disconnected ''Headphones are disconnected; wait for reconnection''), s)
          else (case json_control (dv_capabilities dev) method params of
              Inl e \<Rightarrow> (Inl e, s)
            | Inr call \<Rightarrow> liftJ (is_onDevice S (runCall E call)) (\<lambda>_. json_snapshot S) s))"

definition errorJson :: "string \<Rightarrow> string \<Rightarrow> Json" where
  "errorJson code message = jobject [(''code'', JString code), (''message'', JString message)]"

fun describeError :: "jsonError \<Rightarrow> Json" where
  "describeError (JE_Sony c w) = errorJson (errorCodeName c) w"
| "describeError JE_Json = errorJson ''InvalidRequest'' ''Missing or incorrectly typed request field''"
| "describeError (JE_Invalid w) = errorJson ''InvalidRequest'' w"
| "describeError (JE_Other w) = errorJson ''ServiceError'' w"

definition jsonVersion :: int where
  "jsonVersion = 1"

definition failure :: "Json \<Rightarrow> Json \<Rightarrow> Json" where
  "failure rid err = jobject [(''version'', JInt jsonVersion), (''id'', rid), (''ok'', JBool False), (''error'', err)]"

definition success :: "Json \<Rightarrow> Json \<Rightarrow> Json" where
  "success rid data = jobject [(''version'', JInt jsonVersion), (''id'', rid), (''ok'', JBool True), (''data'', data)]"

fun idOk :: "Json \<Rightarrow> bool" where
  "idOk (JString s) = True"
| "idOk (JInt i) = True"
| "idOk _ = False"

text \<open>What a request asks for, once its id and version are accepted.\<close>

definition requestOf :: "(string \<Rightarrow> Json option) \<Rightarrow> jsonError + string \<times> (string \<Rightarrow> Json option)" where
  "requestOf request =
     bindE (bindE (jat request ''method'') getString) (\<lambda>method.
     case (case request ''params'' of Some v \<Rightarrow> v | None \<Rightarrow> JObject Map.empty) of
         JObject params \<Rightarrow> Inr (method, params)
       | _ \<Rightarrow> Inl (JE_Invalid ''params must be an object''))"

definition json_execute ::
    "('s, 't) IDeviceService \<Rightarrow> 't Env \<Rightarrow> Json \<Rightarrow> 's \<Rightarrow> Json \<times> 's" where
  "json_execute S E request s = (case request of
      JObject r \<Rightarrow>
        (case r ''id'' of
           Some i \<Rightarrow>
             if \<not> idOk i then (failure JNull (describeError (JE_Invalid ''Request id must be a string or integer'')), s)
             else if (case r ''version'' of Some v \<Rightarrow> \<not> equalsInt v jsonVersion | None \<Rightarrow> True)
             then (failure i (errorJson ''VersionMismatch'' ''Update sonyd and its client to matching versions''), s)
             else (case requestOf r of
                 Inl e \<Rightarrow> (failure i (describeError e), s)
               | Inr (method, params) \<Rightarrow>
                   (case json_method S E method params s of
                      (Inl e, s') \<Rightarrow> (failure i (describeError e), s')
                    | (Inr data, s') \<Rightarrow> (success i data, s')))
         | None \<Rightarrow> (failure JNull (describeError (JE_Invalid ''Request id must be a string or integer'')), s))
    | _ \<Rightarrow> (failure JNull (describeError (JE_Invalid ''Request must be an object'')), s))"

text \<open>The parser gives a value with the deepest nesting it met, or fails; \<open>dump\<close> prints.\<close>

record JsonText =
  jt_parse :: "string \<Rightarrow> (Json \<times> nat) option"
  jt_dump :: "Json \<Rightarrow> string"

definition json_executeLine ::
    "JsonText \<Rightarrow> ('s, 't) IDeviceService \<Rightarrow> 't Env \<Rightarrow> string \<Rightarrow> ('s, string) prog" where
  "json_executeLine J S E line s = (case jt_parse J line of
      Some (request, depth) \<Rightarrow>
        if 32 < depth
        then (Inr (jt_dump J (failure JNull (errorJson ''InvalidRequest'' ''Malformed JSON request'')) @ [CHR 0x0A]), s)
        else (case json_execute S E request s of (response, s') \<Rightarrow> (Inr (jt_dump J response @ [CHR 0x0A]), s'))
    | None \<Rightarrow> (Inr (jt_dump J (failure JNull (errorJson ''InvalidRequest'' ''Malformed JSON request'')) @ [CHR 0x0A]), s))"

section \<open>The shape of answers\<close>

text \<open>A schema for JSON values, and the schemas of the snapshot and of responses.\<close>

datatype schema =
    TBool | TInt | TString | TOptional schema | TList schema
  | TRecord "(string \<times> schema) list" | TMapOf schema

fun hasType :: "schema \<Rightarrow> Json \<Rightarrow> bool" where
  "hasType TBool j = (case j of JBool b \<Rightarrow> True | _ \<Rightarrow> False)"
| "hasType TInt j = (case j of JInt i \<Rightarrow> True | _ \<Rightarrow> False)"
| "hasType TString j = (case j of JString s \<Rightarrow> True | _ \<Rightarrow> False)"
| "hasType (TOptional t) j = (j = JNull \<or> hasType t j)"
| "hasType (TList t) j = (case j of JArray js \<Rightarrow> list_all (hasType t) js | _ \<Rightarrow> False)"
| "hasType (TRecord kts) j = (case j of
     JObject m \<Rightarrow> dom m = fst ` set kts \<and>
       list_all (\<lambda>(k, t). case m k of Some v \<Rightarrow> hasType t v | None \<Rightarrow> False) kts
   | _ \<Rightarrow> False)"
| "hasType (TMapOf t) j = (case j of
     JObject m \<Rightarrow> (\<forall>k. case m k of Some v \<Rightarrow> hasType t v | None \<Rightarrow> True)
   | _ \<Rightarrow> False)"

definition featureSchema :: schema where
  "featureSchema = TRecord [(''availability'', TString), (''lastSuccessMs'', TInt), (''error'', TString)]"

definition capabilitiesSchema :: schema where
  "capabilitiesSchema = TRecord (map (\<lambda>k. (k, TBool)) [''anc'', ''ambient'', ''focusOnVoice'', ''equalizer'',
     ''clearBass'', ''dsee'', ''battery'', ''speakToChat'', ''adaptiveVolume'', ''autoPowerOff''])"

definition snapshotSchema :: schema where
  "snapshotSchema = TRecord
     [(''connected'', TBool), (''connectionState'', TString), (''address'', TString), (''name'', TString),
      (''lastError'', TString), (''protocol'', TString), (''capabilities'', capabilitiesSchema),
      (''features'', TMapOf featureSchema),
      (''battery'', TRecord [(''main'', TOptional TInt), (''left'', TOptional TInt), (''right'', TOptional TInt),
        (''case'', TOptional TInt), (''charging'', TBool)]),
      (''noiseControl'', TRecord [(''mode'', TString), (''ambientLevel'', TInt), (''focusOnVoice'', TBool)]),
      (''equalizer'', TRecord [(''preset'', TInt), (''presetName'', TString), (''clearBass'', TInt), (''bands'', TList TInt)]),
      (''dsee'', TBool), (''speakToChat'', TBool), (''adaptiveVolume'', TBool), (''autoPowerOff'', TInt),
      (''codec'', TString), (''firmware'', TString)]"

definition deviceSchema :: schema where
  "deviceSchema = TRecord [(''name'', TString), (''address'', TString), (''paired'', TOptional TBool),
     (''systemConnected'', TOptional TBool)]"

lemma typed_jopt [simp]:
  "hasType (TOptional TInt) (jopt JInt v)" "hasType (TOptional TBool) (jopt JBool b)"
  by (cases v; simp) (cases b; simp)

text \<open>A record built field by field has the schema of its fields.\<close>

lemma typed_record:
  assumes "distinct (map fst kvs)" "map fst kvs = map fst kts"
    "list_all2 (\<lambda>kv kt. hasType (snd kt) (snd kv)) kvs kts"
  shows "hasType (TRecord kts) (jobject kvs)"
proof -
  have dom: "dom (map_of kvs) = fst ` set kts"
    using assms(2) by (metis dom_map_of_conv_image_fst list.set_map)
  have "case map_of kvs k of Some v \<Rightarrow> hasType t v | None \<Rightarrow> False" if "(k, t) \<in> set kts" for k t
  proof -
    from that obtain i where i: "i < length kts" "kts ! i = (k, t)" by (metis in_set_conv_nth)
    with assms(2) have len: "i < length kvs" by (metis length_map)
    have "fst (kvs ! i) = k" using i len assms(2) by (metis fst_conv nth_map)
    with assms(1) len have "map_of kvs k = Some (snd (kvs ! i))"
      by (metis map_of_eq_Some_iff nth_mem prod.collapse)
    moreover have "hasType t (snd (kvs ! i))"
      using list_all2_nthD [OF assms(3) len] i by simp
    ultimately show ?thesis by simp
  qed
  with dom show ?thesis by (auto simp: jobject_def list_all_iff)
qed

lemma typed_parts:
  "hasType capabilitiesSchema (capabilitiesJson c)"
  "hasType (TMapOf featureSchema) (featuresJson b m)"
  "hasType (TRecord [(''main'', TOptional TInt), (''left'', TOptional TInt), (''right'', TOptional TInt),
        (''case'', TOptional TInt), (''charging'', TBool)]) (batteryJson bat)"
  "hasType (TRecord [(''mode'', TString), (''ambientLevel'', TInt), (''focusOnVoice'', TBool)]) (noiseJson nc)"
  "hasType (TRecord [(''preset'', TInt), (''presetName'', TString), (''clearBass'', TInt), (''bands'', TList TInt)]) (equalizerJson e)"
proof -
  show "hasType capabilitiesSchema (capabilitiesJson c)"
    unfolding capabilitiesSchema_def capabilitiesJson_def by (rule typed_record) simp_all
  have "hasType featureSchema (jobject [(''availability'', JString a), (''lastSuccessMs'', JInt i), (''error'', JString w)])" for a i w
    unfolding featureSchema_def by (rule typed_record) simp_all
  then show "hasType (TMapOf featureSchema) (featuresJson b m)"
    by (simp add: featuresJson_def option.map_comp comp_def split: option.split)
  show "hasType (TRecord [(''main'', TOptional TInt), (''left'', TOptional TInt), (''right'', TOptional TInt),
        (''case'', TOptional TInt), (''charging'', TBool)]) (batteryJson bat)"
    unfolding batteryJson_def by (rule typed_record) (simp_all del: hasType.simps(4))
  show "hasType (TRecord [(''mode'', TString), (''ambientLevel'', TInt), (''focusOnVoice'', TBool)]) (noiseJson nc)"
    unfolding noiseJson_def by (rule typed_record) simp_all
  show "hasType (TRecord [(''preset'', TInt), (''presetName'', TString), (''clearBass'', TInt), (''bands'', TList TInt)]) (equalizerJson e)"
    unfolding equalizerJson_def by (rule typed_record) (simp_all add: list_all_iff)
qed

lemma typed_snapshot: "hasType snapshotSchema (json_snapshot S s)"
  unfolding snapshotSchema_def json_snapshot_def Let_def
  by (rule typed_record) (simp_all add: typed_parts del: hasType.simps(4-7))

lemma typed_device: "hasType deviceSchema (deviceJson d)"
  unfolding deviceSchema_def deviceJson_def by (rule typed_record) (simp_all del: hasType.simps(4))

text \<open>C23: Whatever a client sends, the answer has the promised shape: the protocol version, the
  request's id when that is a string or an integer and null otherwise, a flag, and then either
  data or an error with a code and a message, never both. Data are a list of devices or a
  snapshot, and every field of those has its type: in particular a battery level is an integer
  or null, and there are exactly the documented fields.\<close>

theorem answers_well_typed:
  "let reply = fst (json_execute S E request s);
       rid = (case request of JObject r \<Rightarrow> (case r ''id'' of Some (JString t) \<Rightarrow> JString t | Some (JInt n) \<Rightarrow> JInt n
         | _ \<Rightarrow> JNull) | _ \<Rightarrow> JNull)
   in (\<exists>data. reply = success rid data \<and> (hasType snapshotSchema data \<or> hasType (TList deviceSchema) data)) \<or>
      (\<exists>code message. reply = failure rid (errorJson code message))"
proof -
  have err: "\<exists>code message. describeError e = errorJson code message" for e by (cases e) auto
  have data: "hasType snapshotSchema d \<or> hasType (TList deviceSchema) d"
    if "json_method S E meth params s = (Inr d, s')" for meth params d s'
    using that typed_snapshot [of S]
    by (auto simp: json_method_def liftJ_def list_all_iff typed_device
        split: if_splits prod.splits sum.splits option.splits)
  have rid: "idOk i \<Longrightarrow> i = (case i of JString t \<Rightarrow> JString t | JInt n \<Rightarrow> JInt n | _ \<Rightarrow> JNull)" for i
    by (cases i) simp_all
  have bad: "\<not> idOk i \<Longrightarrow> JNull = (case i of JString t \<Rightarrow> JString t | JInt n \<Rightarrow> JInt n | _ \<Rightarrow> JNull)" for i
    by (cases i) simp_all
  show ?thesis
  proof (cases request)
    case (JObject r)
    show ?thesis
    proof (cases "r ''id''")
      case None
      then show ?thesis by (simp add: json_execute_def JObject Let_def) blast
    next
      case (Some i)
      define j where "j = (case i of JString t \<Rightarrow> JString t | JInt n \<Rightarrow> JInt n | _ \<Rightarrow> JNull)"
      have eq: "(case request of JObject r \<Rightarrow> (case r ''id'' of Some (JString t) \<Rightarrow> JString t | Some (JInt n) \<Rightarrow> JInt n
         | _ \<Rightarrow> JNull) | _ \<Rightarrow> JNull) = j" using Some by (simp add: JObject j_def)
      define G where "G q \<longleftrightarrow> (\<exists>data. q = success j data \<and> (hasType snapshotSchema data \<or> hasType (TList deviceSchema) data)) \<or>
        (\<exists>code message. q = failure j (errorJson code message))" for q
      have G: "hasType snapshotSchema d \<or> hasType (TList deviceSchema) d \<Longrightarrow> G (success j d)"
        "G (failure j (describeError e))" "G (failure j (errorJson c w))" for d e c w
        unfolding G_def using err [of e] by (blast, metis, blast)
      have "G (fst (json_execute S E request s))"
      proof (cases "idOk i")
        case True
        with rid have j: "j = i" by (simp add: j_def)
        have "G (success i d)" if "json_method S E meth params s = (Inr d, s')" for meth params d s'
          using G(1) data [OF that] unfolding j .
        with True G(2,3) show ?thesis unfolding j
          by (auto simp: json_execute_def JObject Some split: sum.split prod.split)
      next
        case False
        with bad have j: "j = JNull" by (simp add: j_def)
        from False G(3) show ?thesis unfolding j by (simp add: json_execute_def JObject Some)
      qed
      then show ?thesis unfolding Let_def eq G_def .
    qed
  qed (simp_all add: json_execute_def Let_def, blast+)
qed

section \<open>What a request may do\<close>

lemma int32_int64:
  assumes "- 2147483648 \<le> int64Of i" "int64Of i \<le> 2147483647"
  shows "int32Of i = int64Of i"
proof -
  have "int64Of i = signed_take_bit 63 i" "int32Of i = signed_take_bit 31 i"
    by (simp_all add: int64Of_def int32Of_def sint_uint uint_word_of_int_eq signed_take_bit_take_bit)
  moreover have "signed_take_bit 31 (signed_take_bit 63 i) = signed_take_bit 31 i"
    by simp
  moreover have "signed_take_bit 31 (int64Of i) = int64Of i"
    using assms by (intro signed_take_bit_int_eq_self) simp_all
  ultimately show ?thesis by simp
qed

lemma integerParam_range:
  assumes "integerParam params name lo hi = Inr v" "- 2147483648 \<le> lo" "hi \<le> 2147483647"
  shows "lo \<le> v \<and> v \<le> hi"
proof -
  from assms(1) obtain j where "jat params name = Inr j"
    "(case j of JInt i \<Rightarrow> if int64Of i < lo \<or> hi < int64Of i then Inl (JE_Invalid (name @ '' is out of range''))
        else Inr (int32Of i) | _ \<Rightarrow> Inl (JE_Invalid (name @ '' is out of range''))) = Inr v"
    unfolding integerParam_def return_iff by blast
  then obtain i where i: "\<not> (int64Of i < lo \<or> hi < int64Of i)" "v = int32Of i"
    by (cases j) (auto split: if_splits)
  with int32_int64 [of i] assms(2,3) show ?thesis by simp
qed

lemma bandParams_range:
  "bandParams vs = Inr bs \<Longrightarrow> length bs = length vs \<and> list_all (\<lambda>b. - 10 \<le> b \<and> b \<le> 10) bs"
  by (induction vs arbitrary: bs) (auto simp: return_iff dest: integerParam_range)

text \<open>What the current model must support for a call.\<close>

fun callSupported :: "DeviceCapabilities \<Rightarrow> DeviceCall \<Rightarrow> bool" where
  "callSupported c (CSetAnc b) = cap_noiseCancelling c"
| "callSupported c (CSetAmbient l voice) = (cap_ambientSound c \<and> (voice \<longrightarrow> cap_focusOnVoice c))"
| "callSupported c (CSetEqualizerPreset p) = cap_equalizer c"
| "callSupported c (CSetEqualizerCustom b bs) = cap_equalizer c"
| "callSupported c (CSetDsee b) = cap_dsee c"
| "callSupported c (CSetSpeakToChat b) = cap_speakToChat c"
| "callSupported c (CSetAdaptiveVolume b) = cap_adaptiveVolume c"
| "callSupported c (CSetAutoPowerOff i) = cap_autoPowerOff c"
| "callSupported c CReset = cap_reset c"
| "callSupported c CFactoryReset = cap_factoryReset c"
| "callSupported c _ = False"

lemma fiveOf_iff [return_iff]: "fiveOf j = Inr vs \<longleftrightarrow> j = JArray vs \<and> length vs = 5"
  by (cases j) (auto simp: fiveOf_def)

lemma supported_iff [return_iff]: "supported b = Inr u \<longleftrightarrow> b"
  by (simp add: supported_def return_iff)

lemma json_control_checked:
  assumes "json_control c meth params = Inr call"
  shows "callInRange call \<and> callSupported c call \<and>
    (call = CFactoryReset \<longrightarrow> meth = ''factoryReset'' \<and> params ''confirm'' = Some (JBool True))"
proof -
  have confirm: "jvalue getBool m k False = Inr True \<Longrightarrow> m k = Some (JBool True)" for m k
    by (auto simp: jvalue_def split: option.splits elim: getBool.elims)
  show ?thesis
    using assms
    by (auto simp: json_control_def Let_def return_iff
        split: if_splits dest!: integerParam_range bandParams_range confirm)
qed

text \<open>The one request that may wipe the pairing.\<close>

definition jsonMayWipe :: "Json \<Rightarrow> bool" where
  "jsonMayWipe request = (case request of
      JObject r \<Rightarrow> (case requestOf r of
          Inr (meth, params) \<Rightarrow> meth = ''factoryReset'' \<and> params ''confirm'' = Some (JBool True)
        | Inl e \<Rightarrow> False)
    | _ \<Rightarrow> False)"

text \<open>What a request leaves of the service.\<close>

lemma liftJ_snd [simp]: "snd (liftJ m f s) = snd (m s)"
  by (simp add: liftJ_def split: prod.split sum.split)

lemma method_after:
  obtains "snd (json_method S E meth params s) = s"
  | "snd (json_method S E meth params s) = snd (is_discoverDevices S s)"
  | "snd (json_method S E meth params s) = is_disconnect S s"
  | address name where "connectParams params = Inr (address, name)"
      "snd (json_method S E meth params s) = snd (is_connect S address name s)"
  | call d where "is_activeDevice S s = Some d" "is_isConnected S s"
      "json_control (dv_capabilities d) meth params = Inr call"
      "snd (json_method S E meth params s) = snd (is_onDevice S (runCall E call) s)"
proof -
  consider "meth = ''snapshot''" | "meth = ''devices''" | "meth = ''connect''" | "meth = ''disconnect''"
    | "meth \<notin> {''snapshot'', ''devices'', ''connect'', ''disconnect''}" by blast
  then show thesis
  proof cases
    case 1 then show ?thesis by (intro that(1)) (simp add: json_method_def)
  next
    case 2 then show ?thesis by (intro that(2)) (simp add: json_method_def)
  next
    case 4 then show ?thesis by (intro that(3)) (simp add: json_method_def modifyP_def)
  next
    case 3
    show ?thesis
    proof (cases "connectParams params")
      case (Inl e)
      with 3 show ?thesis by (intro that(1)) (simp add: json_method_def)
    next
      case (Inr p)
      with 3 show ?thesis by (cases p) (auto intro: that(4) simp: json_method_def)
    qed
  next
    case 5
    show ?thesis
    proof (cases "is_activeDevice S s")
      case None
      with 5 show ?thesis by (intro that(1)) (simp add: json_method_def)
    next
      case (Some d)
      show ?thesis
      proof (cases "json_control (dv_capabilities d) meth params")
        case (Inl e)
        with 5 Some show ?thesis by (intro that(1)) (simp add: json_method_def)
      next
        case (Inr call)
        with 5 Some that(1) that(5) [OF Some _ Inr] show ?thesis
          by (cases "is_isConnected S s") (simp_all add: json_method_def)
      qed
    qed
  qed
qed

lemma execute_steps:
  obtains "snd (json_execute S E request s) = s"
  | r meth params where "request = JObject r" "requestOf r = Inr (meth, params)"
      "snd (json_execute S E request s) = snd (json_method S E meth params s)"
proof -
  have "snd (json_execute S E request s) = s \<or> (\<exists>r meth params. request = JObject r \<and>
      requestOf r = Inr (meth, params) \<and> snd (json_execute S E request s) = snd (json_method S E meth params s))"
    by (auto simp: json_execute_def split: Json.split option.split sum.split prod.split)
  with that show thesis by blast
qed

text \<open>C22: A JSON request acts at most once, and only when everything about it is in order: it
  leaves the service alone, discovers, disconnects, connects to an upper-case address of the
  right form, or makes one call on the device. That call is made on a connected device only, is
  one the model supports, with every value in the range a headset knows, and it is a factory
  reset only when the request says \<open>"confirm": true\<close>.\<close>

theorem requests_checked:
  "let s' = snd (json_execute S E request s) in
    s' \<in> {s, snd (is_discoverDevices S s), is_disconnect S s} \<or>
    (\<exists>address name. s' = snd (is_connect S address name s) \<and> length address = 17 \<and> address = map toupperC address) \<or>
    (\<exists>call d. s' = snd (is_onDevice S (runCall E call) s) \<and> is_activeDevice S s = Some d \<and> is_isConnected S s \<and>
       callInRange call \<and> callSupported (dv_capabilities d) call \<and>
       (if call = CFactoryReset then jsonMayWipe request else True))"
proof (cases rule: execute_steps [of S E request s])
  case 1
  then show ?thesis by simp
next
  case (2 r meth params)
  show ?thesis
  proof (cases rule: method_after [of S E meth params s])
    case (4 address name)
    then have "length address = 17 \<and> address = map toupperC address"
      by (auto simp: connectParams_def return_iff)
    with 4(2) 2(3) show ?thesis unfolding Let_def by metis
  next
    case (5 call d)
    have "callInRange call \<and> callSupported (dv_capabilities d) call \<and> (if call = CFactoryReset then jsonMayWipe request else True)"
      using json_control_checked [OF 5(3)] 2(1,2) by (simp add: jsonMayWipe_def)
    with 5 2(3) show ?thesis unfolding Let_def by metis
  qed (use 2(3) in simp_all)
qed

context service_laws
begin

lemma json_safe:
  "inv s \<Longrightarrow> inv (snd (json_execute S E request s)) \<and>
    (\<exists>xs. sent (snd (json_execute S E request s)) = sent s @ xs \<and>
       list_all (if jsonMayWipe request then sendOk else noWipe) xs)"
proof (cases rule: execute_steps [of S E request s])
  case 1
  then show "inv s \<Longrightarrow> ?thesis" by simp
next
  case (2 r meth params)
  let ?ok = "if jsonMayWipe request then sendOk else noWipe"
  assume s: "inv s"
  show ?thesis
  proof (cases rule: method_after [of S E meth params s])
    case 1
    with s 2(3) show ?thesis by simp
  next
    case n2: 2
    with s 2(3) wipe_weaken [OF discover_safe] show ?thesis by (simp add: safeP_def)
  next
    case 3
    with s 2(3) wipe_weaken [OF disconnect_safe] show ?thesis by (simp add: safeP_def modifyP_def)
  next
    case (4 address name)
    with s 2(3) wipe_weaken [OF connect_noWipe [of address name]] show ?thesis by (simp add: safeP_def)
  next
    case (5 call d)
    have "safeP inv sent ?ok (is_onDevice S (runCall E call))"
    proof (cases "call = CFactoryReset")
      case True
      with json_control_checked [OF 5(3)] 2(1,2) have "jsonMayWipe request" by (simp add: jsonMayWipe_def)
      with onDevice_safe [OF safe_runCall [of E call]] show ?thesis by simp
    next
      case False
      with wipe_weaken [OF onDevice_safe [OF safe_runCall_wipeless [of call E]]] show ?thesis by blast
    qed
    with s 2(3) 5(4) show ?thesis by (simp add: safeP_def)
  qed
qed

end

text \<open>A flaw that the model shows: an unsigned 64-bit integer wraps around before it is
  compared, so a band of 18446744073709551615 passes the range check and is taken for -1.\<close>

theorem huge_band_accepted:
  "bandParams [JInt 18446744073709551615, JInt 0, JInt 10, JInt 18446744073709551606, JInt 5] =
     Inr [- 1, 0, 10, - 10, 5] \<and>
   integerParam [''level'' \<mapsto> JInt 18446744073709551617] ''level'' 1 20 = Inr 1"
  by (simp add: integerParam_def jat_def int64Of_def int32Of_def)

end
