(* ===== verification/UnixSocket.thy ===== *)
theory UnixSocket
  imports Prelude
begin

text \<open>
  \<open>UnixSocket.h\<close>: what client and server share of the Unix socket. The answers of the
  system's calls are data; \<open>validatePath\<close>, which decides whether a socket path can be
  trusted, runs on the files that \<open>lstat\<close> shows.
\<close>

section \<open>Reading and writing\<close>

text \<open>What waits in a connection to be read (nothing, at its end), and how many bytes the
  system would take now; or an error, of which EAGAIN and EINTR only mean to try again.\<close>

datatype ReadResult = RBytes string | RAgain | RError
datatype SendResult = SBytes nat | SAgain | SError

section \<open>Socket paths\<close>

datatype FileKind = DirectoryKind | SocketKind | RegularKind | OtherKind

text \<open>A file that is a symbolic link is \<open>OtherKind\<close> here: \<open>lstat\<close> does not follow it.\<close>

record Stat =
  st_kind :: FileKind
  st_uid :: nat
  st_mode :: u32

datatype MkdirResult = MkdirOk | MkdirExists | MkdirFailed

text \<open>\<open>os_mkdir\<close> also tells what \<open>lstat\<close> shows afterwards.\<close>

record Files =
  os_lstat :: "string \<Rightarrow> Stat option"
  os_mkdir :: "string \<Rightarrow> MkdirResult \<times> (string \<Rightarrow> Stat option)"
  os_euid :: nat

text \<open>\<open>sizeof(sockaddr_un::sun_path)\<close> on Linux.\<close>

definition sunPathSize :: nat where
  "sunPathSize = 108"

abbreviation SLASH :: char where
  "SLASH \<equiv> CHR ''/''"

text \<open>The names on a path, as \<open>std::filesystem::path\<close> iterates over them; repeated slashes,
  which the system ignores, are dropped.\<close>

fun pathNames :: "string \<Rightarrow> string \<Rightarrow> string list" where
  "pathNames cur [] = (if cur = [] then [] else [cur])"
| "pathNames cur (c # cs) =
     (if c = SLASH then (if cur = [] then pathNames [] cs else cur # pathNames [] cs)
      else pathNames (cur @ [c]) cs)"

definition parentNames :: "string \<Rightarrow> string list" where
  "parentNames path =
     (let ns = pathNames [] path in if last path = SLASH then ns else butlast ns)"

definition dirPath :: "string list \<Rightarrow> string" where
  "dirPath ns = (if ns = [] then [SLASH] else concat (map (\<lambda>n. SLASH # n) ns))"

text \<open>The root, and every directory on the way down to the parent.\<close>

definition dirsDownTo :: "string list \<Rightarrow> string list" where
  "dirsDownTo ns = map (\<lambda>k. dirPath (take k ns)) [0..<Suc (length ns)]"

definition isDirectory :: "(string \<Rightarrow> Stat option) \<Rightarrow> string \<Rightarrow> bool" where
  "isDirectory lstat d = (case lstat d of Some st \<Rightarrow> st_kind st = DirectoryKind | None \<Rightarrow> False)"

definition privateDirectory :: "Files \<Rightarrow> (string \<Rightarrow> Stat option) \<Rightarrow> string \<Rightarrow> bool" where
  "privateDirectory F lstat d = (case lstat d of
      Some st \<Rightarrow> st_uid st = os_euid F \<and> st_mode st AND 0x3F = 0 | None \<Rightarrow> False)"

definition ownEndpoint :: "Files \<Rightarrow> (string \<Rightarrow> Stat option) \<Rightarrow> string \<Rightarrow> bool" where
  "ownEndpoint F lstat path = (case lstat path of
      Some st \<Rightarrow> st_kind st = SocketKind \<and> st_uid st = os_euid F | None \<Rightarrow> True)"

definition validatePath :: "Files \<Rightarrow> string \<Rightarrow> bool \<Rightarrow> exn + unit" where
  "validatePath F path create =
     bindE (requireE (path \<noteq> [] \<and> hd path = SLASH \<and> length path < sunPathSize)
       (StdException ''IPC socket requires an absolute path within the Unix socket length limit'')) (\<lambda>_.
     let parent = parentNames path;
         (made, lstat) = (if create then os_mkdir F (dirPath parent) else (MkdirOk, os_lstat F))
     in bindE (requireE (made \<noteq> MkdirFailed) (StdException ''Cannot create private IPC directory'')) (\<lambda>_.
        bindE (requireE (list_all (isDirectory lstat) (dirsDownTo parent))
          (StdException ''IPC directory is missing or contains a symlink'')) (\<lambda>_.
        bindE (requireE (privateDirectory F lstat (dirPath parent))
          (StdException ''IPC directory must be user-owned with mode 0700'')) (\<lambda>_.
        requireE (ownEndpoint F lstat path) (StdException ''Refusing foreign or non-socket IPC endpoint'')))))"

text \<open>An accepted path can only be reached through directories that nobody else can have
  redirected or write to at its end.\<close>

lemma validatePath_trusted:
  assumes "validatePath F path create = Inr u"
  defines "lstat \<equiv> (if create then snd (os_mkdir F (dirPath (parentNames path))) else os_lstat F)"
  shows "hd path = SLASH" "length path < sunPathSize"
    "\<And>k. k \<le> length (parentNames path) \<Longrightarrow>
       \<exists>st. lstat (dirPath (take k (parentNames path))) = Some st \<and> st_kind st = DirectoryKind"
    "\<exists>st. lstat (dirPath (parentNames path)) = Some st \<and> st_uid st = os_euid F \<and> st_mode st AND 0x3F = 0"
    "\<And>st. lstat path = Some st \<Longrightarrow> st_kind st = SocketKind \<and> st_uid st = os_euid F"
proof -
  have facts: "hd path = SLASH" "length path < sunPathSize"
    "list_all (isDirectory lstat) (dirsDownTo (parentNames path))"
    "privateDirectory F lstat (dirPath (parentNames path))" "ownEndpoint F lstat path"
    using assms by (auto simp: validatePath_def return_iff Let_def split: if_splits prod.splits)
  then show "hd path = SLASH" "length path < sunPathSize" by simp_all
  show "\<exists>st. lstat (dirPath (take k (parentNames path))) = Some st \<and> st_kind st = DirectoryKind"
    if "k \<le> length (parentNames path)" for k
    using facts(3) that by (auto simp: dirsDownTo_def list_all_iff isDirectory_def split: option.splits
        dest!: bspec [where x = k])
  show "\<exists>st. lstat (dirPath (parentNames path)) = Some st \<and> st_uid st = os_euid F \<and> st_mode st AND 0x3F = 0"
    using facts(4) by (auto simp: privateDirectory_def split: option.splits)
  show "st_kind st = SocketKind \<and> st_uid st = os_euid F" if "lstat path = Some st" for st
    using facts(5) that by (simp add: ownEndpoint_def)
qed

section \<open>Addresses and peers\<close>

text \<open>\<open>sun_path\<close> after \<open>memcpy\<close> of the path and its terminator into the zeroed structure;
  \<open>None\<close> would be a write past its end. Callers validate the path first.\<close>

definition socketAddress :: "string \<Rightarrow> string option" where
  "socketAddress path =
     (if length path + 1 \<le> sunPathSize
      then Some (path @ [CHR 0x00] @ replicate (sunPathSize - (length path + 1)) (CHR 0x00))
      else None)"

text \<open>\<open>cred\<close>: the user that the system names for the other end, if it does.\<close>

definition us_sameUser :: "nat option \<Rightarrow> nat \<Rightarrow> bool" where
  "us_sameUser cred euid \<longleftrightarrow> (case cred of Some uid \<Rightarrow> uid = euid | None \<Rightarrow> False)"

text \<open>A validated path fits, terminator included, and is what the system reads from the
  structure.\<close>

lemma validated_address:
  assumes "validatePath F path create = Inr u"
  obtains buf where "socketAddress path = Some buf" "length buf = sunPathSize"
    "CHR 0x00 \<notin> set path \<Longrightarrow> takeWhile (\<lambda>c. c \<noteq> CHR 0x00) buf = path"
proof -
  from validatePath_trusted(2) [OF assms] have "length path + 1 \<le> sunPathSize" by simp
  then have "socketAddress path = Some (path @ [CHR 0x00] @ replicate (sunPathSize - (length path + 1)) (CHR 0x00))"
    by (simp add: socketAddress_def)
  moreover have "CHR 0x00 \<notin> set path \<Longrightarrow> takeWhile (\<lambda>c. c \<noteq> CHR 0x00) (path @ [CHR 0x00] @ rest) = path" for rest
    by (subst takeWhile_append2) auto
  ultimately show thesis using \<open>length path + 1 \<le> sunPathSize\<close> by (intro that) auto
qed

end
