(* ===== verification/IpcServer.thy ===== *)
theory IpcServer
  imports DeviceService JsonProtocol IpcProtocol UnixSocket
begin

text \<open>
  \<open>IpcServer\<close>, the daemon's socket server. One thread owns the clients: it reads one request
  line per connection, queues it as a job and writes the job's result back. The other executes
  the jobs one at a time on the service, and between jobs lets the service tick or releases
  the headset when it was idle for long. They share the job queue and the jobs.

  What the operating system answers (poll events, reads, writes, the clock) is data of a
  step: \<open>Events\<close>. The jobs, shared by pointer, live in a store; a \<open>promise\<close> that is set
  twice throws in C++, and here raises the flag \<open>sr_broken\<close>. Creating the socket, its lock
  file and the threads is in \<open>ServerLifecycle\<close>.
\<close>

section \<open>State\<close>

record Job =
  jb_line :: string
  jb_result :: "string option"
  jb_cancelled :: bool

text \<open>\<open>cl_pending\<close> is \<open>result.valid()\<close>; the descriptor \<open>cl_fd\<close> identifies the client.\<close>

record Client =
  cl_fd :: nat
  cl_input :: string
  cl_output :: string
  cl_sent :: nat
  cl_deadline :: int
  cl_job :: "nat option"
  cl_pending :: bool

datatype ExecPhase = Waiting | Executing nat | Resting

text \<open>\<open>sr_executed\<close>, a ghost, lists the request lines executed.\<close>

record 's Server =
  sr_service :: 's
  sr_running :: bool
  sr_clients :: "Client list"
  sr_queue :: "nat list"
  sr_jobs :: "nat \<Rightarrow> Job"
  sr_nextJob :: nat
  sr_phase :: ExecPhase
  sr_lastActivity :: int
  sr_idleDisconnect :: int
  sr_broken :: bool
  sr_executed :: "string list"

definition noJob :: Job where
  "noJob = \<lparr>jb_line = '''', jb_result = None, jb_cancelled = False\<rparr>"

definition newServer :: "'s \<Rightarrow> int \<Rightarrow> int \<Rightarrow> 's Server" where
  "newServer service idle now =
     \<lparr>sr_service = service, sr_running = True, sr_clients = [], sr_queue = [], sr_jobs = (\<lambda>_. noJob),
      sr_nextJob = 0, sr_phase = Waiting, sr_lastActivity = now, sr_idleDisconnect = idle,
      sr_broken = False, sr_executed = []\<rparr>"

definition newClient :: "nat \<Rightarrow> int \<Rightarrow> Client" where
  "newClient fd now = \<lparr>cl_fd = fd, cl_input = '''', cl_output = '''', cl_sent = 0,
     cl_deadline = now + 5000000000, cl_job = None, cl_pending = False\<rparr>"

text \<open>What one client's turn gets from the system; the clock is read up to three times.\<close>

record Events =
  ev_in :: bool
  ev_error :: bool
  ev_read :: ReadResult
  ev_send :: SendResult
  ev_now1 :: int
  ev_now2 :: int
  ev_now3 :: int

section \<open>One client's turn\<close>

definition setResult :: "nat \<Rightarrow> string \<Rightarrow> 's Server \<Rightarrow> 's Server" where
  "setResult j r st =
     (if jb_result (sr_jobs st j) \<noteq> None then st\<lparr>sr_broken := True\<rparr>
      else st\<lparr>sr_jobs := (sr_jobs st)(j := (sr_jobs st j)\<lparr>jb_result := Some r\<rparr>)\<rparr>)"

lemma setResult_frame [simp]:
  "sr_service (setResult j r st) = sr_service st" "sr_executed (setResult j r st) = sr_executed st"
  by (simp_all add: setResult_def)

text \<open>The four parts of the turn, each on the \<open>close\<close> flag, the client and the server.\<close>

definition collectResult :: "Events \<Rightarrow> bool \<Rightarrow> Client \<Rightarrow> 's Server \<Rightarrow> Client" where
  "collectResult ev cls c st =
     (if \<not> cls \<and> cl_pending c
      then (case cl_job c of
          None \<Rightarrow> c
        | Some j \<Rightarrow> (case jb_result (sr_jobs st j) of
            None \<Rightarrow> c
          | Some r \<Rightarrow> c\<lparr>cl_output := r, cl_pending := False, cl_deadline := ev_now2 ev + 5000000000\<rparr>))
      else c)"

definition submitJob :: "int \<Rightarrow> string \<Rightarrow> Client \<Rightarrow> 's Server \<Rightarrow> Client \<times> 's Server" where
  "submitJob now line c st =
     (let j = sr_nextJob st;
          st1 = st\<lparr>sr_nextJob := j + 1, sr_jobs := (sr_jobs st)(j := noJob\<lparr>jb_line := line\<rparr>)\<rparr>;
          st2 = (if 16 \<le> length (sr_queue st1) then setResult j (''ERR|Service busy|'' @ [NL]) st1
                 else st1\<lparr>sr_queue := sr_queue st1 @ [j]\<rparr>)
      in (c\<lparr>cl_job := Some j, cl_pending := True, cl_deadline := now + 30000000000\<rparr>, st2))"

definition takeInput :: "int \<Rightarrow> string \<Rightarrow> Client \<Rightarrow> 's Server \<Rightarrow> bool \<times> Client \<times> 's Server" where
  "takeInput now bytes c st =
     (if cl_job c \<noteq> None then (True, c, st)
      else let input = cl_input c @ bytes; c1 = c\<lparr>cl_input := input\<rparr>;
               line = takeWhile (\<lambda>x. x \<noteq> NL) input
        in if 16 * 1024 < length input then (True, c1, st)
           else if NL \<in> set input
           then (if length line + 1 \<noteq> length input then (True, c1, st)
                 else (False, submitJob now line c1 st))
           else (False, c1, st))"

definition receiveInput :: "Events \<Rightarrow> bool \<Rightarrow> Client \<Rightarrow> 's Server \<Rightarrow> bool \<times> Client \<times> 's Server" where
  "receiveInput ev cls c st =
     (if \<not> cls \<and> ev_in ev
      then (case ev_read ev of
          RError \<Rightarrow> (True, c, st)
        | RAgain \<Rightarrow> (cls, c, st)
        | RBytes waiting \<Rightarrow>
            let buf = take 1024 waiting
            in if buf = '''' then (True, c, st) else takeInput (ev_now3 ev) buf c st)
      else (cls, c, st))"

definition sendOutput :: "Events \<Rightarrow> bool \<Rightarrow> Client \<Rightarrow> bool \<times> Client" where
  "sendOutput ev cls c =
     (if \<not> cls \<and> cl_output c \<noteq> ''''
      then (let c1 = (case ev_send ev of
                  SBytes n \<Rightarrow> c\<lparr>cl_sent := cl_sent c + min n (length (cl_output c) - cl_sent c)\<rparr> | _ \<Rightarrow> c);
                failed = (ev_send ev = SError)
            in (failed \<or> cl_sent c1 = length (cl_output c1), c1))
      else (cls, c))"

definition cancelJob :: "nat option \<Rightarrow> 's Server \<Rightarrow> 's Server" where
  "cancelJob jo st = (case jo of None \<Rightarrow> st
     | Some j \<Rightarrow> st\<lparr>sr_jobs := (sr_jobs st)(j := (sr_jobs st j)\<lparr>jb_cancelled := True\<rparr>)\<rparr>)"

definition clientTurn :: "Events \<Rightarrow> Client \<Rightarrow> 's Server \<Rightarrow> Client option \<times> 's Server" where
  "clientTurn ev c st =
     (let cls = (cl_deadline c \<le> ev_now1 ev \<or> ev_error ev);
          c1 = collectResult ev cls c st;
          (cls2, c2, st2) = receiveInput ev cls c1 st;
          (cls3, c3) = sendOutput ev cls2 c2
      in if cls3 then (None, cancelJob (cl_job c3) st2) else (Some c3, st2))"

section \<open>The server thread\<close>

text \<open>One pass over the clients, from the last to the first; \<open>evs\<close> are their events.\<close>

fun clientTurns :: "(Client \<times> Events) list \<Rightarrow> 's Server \<Rightarrow> Client list \<times> 's Server" where
  "clientTurns [] st = ([], st)"
| "clientTurns ((c, ev) # rest) st =
     (let (cs, st1) = clientTurns rest st; (co, st2) = clientTurn ev c st1
      in ((case co of Some c' \<Rightarrow> c' # cs | None \<Rightarrow> cs), st2))"

text \<open>A new connection, with its user checked by \<open>sameUser\<close>.\<close>

definition acceptClient :: "nat \<Rightarrow> bool \<Rightarrow> int \<Rightarrow> 's Server \<Rightarrow> 's Server" where
  "acceptClient fd sameUser now st =
     (if 16 \<le> length (sr_clients st) \<or> \<not> sameUser then st
      else st\<lparr>sr_clients := sr_clients st @ [newClient fd now]\<rparr>)"

definition serverRound :: "Events list \<Rightarrow> (nat \<times> bool \<times> int) option \<Rightarrow> 's Server \<Rightarrow> 's Server" where
  "serverRound evs newcomer st =
     (let (cs, st1) = clientTurns (zip (sr_clients st) evs) st;
          st2 = st1\<lparr>sr_clients := cs\<rparr>
      in case newcomer of None \<Rightarrow> st2 | Some (fd, sameUser, now) \<Rightarrow> acceptClient fd sameUser now st2)"

text \<open>After the loop: every client is dropped.\<close>

definition dropClients :: "'s Server \<Rightarrow> 's Server" where
  "dropClients st = (fold (cancelJob \<circ> cl_job) (sr_clients st) st)\<lparr>sr_clients := []\<rparr>"

section \<open>The executor thread\<close>

definition commandNeedsConnection :: "string \<Rightarrow> bool" where
  "commandNeedsConnection line =
     (if jsonLine line then False
      else let cmd = parseCommand line; type = ic_type cmd in
        if needsConfirmation cmd then False
        else if type = Raw then False
        else type \<noteq> Devices \<and> type \<noteq> Status)"

definition connectOnDemand :: "('s, 't) IDeviceService \<Rightarrow> string \<Rightarrow> ('s, unit) prog" where
  "connectOnDemand S line =
     ifP (\<lambda>s. is_isConnected S s \<or> \<not> commandNeedsConnection line) (returnP ())
       (bindP (is_discoverDevices S) (\<lambda>devices. case devices of
            [] \<Rightarrow> returnP ()
          | d # _ \<Rightarrow> catchAny (is_connect S (dd_address d) (dd_name d)) (\<lambda>_. returnP ())))"

text \<open>A job's response, whatever is thrown.\<close>

definition respondTo :: "('s, 't) IDeviceService \<Rightarrow> 't Env \<Rightarrow> JsonText \<Rightarrow> string \<Rightarrow> ('s, string) prog" where
  "respondTo S E J line =
     catchAny
       (bindP (connectOnDemand S line) (\<lambda>_.
        bindP (ipc_executeLine S E (json_executeLine J S E) line) (\<lambda>response.
          returnP (if 256 * 1024 < length response then ''ERR|Response too large|'' @ [NL] else response))))
       (\<lambda>_. returnP (''ERR|Internal service error|'' @ [NL]))"

definition takeJob :: "'s Server \<Rightarrow> 's Server" where
  "takeJob st = (case sr_queue st of
      [] \<Rightarrow> st\<lparr>sr_phase := Resting\<rparr>
    | j # js \<Rightarrow> st\<lparr>sr_queue := js, sr_phase := (if jb_cancelled (sr_jobs st j) then Resting else Executing j)\<rparr>)"

definition runJob :: "('s, 't) IDeviceService \<Rightarrow> 't Env \<Rightarrow> JsonText \<Rightarrow> nat \<Rightarrow> int \<Rightarrow> 's Server \<Rightarrow> 's Server" where
  "runJob S E J j now st =
     (let line = jb_line (sr_jobs st j) in
      case respondTo S E J line (sr_service st) of
        (Inr response, s') \<Rightarrow>
          (setResult j response (st\<lparr>sr_service := s', sr_executed := sr_executed st @ [line]\<rparr>))
            \<lparr>sr_lastActivity := now, sr_phase := Resting\<rparr>
      | (Inl e, s') \<Rightarrow> st\<lparr>sr_service := s', sr_broken := True\<rparr>)"

definition rest :: "('s, 't) IDeviceService \<Rightarrow> int \<Rightarrow> 's Server \<Rightarrow> 's Server" where
  "rest S now st =
     (let st' = st\<lparr>sr_phase := Waiting\<rparr> in
      if sr_running st \<and> sr_queue st = []
      then (if is_isConnected S (sr_service st) \<and> sr_idleDisconnect st < now - sr_lastActivity st
            then st'\<lparr>sr_service := is_disconnect S (sr_service st)\<rparr>
            else st'\<lparr>sr_service := snd (is_tick S (sr_service st))\<rparr>)
      else st')"

section \<open>The server as a whole\<close>

text \<open>The two threads and the headset's reader in any interleaving. \<open>other\<close> is what the
  service does by itself between two steps.\<close>

inductive serverStep ::
    "('s, 't) IDeviceService \<Rightarrow> 't Env \<Rightarrow> JsonText \<Rightarrow> ('s \<Rightarrow> 's \<Rightarrow> bool) \<Rightarrow> 's Server \<Rightarrow> 's Server \<Rightarrow> bool"
  for S E J other where
  Round: "length evs = length (sr_clients st) \<Longrightarrow> serverStep S E J other st (serverRound evs newcomer st)"
| Take: "sr_phase st = Waiting \<Longrightarrow> sr_running st \<Longrightarrow> serverStep S E J other st (takeJob st)"
| Run: "sr_phase st = Executing j \<Longrightarrow> serverStep S E J other st (runJob S E J j now st)"
| Rest: "sr_phase st = Resting \<Longrightarrow> serverStep S E J other st (rest S now st)"
| Service: "other (sr_service st) s \<Longrightarrow> serverStep S E J other st (st\<lparr>sr_service := s\<rparr>)"
| Stop: "serverStep S E J other st (dropClients (st\<lparr>sr_running := False\<rparr>))"

inductive_cases serverStep_cases [consumes 1, case_names Round Take Run Rest Service Stop]:
  "serverStep S E J other st st'"

abbreviation serverRun ::
    "('s, 't) IDeviceService \<Rightarrow> 't Env \<Rightarrow> JsonText \<Rightarrow> ('s \<Rightarrow> 's \<Rightarrow> bool) \<Rightarrow> 's Server \<Rightarrow> 's Server \<Rightarrow> bool" where
  "serverRun S E J other \<equiv> (serverStep S E J other)\<^sup>*\<^sup>*"

section \<open>Invariants\<close>

text \<open>A job that is still to be executed, or being executed.\<close>

definition openJobs :: "'s Server \<Rightarrow> nat list" where
  "openJobs st = (case sr_phase st of Executing j \<Rightarrow> [j] | _ \<Rightarrow> []) @ sr_queue st"

text \<open>Each client within its bounds, and its output the result of its own request.\<close>

definition clientOk :: "(nat \<Rightarrow> Job) \<Rightarrow> nat \<Rightarrow> Client \<Rightarrow> bool" where
  "clientOk jobs next c \<longleftrightarrow> length (cl_input c) \<le> 16384 \<and> cl_sent c \<le> length (cl_output c) \<and>
     (case cl_job c of
        None \<Rightarrow> cl_output c = '''' \<and> \<not> cl_pending c \<and> NL \<notin> set (cl_input c)
      | Some j \<Rightarrow> j < next \<and> cl_input c = jb_line (jobs j) @ [NL] \<and>
          (cl_output c = '''' \<or> jb_result (jobs j) = Some (cl_output c)))"

definition serverInv :: "'s Server \<Rightarrow> bool" where
  "serverInv st \<longleftrightarrow> length (sr_clients st) \<le> 16 \<and> length (sr_queue st) \<le> 16 \<and> \<not> sr_broken st \<and>
     distinct (openJobs st) \<and>
     list_all (\<lambda>j. j < sr_nextJob st \<and> jb_result (sr_jobs st j) = None) (openJobs st) \<and>
     list_all (clientOk (sr_jobs st) (sr_nextJob st)) (sr_clients st)"

text \<open>What a turn may do to the jobs another client sees: only new ones, results of new
  ones, and cancellations.\<close>

definition jobsGrow :: "'s Server \<Rightarrow> 's Server \<Rightarrow> bool" where
  "jobsGrow st st' \<longleftrightarrow> sr_nextJob st \<le> sr_nextJob st' \<and>
     (\<forall>j < sr_nextJob st. jb_line (sr_jobs st' j) = jb_line (sr_jobs st j) \<and>
        (jb_result (sr_jobs st j) \<noteq> None \<longrightarrow> jb_result (sr_jobs st' j) = jb_result (sr_jobs st j)))"

lemma jobsGrow_refl [simp]: "jobsGrow st st"
  by (simp add: jobsGrow_def)

lemma jobsGrow_trans: "jobsGrow a b \<Longrightarrow> jobsGrow b c \<Longrightarrow> jobsGrow a c"
  unfolding jobsGrow_def by (metis order_less_le_trans order_trans)

lemma clientOk_grow: "clientOk (sr_jobs st) (sr_nextJob st) c \<Longrightarrow> jobsGrow st st' \<Longrightarrow>
    clientOk (sr_jobs st') (sr_nextJob st') c"
  by (auto simp: clientOk_def jobsGrow_def split: option.splits)

text \<open>The part of the invariant that is about the jobs.\<close>

definition jobsInv :: "'s Server \<Rightarrow> bool" where
  "jobsInv st \<longleftrightarrow> length (sr_queue st) \<le> 16 \<and> \<not> sr_broken st \<and> distinct (openJobs st) \<and>
     list_all (\<lambda>j. j < sr_nextJob st \<and> jb_result (sr_jobs st j) = None) (openJobs st)"

text \<open>What a turn leaves alone.\<close>

definition sameExecutor :: "'s Server \<Rightarrow> 's Server \<Rightarrow> bool" where
  "sameExecutor st st' \<longleftrightarrow> sr_service st' = sr_service st \<and> sr_phase st' = sr_phase st \<and>
     sr_clients st' = sr_clients st \<and> sr_executed st' = sr_executed st \<and> sr_running st' = sr_running st"

lemma sameExecutor_refl [simp]: "sameExecutor st st"
  by (simp add: sameExecutor_def)

lemma sameExecutor_trans: "sameExecutor a b \<Longrightarrow> sameExecutor b c \<Longrightarrow> sameExecutor a c"
  by (simp add: sameExecutor_def)

abbreviation turnOk :: "'s Server \<Rightarrow> 's Server \<Rightarrow> bool" where
  "turnOk st st' \<equiv> jobsInv st' \<and> jobsGrow st st' \<and> sameExecutor st st'"

lemma collect_ok:
  "clientOk (sr_jobs st) (sr_nextJob st) c \<Longrightarrow> clientOk (sr_jobs st) (sr_nextJob st) (collectResult ev cls c st)"
  by (auto simp: collectResult_def clientOk_def split: option.splits)

lemma submit_ok:
  assumes "jobsInv st" "cl_job c = None" "cl_output c = ''''" "cl_sent c = 0" "cl_input c = line @ [NL]"
    "length (cl_input c) \<le> 16384" "submitJob now line c st = (c', st')"
  shows "turnOk st st' \<and> clientOk (sr_jobs st') (sr_nextJob st') c'"
proof -
  have fresh: "sr_nextJob st \<notin> set (openJobs st)" using assms(1) by (auto simp: jobsInv_def list_all_iff)
  have c': "c' = c\<lparr>cl_job := Some (sr_nextJob st), cl_pending := True, cl_deadline := now + 30000000000\<rparr>"
    using assms(7) by (simp add: submitJob_def Let_def)
  show ?thesis
  proof (cases "16 \<le> length (sr_queue st)")
    case True
    then have st': "st' = st\<lparr>sr_nextJob := sr_nextJob st + 1, sr_jobs := (sr_jobs st)(sr_nextJob st :=
        noJob\<lparr>jb_line := line, jb_result := Some (''ERR|Service busy|'' @ [NL])\<rparr>)\<rparr>"
      using assms(7) by (simp add: submitJob_def Let_def setResult_def noJob_def)
    with assms(1-6) fresh c' show ?thesis
      by (auto simp: jobsInv_def jobsGrow_def sameExecutor_def clientOk_def openJobs_def list_all_iff
          split: ExecPhase.splits)
  next
    case False
    then have st': "st' = st\<lparr>sr_nextJob := sr_nextJob st + 1, sr_jobs := (sr_jobs st)(sr_nextJob st :=
        noJob\<lparr>jb_line := line\<rparr>), sr_queue := sr_queue st @ [sr_nextJob st]\<rparr>"
      using assms(7) by (simp add: submitJob_def Let_def)
    with assms(1-6) fresh c' False show ?thesis
      by (auto simp: jobsInv_def jobsGrow_def sameExecutor_def clientOk_def openJobs_def list_all_iff noJob_def
          split: ExecPhase.splits)
  qed
qed

lemma NL_split:
  "NL \<in> set xs \<Longrightarrow> length (takeWhile (\<lambda>x. x \<noteq> NL) xs) + 1 = length xs \<Longrightarrow> xs = takeWhile (\<lambda>x. x \<noteq> NL) xs @ [NL]"
  by (induction xs) (auto split: if_splits)

lemma receive_ok:
  assumes "jobsInv st" "clientOk (sr_jobs st) (sr_nextJob st) c" "receiveInput ev cls c st = (cls', c', st')"
  shows "turnOk st st' \<and> (if cls' then cl_job c' = cl_job c else clientOk (sr_jobs st') (sr_nextJob st') c')"
proof -
  have "turnOk st st' \<and> (if cls' then cl_job c' = cl_job c else clientOk (sr_jobs st') (sr_nextJob st') c')"
    if take: "takeInput now bytes c st = (cls', c', st')" for now bytes
  proof (cases "cl_job c")
    case (Some j)
    with take assms(1) show ?thesis by (auto simp: takeInput_def)
  next
    case None
    let ?in = "cl_input c @ bytes" and ?line = "takeWhile (\<lambda>x. x \<noteq> NL) (cl_input c @ bytes)"
    show ?thesis
    proof (cases "length ?in \<le> 16 * 1024 \<and> NL \<in> set ?in \<and> length ?line + 1 = length ?in")
      case True
      with take None have "submitJob now ?line (c\<lparr>cl_input := ?in\<rparr>) st = (c', st')" "\<not> cls'"
        by (auto simp: takeInput_def Let_def)
      with submit_ok [of st "c\<lparr>cl_input := ?in\<rparr>" ?line now c' st'] NL_split [of ?in] True assms(1,2) None
      show ?thesis by (auto simp: clientOk_def)
    next
      case False
      with take None assms(1,2) show ?thesis
        by (auto simp: takeInput_def Let_def clientOk_def split: if_splits)
    qed
  qed
  with assms show ?thesis
    by (auto simp: receiveInput_def Let_def split: if_splits ReadResult.splits)
qed

lemma send_ok:
  "clientOk jobs n c \<Longrightarrow> sendOutput ev cls c = (cls', c') \<Longrightarrow> clientOk jobs n c' \<and> cl_job c' = cl_job c"
  by (auto simp: sendOutput_def clientOk_def Let_def split: if_splits SendResult.splits option.splits)

lemma send_job: "sendOutput ev cls c = (cls', c') \<Longrightarrow> cl_job c' = cl_job c"
  by (auto simp: sendOutput_def Let_def split: if_splits SendResult.splits)

lemma cancel_ok: "jobsInv st \<Longrightarrow> turnOk st (cancelJob jo st)"
  by (auto simp: cancelJob_def jobsInv_def jobsGrow_def sameExecutor_def openJobs_def list_all_iff
      split: option.split ExecPhase.splits)

lemma turn_ok:
  assumes "jobsInv st" "clientOk (sr_jobs st) (sr_nextJob st) c" "clientTurn ev c st = (co, st')"
  shows "turnOk st st' \<and> (case co of None \<Rightarrow> True | Some c' \<Rightarrow> clientOk (sr_jobs st') (sr_nextJob st') c')"
proof -
  let ?cls = "cl_deadline c \<le> ev_now1 ev \<or> ev_error ev"
  obtain cls2 c2 st2 where recv: "receiveInput ev ?cls (collectResult ev ?cls c st) st = (cls2, c2, st2)"
    by (metis prod_cases3)
  obtain cls3 c3 where send: "sendOutput ev cls2 c2 = (cls3, c3)" by fastforce
  note r = receive_ok [OF assms(1) collect_ok [OF assms(2)] recv]
  have turn: "(co, st') = (if cls3 then (None, cancelJob (cl_job c3) st2) else (Some c3, st2))"
    using assms(3) by (simp only: clientTurn_def Let_def recv send prod.case)
  show ?thesis
  proof (cases cls3)
    case True
    with turn r cancel_ok [of st2 "cl_job c3"] show ?thesis
      by (auto intro: jobsGrow_trans sameExecutor_trans)
  next
    case False
    with send have "\<not> cls2" by (auto simp: sendOutput_def)
    with False turn r send_ok [OF _ send] show ?thesis by auto
  qed
qed

lemma turns_ok:
  assumes "jobsInv st" "list_all (\<lambda>(c, ev). clientOk (sr_jobs st) (sr_nextJob st) c) ces"
    "clientTurns ces st = (cs, st')"
  shows "turnOk st st' \<and> list_all (clientOk (sr_jobs st') (sr_nextJob st')) cs \<and> length cs \<le> length ces"
  using assms
proof (induction ces arbitrary: cs st')
  case (Cons ce ces)
  obtain c ev where ce: "ce = (c, ev)" by fastforce
  obtain cs1 st1 where rest: "clientTurns ces st = (cs1, st1)" by fastforce
  obtain co st2 where turn: "clientTurn ev c st1 = (co, st2)" by fastforce
  from Cons.IH [OF Cons.prems(1) _ rest] Cons.prems(2)
  have ih: "turnOk st st1" "list_all (clientOk (sr_jobs st1) (sr_nextJob st1)) cs1" "length cs1 \<le> length ces" by auto
  have c: "clientOk (sr_jobs st1) (sr_nextJob st1) c"
    using Cons.prems(2) ih(1) clientOk_grow by (auto simp: ce)
  from turn_ok [OF _ c turn] ih(1)
  have t: "turnOk st1 st2" "case co of None \<Rightarrow> True | Some c' \<Rightarrow> clientOk (sr_jobs st2) (sr_nextJob st2) c'" by auto
  have "list_all (clientOk (sr_jobs st2) (sr_nextJob st2)) cs1"
    using ih(2) t(1) clientOk_grow by (auto simp: list_all_iff)
  moreover have "st' = st2" "cs = (case co of Some c' \<Rightarrow> c' # cs1 | None \<Rightarrow> cs1)"
    using Cons.prems(3) by (simp_all add: ce rest turn)
  ultimately show ?case
    using ih t by (auto split: option.splits intro: jobsGrow_trans sameExecutor_trans)
qed simp

lemma serverInv_iff:
  "serverInv st \<longleftrightarrow> jobsInv st \<and> length (sr_clients st) \<le> 16 \<and>
     list_all (clientOk (sr_jobs st) (sr_nextJob st)) (sr_clients st)"
  by (auto simp: serverInv_def jobsInv_def)

lemma jobsInv_clients [simp]: "jobsInv (st\<lparr>sr_clients := cs\<rparr>) = jobsInv st"
  by (simp add: jobsInv_def openJobs_def)

lemma accept_inv:
  "serverInv st \<Longrightarrow> serverInv (acceptClient fd same now st) \<and>
     sr_service (acceptClient fd same now st) = sr_service st \<and>
     sr_executed (acceptClient fd same now st) = sr_executed st"
  by (auto simp: acceptClient_def serverInv_iff newClient_def clientOk_def)

lemma round_inv:
  assumes "serverInv st"
  shows "serverInv (serverRound evs newcomer st) \<and> sr_service (serverRound evs newcomer st) = sr_service st \<and>
    sr_executed (serverRound evs newcomer st) = sr_executed st"
proof -
  obtain cs st1 where turns: "clientTurns (zip (sr_clients st) evs) st = (cs, st1)" by fastforce
  have "list_all (\<lambda>(c, ev). clientOk (sr_jobs st) (sr_nextJob st) c) (zip (sr_clients st) evs)"
    using assms by (auto simp: serverInv_iff list_all_iff dest: set_zip_leftD)
  from turns_ok [OF _ this turns] assms
  have t: "turnOk st st1" "list_all (clientOk (sr_jobs st1) (sr_nextJob st1)) cs"
    "length cs \<le> length (zip (sr_clients st) evs)" by (simp_all add: serverInv_iff)
  then have "serverInv (st1\<lparr>sr_clients := cs\<rparr>)" using assms by (simp add: serverInv_iff)
  with t(1) accept_inv [of "st1\<lparr>sr_clients := cs\<rparr>"] show ?thesis
    by (cases newcomer) (auto simp: serverRound_def turns sameExecutor_def Let_def)
qed

lemma take_inv: "serverInv st \<Longrightarrow> sr_phase st = Waiting \<Longrightarrow> serverInv (takeJob st)"
  by (auto simp: takeJob_def serverInv_def openJobs_def split: list.splits)

text \<open>Answering a request never throws, so the job's promise is set, and set once.\<close>

lemma respond_returns: "\<exists>r s'. respondTo S E J line s = (Inr r, s')"
  by (auto simp: respondTo_def catchAny_def split: sum.split prod.split)

lemma run_inv:
  assumes "serverInv st" "sr_phase st = Executing j"
  shows "serverInv (runJob S E J j now st)"
proof -
  obtain r s' where r: "respondTo S E J (jb_line (sr_jobs st j)) (sr_service st) = (Inr r, s')"
    using respond_returns by meson
  have open_j: "jb_result (sr_jobs st j) = None" "j < sr_nextJob st" "j \<notin> set (sr_queue st)"
    using assms by (auto simp: serverInv_def openJobs_def)
  have "clientOk ((sr_jobs st)(j := (sr_jobs st j)\<lparr>jb_result := Some r\<rparr>)) (sr_nextJob st) c"
    if "clientOk (sr_jobs st) (sr_nextJob st) c" for c
    using that open_j by (auto simp: clientOk_def split: option.splits)
  then show ?thesis
    using assms open_j by (auto simp: runJob_def r setResult_def serverInv_def openJobs_def list_all_iff)
qed

lemma rest_inv: "serverInv st \<Longrightarrow> sr_phase st = Resting \<Longrightarrow> serverInv (rest S now st)"
  by (auto simp: rest_def serverInv_def openJobs_def Let_def)

lemma cancels_inv: "jobsInv st \<Longrightarrow> jobsInv (fold (cancelJob \<circ> cl_job) cs st)"
  by (induction cs arbitrary: st) (simp_all add: cancel_ok)

lemma step_inv: "serverStep S E J other st st' \<Longrightarrow> serverInv st \<Longrightarrow> serverInv st'"
proof (induction rule: serverStep.induct)
  case (Stop st)
  have "jobsInv (st\<lparr>sr_running := False\<rparr>)" using Stop by (simp add: serverInv_iff jobsInv_def openJobs_def)
  from cancels_inv [OF this, of "sr_clients st"] show ?case
    by (simp add: dropClients_def serverInv_iff)
qed (simp_all add: round_inv take_inv run_inv rest_inv, simp add: serverInv_def openJobs_def)

lemma run_steps_inv: "serverRun S E J other st st' \<Longrightarrow> serverInv st \<Longrightarrow> serverInv st'"
  by (induction rule: rtranclp_induct) (auto intro: step_inv)

lemma serverInv_new: "serverInv (newServer s idle now)"
  by (simp add: newServer_def serverInv_def openJobs_def)

section \<open>What reaches the headset\<close>

text \<open>The request lines that may wipe the pairing, of either protocol.\<close>

definition lineMayWipe :: "JsonText \<Rightarrow> string \<Rightarrow> bool" where
  "lineMayWipe J line =
     (if jsonLine line
      then (case jt_parse J line of Some (request, depth) \<Rightarrow> depth \<le> 32 \<and> jsonMayWipe request | None \<Rightarrow> False)
      else mayWipe (parseCommand line))"

definition allowed :: "bool \<Rightarrow> DeviceProfile \<times> u8 list \<Rightarrow> bool" where
  "allowed b = (if b then sendOk else noWipe)"

lemma allowed_mono: "list_all (allowed a) xs \<Longrightarrow> (a \<Longrightarrow> b) \<Longrightarrow> list_all (allowed b) xs"
  unfolding allowed_def by (erule list.pred_mono_strong) (auto dest: noWipe_sendOk split: if_splits)

context service_laws
begin

lemma json_line_safe:
  "jsonLine line \<Longrightarrow> safeP inv sent (if lineMayWipe J line then sendOk else noWipe) (json_executeLine J S E line)"
  unfolding safeP_def
proof (intro allI impI)
  fix s assume line: "jsonLine line" and inv: "inv s"
  let ?ok = "if lineMayWipe J line then sendOk else noWipe"
  show "inv (snd (json_executeLine J S E line s)) \<and>
      (\<exists>xs. sent (snd (json_executeLine J S E line s)) = sent s @ xs \<and> list_all ?ok xs)"
  proof (cases "jt_parse J line")
    case None
    with inv show ?thesis by (simp add: json_executeLine_def)
  next
    case (Some p)
    obtain request depth where p: "p = (request, depth)" by fastforce
    show ?thesis
    proof (cases "32 < depth")
      case True
      with inv Some p show ?thesis by (simp add: json_executeLine_def)
    next
      case False
      with Some p have after: "snd (json_executeLine J S E line s) = snd (json_execute S E request s)"
        by (simp add: json_executeLine_def case_prod_unfold)
      from False Some p line have ok: "lineMayWipe J line = jsonMayWipe request" by (simp add: lineMayWipe_def)
      show ?thesis unfolding after ok by (rule json_safe [OF inv])
    qed
  qed
qed

lemma line_safe:
  "safeP inv sent (if lineMayWipe J line then sendOk else noWipe)
     (ipc_executeLine S E (json_executeLine J S E) line)"
proof (cases "jsonLine line")
  case True
  with json_line_safe [OF True, of J E] show ?thesis by (simp only: ipc_executeLine_def if_True)
next
  case False
  with executeLine_safe [OF False, of E "json_executeLine J S E"] show ?thesis
    by (simp only: lineMayWipe_def if_False)
qed

lemma onDemand_safe: "safeP inv sent noWipe (connectOnDemand S line)"
proof -
  have "safeP inv sent noWipe (case ds of [] \<Rightarrow> returnP ()
      | d # _ \<Rightarrow> catchAny (is_connect S (dd_address d) (dd_name d)) (\<lambda>_. returnP ()))" for ds
    by (cases ds) (simp_all only: list.case emits_return emits_catchAny connect_noWipe)
  then show ?thesis unfolding connectOnDemand_def by (intro emits_intros discover_safe)
qed

lemma respond_safe: "safeP inv sent (if lineMayWipe J line then sendOk else noWipe) (respondTo S E J line)"
  unfolding respondTo_def
  by (intro emits_catchAny emits_bind emits_return line_safe wipe_weaken [OF onDemand_safe])

text \<open>All that a run of the server sends.\<close>

definition daemonOk :: "JsonText \<Rightarrow> 's Server \<Rightarrow> bool" where
  "daemonOk J st \<longleftrightarrow> inv (sr_service st) \<and>
     list_all (allowed (list_ex (lineMayWipe J) (sr_executed st))) (sent (sr_service st))"

lemma daemonOk_program:
  assumes "daemonOk J st" "safeP inv sent noWipe m" "snd (m (sr_service st)) = s'"
  shows "daemonOk J (st\<lparr>sr_service := s'\<rparr>)"
proof -
  let ?ok = "allowed (list_ex (lineMayWipe J) (sr_executed st))"
  from assms(1) have inv: "inv (sr_service st)" and sent: "list_all ?ok (sent (sr_service st))"
    by (simp_all only: daemonOk_def)
  from assms(3) have run: "m (sr_service st) = (fst (m (sr_service st)), s')" by (metis prod.collapse)
  obtain xs where "inv s'" "sent s' = sent (sr_service st) @ xs" "list_all ?ok xs"
    unfolding allowed_def by (rule emits_step [OF wipe_weaken [OF assms(2)] run inv])
  with sent show ?thesis by (simp add: daemonOk_def)
qed

lemma daemonOk_same: "sr_service st' = sr_service st \<Longrightarrow> sr_executed st' = sr_executed st \<Longrightarrow> daemonOk J st' = daemonOk J st"
  by (simp add: daemonOk_def)

lemma daemonOk_run:
  assumes "daemonOk J st" "serverInv st" "sr_phase st = Executing j"
  shows "daemonOk J (runJob S E J j now st)"
proof -
  let ?line = "jb_line (sr_jobs st j)"
  let ?wipes = "list_ex (lineMayWipe J)"
  obtain r s' where run: "respondTo S E J ?line (sr_service st) = (Inr r, s')" using respond_returns by meson
  from assms(1) have inv: "inv (sr_service st)"
    and sent: "list_all (allowed (?wipes (sr_executed st))) (sent (sr_service st))"
    by (simp_all only: daemonOk_def)
  obtain xs where xs: "inv s'" "sent s' = sent (sr_service st) @ xs" "list_all (allowed (lineMayWipe J ?line)) xs"
    unfolding allowed_def by (rule emits_step [OF respond_safe run inv])
  have "list_all (allowed (?wipes (sr_executed st @ [?line]))) (sent (sr_service st))"
    "list_all (allowed (?wipes (sr_executed st @ [?line]))) xs"
    by (rule allowed_mono [OF sent], simp) (rule allowed_mono [OF xs(3)], simp)
  with xs(1,2) show ?thesis
    by (simp add: runJob_def run Let_def daemonOk_def)
qed

lemma daemonOk_cancels: "daemonOk J (fold (cancelJob \<circ> cl_job) cs st) = daemonOk J st"
  by (induction cs arbitrary: st) (simp_all add: cancelJob_def daemonOk_def split: option.split)

lemma daemonOk_step:
  assumes "serverStep S E J other st st'" "serverInv st" "daemonOk J st"
    and other: "\<And>s s'. other s s' \<Longrightarrow> inv s \<Longrightarrow> inv s' \<and> sent s' = sent s"
  shows "daemonOk J st'"
  using assms(1-3)
proof (cases rule: serverStep_cases)
  case (Round evs newcomer)
  with round_inv [OF assms(2), of evs newcomer] assms(3) show ?thesis by (simp add: daemonOk_def)
next
  case Take
  then have "sr_service st' = sr_service st" "sr_executed st' = sr_executed st"
    by (simp_all add: takeJob_def split: list.split)
  with assms(3) daemonOk_same show ?thesis by blast
next
  case (Run j now)
  with daemonOk_run [OF assms(3,2)] show ?thesis by simp
next
  case (Rest now)
  have dis: "daemonOk J (st\<lparr>sr_service := is_disconnect S (sr_service st)\<rparr>)"
    using daemonOk_program [OF assms(3) disconnect_safe] by (simp add: modifyP_def)
  have tick: "daemonOk J (st\<lparr>sr_service := snd (is_tick S (sr_service st))\<rparr>)"
    using daemonOk_program [OF assms(3) tick_noWipe] by simp
  show ?thesis using Rest dis tick assms(3)
    by (simp add: rest_def Let_def daemonOk_def)
next
  case (Service s)
  with other [of "sr_service st" s] assms(3) show ?thesis by (simp add: daemonOk_def)
next
  case Stop
  let ?f = "fold (cancelJob \<circ> cl_job) (sr_clients st) (st\<lparr>sr_running := False\<rparr>)"
  have "daemonOk J ?f" using assms(3) by (simp only: daemonOk_cancels) (simp add: daemonOk_def)
  with Stop show ?thesis by (simp add: dropClients_def daemonOk_def)
qed

lemma daemonOk_steps:
  assumes "serverRun S E J other st st'" "serverInv st" "daemonOk J st"
    and other: "\<And>s s'. other s s' \<Longrightarrow> inv s \<Longrightarrow> inv s' \<and> sent s' = sent s"
  shows "daemonOk J st'"
  using assms(1)
proof (induction rule: rtranclp_induct)
  case (step a b)
  have "serverInv a" using step.hyps(1) assms(2) by (rule run_steps_inv)
  with step.hyps(2) show ?case using step.IH other by (rule daemonOk_step)
qed (rule assms(3))

end

end
