(* ===== verification/ServerLifecycle.thy ===== *)
theory ServerLifecycle
  imports UnixSocket
begin

text \<open>
  \<open>IpcServer::start\<close> and \<open>stop\<close>: how a daemon takes its socket and gives it back. The lock
  file says who may have the socket; the socket's file may be left from a daemon that died.
  What the system answers to each call is in \<open>StartAnswers\<close>; a call that changes what other
  processes see is recorded, in order, in the ghost \<open>ep_log\<close>. POSIX branch.
\<close>

section \<open>State\<close>

datatype SysEffect = LockTaken | SocketRemoved | SocketBound | Listening

text \<open>The members of \<open>IpcServer\<close> about the socket; a descriptor is held or is -1.\<close>

record Endpoint =
  ep_running :: bool
  ep_lockFd :: bool
  ep_listenFd :: bool
  ep_inode :: nat
  ep_log :: "SysEffect list"

definition newEndpoint :: Endpoint where
  "newEndpoint = \<lparr>ep_running = False, ep_lockFd = False, ep_listenFd = False, ep_inode = 0, ep_log = []\<rparr>"

text \<open>\<open>connect\<close> to a socket that may be there: somebody answers; nobody does (no file, or
  refused); or another error.\<close>

datatype ProbeResult = ProbeAnswered | ProbeNobody | ProbeError

record StartAnswers =
  sa_files :: Files
  sa_lockOpen :: bool
  sa_lockStat :: "Stat option"
  sa_flock :: bool
  sa_probe :: ProbeResult
  sa_unlink :: bool
  sa_socket :: bool
  sa_bind :: bool
  sa_inode :: "nat option"
  sa_chmod :: bool
  sa_listen :: bool
  sa_stopStat :: "(nat \<times> nat) option"

text \<open>\<open>defaultSocketPath\<close>, on Linux, from the environment and the user.\<close>

definition defaultSocketPath :: "string option \<Rightarrow> string \<Rightarrow> string" where
  "defaultSocketPath xdg euid = (case xdg of
      Some dir \<Rightarrow> if dir \<noteq> '''' then dir @ ''/sonyd.sock'' else ''/tmp/sonyd-'' @ euid @ ''/sonyd.sock''
    | None \<Rightarrow> ''/tmp/sonyd-'' @ euid @ ''/sonyd.sock'')"

section \<open>Operations\<close>

text \<open>A step of \<open>start\<close> that may fail.\<close>

definition need :: "bool \<Rightarrow> string \<Rightarrow> (Endpoint, unit) prog" where
  "need ok what = (if ok then returnP () else raiseP (StdException what))"

definition effect :: "SysEffect \<Rightarrow> (Endpoint \<Rightarrow> Endpoint) \<Rightarrow> (Endpoint, unit) prog" where
  "effect x f = modifyP (\<lambda>e. (f e)\<lparr>ep_log := ep_log e @ [x]\<rparr>)"

definition lockFileOk :: "StartAnswers \<Rightarrow> bool" where
  "lockFileOk A \<longleftrightarrow> sa_lockOpen A \<and> (case sa_lockStat A of
      Some st \<Rightarrow> st_kind st = RegularKind \<and> st_uid st = os_euid (sa_files A) \<and> st_mode st AND 0x3F = 0
    | None \<Rightarrow> False)"

text \<open>The body of \<open>start\<close>'s \<open>try\<close>.\<close>

definition startBody :: "StartAnswers \<Rightarrow> string \<Rightarrow> (Endpoint, unit) prog" where
  "startBody A path =
     bindP (case validatePath (sa_files A) path True of Inl ex \<Rightarrow> raiseP ex | Inr _ \<Rightarrow> returnP ()) (\<lambda>_.
     bindP (modifyP (\<lambda>e. e\<lparr>ep_lockFd := sa_lockOpen A\<rparr>)) (\<lambda>_.
     bindP (need (lockFileOk A) ''Invalid IPC lock file'') (\<lambda>_.
     bindP (need (sa_flock A) (''sonyd is already running at '' @ path)) (\<lambda>_.
     bindP (effect LockTaken id) (\<lambda>_.
     bindP (need (sa_probe A = ProbeNobody) ''IPC endpoint is already in use'') (\<lambda>_.
     bindP (need (sa_unlink A) ''Cannot remove stale IPC socket'') (\<lambda>_.
     bindP (effect SocketRemoved id) (\<lambda>_.
     bindP (need (sa_socket A) ''Cannot create IPC socket'') (\<lambda>_.
     bindP (modifyP (\<lambda>e. e\<lparr>ep_listenFd := True\<rparr>)) (\<lambda>_.
     bindP (need (sa_bind A) ''Cannot bind IPC socket'') (\<lambda>_.
     bindP (effect SocketBound (\<lambda>e. case sa_inode A of Some i \<Rightarrow> e\<lparr>ep_inode := i\<rparr> | None \<Rightarrow> e)) (\<lambda>_.
     bindP (need (sa_chmod A \<and> sa_listen A) ''Cannot secure or listen on IPC socket'') (\<lambda>_.
     effect Listening (\<lambda>e. e\<lparr>ep_running := True\<rparr>))))))))))))))"

text \<open>\<open>stop\<close>; the threads, joined first, are in \<open>IpcServer\<close>.\<close>

definition server_stop :: "StartAnswers \<Rightarrow> Endpoint \<Rightarrow> Endpoint" where
  "server_stop A e =
     (let own = (ep_inode e \<noteq> 0 \<and> (case sa_stopStat A of
            Some (inode, uid) \<Rightarrow> inode = ep_inode e \<and> uid = os_euid (sa_files A) | None \<Rightarrow> False))
      in e\<lparr>ep_running := False, ep_listenFd := False, ep_inode := 0, ep_lockFd := False,
           ep_log := ep_log e @ (if own then [SocketRemoved] else [])\<rparr>)"

definition server_start :: "StartAnswers \<Rightarrow> string \<Rightarrow> (Endpoint, unit) prog" where
  "server_start A path = ifP ep_running (returnP ())
     (catchAny (startBody A path) (\<lambda>ex. bindP (modifyP (server_stop A)) (\<lambda>_. raiseP ex)))"

section \<open>Taking the socket\<close>

lemmas start_simps = prog_simps need_def effect_def

lemma startBody_success:
  assumes "startBody A path newEndpoint = (Inr u, e)"
  shows "validatePath (sa_files A) path True = Inr ()" "lockFileOk A" "sa_flock A" "sa_probe A = ProbeNobody"
    "e = \<lparr>ep_running = True, ep_lockFd = True, ep_listenFd = True,
       ep_inode = (case sa_inode A of Some i \<Rightarrow> i | None \<Rightarrow> 0),
       ep_log = [LockTaken, SocketRemoved, SocketBound, Listening]\<rparr>"
  using assms
  by (auto simp: startBody_def start_simps newEndpoint_def lockFileOk_def split: sum.splits if_splits option.splits)

text \<open>C26: A daemon takes the socket whole or not at all, and never takes it from another. A start
  that succeeds leaves the server running with the lock of a private regular file of its own
  user, on a validated path; it removed the socket's file only after it had the lock and after
  nobody had answered there. A start that fails leaves nothing held, no descriptor and no
  lock, and says why; when another daemon has the lock, or answers, that daemon's socket is left
  alone. A second start of a running server does nothing.\<close>

theorem start_takes_all_or_nothing:
  "case server_start A path newEndpoint of
     (Inr _, e) \<Rightarrow> ep_running e \<and> ep_lockFd e \<and> ep_listenFd e \<and>
       ep_log e = [LockTaken, SocketRemoved, SocketBound, Listening] \<and>
       validatePath (sa_files A) path True = Inr () \<and> lockFileOk A \<and> sa_flock A \<and> sa_probe A = ProbeNobody \<and>
       server_start B path e = (Inr (), e)
   | (Inl ex, e) \<Rightarrow> \<not> ep_running e \<and> \<not> ep_lockFd e \<and> \<not> ep_listenFd e \<and> ep_inode e = 0 \<and>
       ex = StdException (exn_what ex) \<and>
       (if sa_flock A \<and> sa_probe A = ProbeNobody then True else SocketRemoved \<notin> set (ep_log e))"
proof (cases "startBody A path newEndpoint")
  case (Pair r e)
  have idle: "\<not> ep_running newEndpoint" by (simp add: newEndpoint_def)
  show ?thesis
  proof (cases r)
    case (Inr u)
    with Pair idle startBody_success [of A path u e] show ?thesis
      by (simp add: server_start_def prog_simps)
  next
    case (Inl ex)
    have plain: "ex = StdException (exn_what ex)"
      using Pair Inl by (auto simp: startBody_def start_simps validatePath_def bindE_def requireE_def Let_def
          split: sum.splits if_splits option.splits prod.splits)
    have quiet: "SocketRemoved \<notin> set (ep_log (server_stop A e))" if "\<not> (sa_flock A \<and> sa_probe A = ProbeNobody)"
    proof -
      have "SocketBound \<notin> set (ep_log e)" "SocketRemoved \<notin> set (ep_log e)" "ep_inode e = 0"
        using Pair Inl that by (auto simp: startBody_def start_simps newEndpoint_def
            split: sum.splits if_splits option.splits)
      then show ?thesis by (simp add: server_stop_def)
    qed
    from Pair Inl idle plain quiet show ?thesis
      by (auto simp: server_start_def prog_simps server_stop_def Let_def)
  qed
qed

end
