(* ===== verification/Daemon.thy ===== *)
theory Daemon
  imports IpcServer SessionConcurrency
begin

text \<open>
  The daemon \<open>sonyd\<close>: the server of \<open>IpcServer\<close> over the service of \<open>DeviceService\<close>, with the
  headset's reader running between the steps of the two threads. Here are the properties
  that span the whole of it, from the lines that clients write down to the payloads that
  reach the headset.
\<close>

text \<open>Between steps the reader of the device may run.\<close>

definition readerMoves :: "'t ServiceEnv \<Rightarrow> 't Service \<Rightarrow> 't Service \<Rightarrow> bool" where
  "readerMoves V s s' \<longleftrightarrow> (\<exists>n. s' = s\<lparr>sv_device := map_option (deviceRead (ve_dev V) n) (sv_device s)\<rparr>)"

abbreviation daemonRun :: "'t ServiceEnv \<Rightarrow> JsonText \<Rightarrow> 't Service Server \<Rightarrow> 't Service Server \<Rightarrow> bool" where
  "daemonRun V J \<equiv> serverRun (deviceService V) (ve_dev V) J (readerMoves V)"

lemma reader_harmless:
  "readerMoves V s s' \<Longrightarrow> linkInv s \<Longrightarrow> linkInv s' \<and> sv_sent s' = sv_sent s"
  using read_effect [where E = "ve_dev V"] unfolding readerMoves_def
  by (cases "sv_device s") (auto simp: linkInv_def sv_sent_def)

text \<open>A run to show that the properties are about something: a client connects to a daemon
  without a headset, asks for the status, is read, and its request is executed.\<close>

definition noJson :: JsonText where
  "noJson = \<lparr>jt_parse = (\<lambda>_. None), jt_dump = (\<lambda>_. '''')\<rparr>"

definition statusEvents :: Events where
  "statusEvents = \<lparr>ev_in = True, ev_error = False, ev_read = RBytes (''status'' @ [NL]), ev_send = SAgain,
     ev_now1 = 1, ev_now2 = 1, ev_now3 = 1\<rparr>"

abbreviation freshDaemon :: "FakeTransport Service Server" where
  "freshDaemon \<equiv> newServer (newService None) 15000000000 0"

definition askedDaemon :: "FakeTransport Service Server" where
  "askedDaemon = serverRound [statusEvents] None (serverRound [] (Some (4, True, 0)) freshDaemon)"

definition answeredDaemon :: "FakeTransport Service Server" where
  "answeredDaemon = runJob (deviceService lonelyEnv) (ve_dev lonelyEnv) noJson 0 2 (takeJob askedDaemon)"

lemma demo_run: "daemonRun lonelyEnv noJson freshDaemon answeredDaemon"
proof -
  let ?R = "serverStep (deviceService lonelyEnv) (ve_dev lonelyEnv) noJson (readerMoves lonelyEnv)"
  have "?R freshDaemon (serverRound [] (Some (4, True, 0)) freshDaemon)"
    by (rule serverStep.Round) (simp add: newServer_def)
  moreover have "?R (serverRound [] (Some (4, True, 0)) freshDaemon) askedDaemon"
    unfolding askedDaemon_def by (rule serverStep.Round) code_simp
  moreover have "?R askedDaemon (takeJob askedDaemon)"
    by (rule serverStep.Take) code_simp+
  moreover have "?R (takeJob askedDaemon) answeredDaemon"
    unfolding answeredDaemon_def by (rule serverStep.Run) code_simp
  ultimately show ?thesis by (meson converse_rtranclp_into_rtranclp rtranclp.rtrancl_refl)
qed

lemma runJob_frame:
  "sr_clients (runJob S E J j now st) = sr_clients st"
  "sr_executed (runJob S E J j now st) = sr_executed st @ [jb_line (sr_jobs st j)]"
  "jb_line (sr_jobs (runJob S E J j now st) k) = jb_line (sr_jobs st k)"
proof -
  obtain r s' where "respondTo S E J (jb_line (sr_jobs st j)) (sr_service st) = (Inr r, s')"
    using respond_returns by meson
  then show "sr_clients (runJob S E J j now st) = sr_clients st"
    "sr_executed (runJob S E J j now st) = sr_executed st @ [jb_line (sr_jobs st j)]"
    "jb_line (sr_jobs (runJob S E J j now st) k) = jb_line (sr_jobs st k)"
    by (simp_all add: runJob_def setResult_def Let_def)
qed

lemma demo_facts:
  "sr_executed answeredDaemon = [''status'']" "map cl_job (sr_clients answeredDaemon) = [Some 0]"
  "jb_line (sr_jobs answeredDaemon 0) = ''status''"
proof -
  have "sr_executed (takeJob askedDaemon) = []" "jb_line (sr_jobs (takeJob askedDaemon) 0) = ''status''"
    "map cl_job (sr_clients (takeJob askedDaemon)) = [Some 0]"
    by code_simp+
  then show "sr_executed answeredDaemon = [''status'']" "map cl_job (sr_clients answeredDaemon) = [Some 0]"
    "jb_line (sr_jobs answeredDaemon 0) = ''status''"
    by (simp_all only: answeredDaemon_def runJob_frame append_Nil)
qed

text \<open>C1: Nothing a client writes can endanger a headset. In any run of the daemon, over any
  transport, headset, discovery, clock and JSON library, with any clients writing any bytes in
  any order, every payload ever handed to a headset is one its model may get: known commands
  only, and no power-off opcode, for a V1 model; a reset and a factory reset only for models
  that allow them. And unless some request that was executed is a factory reset confirmed with
  \<open>--yes\<close> or \<open>"confirm": true\<close>, no factory reset was ever sent.\<close>

theorem daemon_never_endangers:
  assumes "daemonRun V J (newServer (newService t) idle now) st"
  shows "list_all (\<lambda>(prof, p). (\<exists>n. prof = getProfileForDevice n) \<and>
     (if pf_protocol prof = V1 then p \<noteq> [] \<and> hd p \<in> {0x04, 0x10, 0x18, 0x48, 0x56, 0x58, 0x66, 0x68} else True) \<and>
     (if p = [0xf8, 0x09, 0x00] then cap_reset (pf_capabilities prof) else True) \<and>
     (if p = [0xf8, 0x09, 0x01]
      then cap_factoryReset (pf_capabilities prof) \<and> list_ex (lineMayWipe J) (sr_executed st) else True))
   (sv_sent (sr_service st))"
proof -
  have start: "svc.daemonOk J (newServer (newService t) idle now)"
    by (simp add: svc.daemonOk_def newServer_def newService_def linkInv_def sv_sent_def)
  have ok: "svc.daemonOk J st"
    by (rule svc.daemonOk_steps [OF assms serverInv_new start]) (rule reader_harmless)
  then have "list_all (allowed (list_ex (lineMayWipe J) (sr_executed st))) (sv_sent (sr_service st))"
    by (simp add: svc.daemonOk_def)
  then show ?thesis
    by (rule list.pred_mono_strong) (auto simp: allowed_def noWipe_def sendOk_def v1Safe_def hd_conv_nth split: if_splits)
qed

theorem daemon_never_endangers_witness:
  "sr_executed answeredDaemon = [''status''] \<and>
   list_all (\<lambda>(prof, p). if p = [0xf8, 0x09, 0x01] then list_ex (lineMayWipe noJson) (sr_executed answeredDaemon) else True)
     (sv_sent (sr_service answeredDaemon))"
proof -
  have "list_all (\<lambda>(prof, p). if p = [0xf8, 0x09, 0x01] then list_ex (lineMayWipe noJson) (sr_executed answeredDaemon) else True)
     (sv_sent (sr_service answeredDaemon))"
    by (rule list.pred_mono_strong [OF daemon_never_endangers [OF demo_run]]) (clarsimp split: if_splits)
  with demo_facts(1) show ?thesis by blast
qed

text \<open>C27: The server stays within its bounds, and answers go to those who asked. In any
  interleaving of its two threads, over any service and whatever the clients and the system
  do, there are at most 16 clients and 16 waiting jobs, no client makes the server keep more
  than 16 KiB of input, no promise is ever set twice, so the executor never dies, each
  client has at most one request, and what it is sent is the result of that very request.\<close>

theorem server_stays_in_bounds:
  assumes "serverRun S E J other (newServer service idle now) st"
  shows "length (sr_clients st) \<le> 16 \<and> length (sr_queue st) \<le> 16 \<and> \<not> sr_broken st \<and>
    list_all (\<lambda>c. length (cl_input c) \<le> 16384 \<and> cl_sent c \<le> length (cl_output c) \<and>
      (case cl_job c of
         None \<Rightarrow> cl_output c = '''' \<and> NL \<notin> set (cl_input c)
       | Some j \<Rightarrow> cl_input c = jb_line (sr_jobs st j) @ [NL] \<and>
           (cl_output c = '''' \<or> jb_result (sr_jobs st j) = Some (cl_output c)))) (sr_clients st)"
proof -
  have "serverInv st" by (rule run_steps_inv [OF assms serverInv_new])
  then show ?thesis
    unfolding serverInv_def by (auto elim!: list.pred_mono_strong simp: clientOk_def split: option.splits)
qed

theorem server_stays_in_bounds_witness:
  "map cl_job (sr_clients answeredDaemon) = [Some 0] \<and>
   list_all (\<lambda>c. cl_input c = ''status'' @ [NL]) (sr_clients answeredDaemon)"
proof -
  from demo_facts(2) have jobs: "c \<in> set (sr_clients answeredDaemon) \<Longrightarrow> cl_job c = Some 0" for c
    by (metis empty_iff empty_set image_eqI list.set_map set_ConsD)
  from server_stays_in_bounds [OF demo_run]
  have "c \<in> set (sr_clients answeredDaemon) \<Longrightarrow> cl_input c = ''status'' @ [NL]" for c
    using jobs [of c] demo_facts(3) by (simp only: list_all_iff) fastforce
  with demo_facts(2) show ?thesis by (simp only: list_all_iff) blast
qed

text \<open>How an answer ends, and what a refusal costs.\<close>

lemma execute_line_ends:
  "ipc_executeLine S E (json_executeLine J S E) line s = (Inr r, s') \<Longrightarrow> r \<noteq> '''' \<and> last r = NL"
  by (auto simp: ipc_executeLine_def json_executeLine_def bindP_def serializeResponse_def Let_def NL_def
      split: if_splits prod.splits sum.splits option.splits)

lemma refused_untouched:
  assumes "\<not> jsonLine line" "needsConfirmation (parseCommand line) \<or> ic_type (parseCommand line) = Raw"
  shows "snd (respondTo S E J line s) = s"
proof -
  have need: "\<not> commandNeedsConnection line" using assms by (auto simp: commandNeedsConnection_def Let_def)
  have "ic_type (parseCommand line) \<noteq> Devices" using assms(2) by (auto simp: needsConfirmation_def)
  with assms(2) have "\<exists>r. ipc_execute S E (parseCommand line) = returnP r"
    unfolding ipc_execute_def by (simp only: if_False) metis
  then obtain r where "ipc_execute S E (parseCommand line) = returnP r" ..
  with need assms(1) show ?thesis
    by (simp add: respondTo_def connectOnDemand_def ipc_executeLine_def prog_simps)
qed


end
