(* ===== verification/IpcClient.thy ===== *)
theory IpcClient
  imports UnixSocket IpcProtocol
begin

text \<open>
  \<open>IpcClient\<close>, the client's side of the socket: connect, write one request line, read one
  response line, all before a deadline. The loops end only when the system lets them, so a
  call is a program with an optional outcome: \<open>None\<close> when it never returns.

  What the system answers is data, by the number of the call: \<open>ce_poll\<close> gives, for each round
  of \<open>waitFor\<close>, the two readings of the clock (in nanoseconds) and what \<open>poll\<close> answers for a
  time-out in milliseconds, \<open>None\<close> when it blocks for ever.
\<close>

section \<open>What the system answers\<close>

text \<open>\<open>PollReady\<close>: one of the awaited events; \<open>PollOther\<close>: only others (an error, the other
  side gone); \<open>PollAgain\<close>: the time is up, or a signal came.\<close>

datatype PollResult = PollReady | PollOther | PollAgain | PollFailed

datatype ConnectResult = ConnectDone | ConnectPending | ConnectRefused

record PollTurn =
  pt_now1 :: int
  pt_now2 :: int
  pt_answer :: "int \<Rightarrow> PollResult option"

record ClientEnv =
  ce_files :: Files
  ce_socket :: bool
  ce_start :: int
  ce_connect :: ConnectResult
  ce_soError :: bool
  ce_sameUser :: bool
  ce_poll :: "nat \<Rightarrow> PollTurn"
  ce_send :: "nat \<Rightarrow> SendResult"
  ce_read :: "nat \<Rightarrow> ReadResult"

text \<open>How many calls were made; and, as ghosts, the bytes written and read.\<close>

record ClientRun =
  cr_polls :: nat
  cr_sends :: nat
  cr_reads :: nat
  cr_written :: string
  cr_got :: string

definition freshRun :: ClientRun where
  "freshRun = \<lparr>cr_polls = 0, cr_sends = 0, cr_reads = 0, cr_written = '''', cr_got = ''''\<rparr>"

section \<open>Programs that may not return\<close>

type_synonym 'a call = "ClientRun \<Rightarrow> ((exn + 'a) \<times> ClientRun) option"

definition returnC :: "'a \<Rightarrow> 'a call" where
  "returnC x w = Some (Inr x, w)"

definition failC :: "string \<Rightarrow> 'a call" where
  "failC what w = Some (Inl (StdException what), w)"

definition bindC :: "'a call \<Rightarrow> ('a \<Rightarrow> 'b call) \<Rightarrow> 'b call" where
  "bindC m f w = Option.bind (m w) (\<lambda>(r, w'). case r of Inl e \<Rightarrow> Some (Inl e, w') | Inr x \<Rightarrow> f x w')"

lemma bindC_mono [partial_function_mono]:
  assumes "mono_option (\<lambda>f. m f w)" "\<And>x w'. mono_option (\<lambda>f. g f x w')"
  shows "mono_option (\<lambda>f. bindC (m f) (g f) w)"
proof -
  have "mono_option (\<lambda>f. case y of (r, w') \<Rightarrow> case r of Inl e \<Rightarrow> Some (Inl e, w') | Inr x \<Rightarrow> g f x w')" for y
    by (cases y; cases "fst y") (auto intro: assms(2) option.const_mono)
  with assms(1) show ?thesis unfolding bindC_def by (rule bind_mono)
qed

section \<open>Waiting\<close>

text \<open>\<open>duration_cast\<close> rounds towards zero.\<close>

definition inMilliseconds :: "int \<Rightarrow> int" where
  "inMilliseconds d = (if 0 \<le> d then d div 1000000 else - (- d div 1000000))"

definition pollTimeout :: "int \<Rightarrow> int" where
  "pollTimeout remaining = sint (word_of_int (inMilliseconds remaining + 1) :: 32 word)"

partial_function (option) waitFor :: "ClientEnv \<Rightarrow> int \<Rightarrow> ClientRun \<Rightarrow> ((exn + unit) \<times> ClientRun) option" where
  "waitFor C deadline w =
     (let t = ce_poll C (cr_polls w); w' = w\<lparr>cr_polls := cr_polls w + 1\<rparr> in
      if pt_now1 t < deadline
      then (case pt_answer t (pollTimeout (deadline - pt_now2 t)) of
          None \<Rightarrow> None
        | Some a \<Rightarrow>
            if a = PollReady then Some (Inr (), w')
            else if a = PollOther then Some (Inl (StdException ''Daemon disconnected''), w')
            else if a = PollFailed then Some (Inl (StdException ''IPC polling failed''), w')
            else waitFor C deadline w')
      else Some (Inl (StdException ''Timed out waiting for daemon''), w'))"

section \<open>One request\<close>

definition connectTo :: "ClientEnv \<Rightarrow> string \<Rightarrow> int \<Rightarrow> unit call" where
  "connectTo C path deadline =
     (case validatePath (ce_files C) path False of
        Inl e \<Rightarrow> (\<lambda>w. Some (Inl e, w))
      | Inr _ \<Rightarrow>
          bindC (case ce_connect C of
                ConnectDone \<Rightarrow> returnC ()
              | ConnectRefused \<Rightarrow> failC (''Daemon unavailable at '' @ path)
              | ConnectPending \<Rightarrow> bindC (waitFor C deadline)
                  (\<lambda>_. if ce_soError C then failC ''Cannot connect to daemon'' else returnC ()))
            (\<lambda>_. if ce_sameUser C then returnC () else failC ''IPC peer belongs to a different user''))"

definition isDaemonRunning :: "ClientEnv \<Rightarrow> string \<Rightarrow> int \<Rightarrow> bool option" where
  "isDaemonRunning C path ms =
     (if \<not> ce_socket C then Some False
      else map_option (\<lambda>(r, w). case r of Inr _ \<Rightarrow> True | Inl _ \<Rightarrow> False)
             (connectTo C path (ce_start C + ms * 1000000) freshRun))"

text \<open>One \<open>send\<close> of the rest of the line, and one \<open>read\<close>.\<close>

definition sendOnce :: "ClientEnv \<Rightarrow> string \<Rightarrow> string call" where
  "sendOnce C rest w =
     (let w' = w\<lparr>cr_sends := cr_sends w + 1\<rparr> in
      case ce_send C (cr_sends w) of
        SBytes n \<Rightarrow> Some (Inr (drop n rest), w'\<lparr>cr_written := cr_written w @ take n rest\<rparr>)
      | SAgain \<Rightarrow> Some (Inr rest, w')
      | SError \<Rightarrow> Some (Inl (StdException ''Cannot send to daemon''), w'))"

definition readOnce :: "ClientEnv \<Rightarrow> string \<Rightarrow> string call" where
  "readOnce C response w =
     (let w' = w\<lparr>cr_reads := cr_reads w + 1\<rparr> in
      case ce_read C (cr_reads w) of
        RError \<Rightarrow> Some (Inl (StdException ''Cannot read daemon response''), w')
      | RAgain \<Rightarrow> Some (Inr response, w')
      | RBytes waiting \<Rightarrow>
          let buf = take 4096 waiting; all = response @ buf; w'' = w'\<lparr>cr_got := cr_got w @ buf\<rparr> in
          if buf = '''' then Some (Inl (StdException ''Truncated daemon response''), w')
          else if 256 * 1024 < length all then Some (Inl (StdException ''Oversized daemon response''), w'')
          else Some (Inr all, w''))"

partial_function (option) sendLoop :: "ClientEnv \<Rightarrow> int \<Rightarrow> string \<Rightarrow> ClientRun \<Rightarrow> ((exn + unit) \<times> ClientRun) option" where
  "sendLoop C deadline rest w =
     (if rest = [] then Some (Inr (), w)
      else bindC (waitFor C deadline) (\<lambda>_. bindC (sendOnce C rest) (\<lambda>rest'. sendLoop C deadline rest')) w)"

text \<open>The loop ends with the first response that holds a newline; \<open>EINTR\<close> and \<open>EAGAIN\<close> add
  nothing, and what was read before had none.\<close>

partial_function (option) readLoop :: "ClientEnv \<Rightarrow> int \<Rightarrow> string \<Rightarrow> ClientRun \<Rightarrow> ((exn + string) \<times> ClientRun) option" where
  "readLoop C deadline response w =
     bindC (waitFor C deadline) (\<lambda>_. bindC (readOnce C response) (\<lambda>response' w'.
       if NL \<in> set response' then returnC (takeWhile (\<lambda>c. c \<noteq> NL) response') w'
       else readLoop C deadline response' w')) w"

definition request :: "ClientEnv \<Rightarrow> string \<Rightarrow> string \<Rightarrow> int \<Rightarrow> string call" where
  "request C path line ms =
     (if 16 * 1024 < length line + 1 \<or> NL \<in> set line then failC ''Invalid or oversized IPC request''
      else if \<not> ce_socket C then failC ''Cannot create IPC socket''
      else let deadline = ce_start C + ms * 1000000 in
        bindC (connectTo C path deadline) (\<lambda>_.
        bindC (sendLoop C deadline (line @ [NL])) (\<lambda>_.
        readLoop C deadline '''')))"

definition sendCommand :: "ClientEnv \<Rightarrow> string \<Rightarrow> string \<Rightarrow> int \<Rightarrow> (IpcResponse \<times> ClientRun) option" where
  "sendCommand C path line ms =
     map_option (\<lambda>(r, w). (case r of Inr answer \<Rightarrow> parseResponse answer | Inl e \<Rightarrow> respond False (exn_what e) '''', w))
       (request C path line ms freshRun)"

section \<open>A steady system\<close>

text \<open>What the client relies on for its calls to end: the clock does not stand still for ever,
  two readings in a row are less than two milliseconds apart, and \<open>poll\<close> with a time-out
  that is not negative returns.\<close>

definition steadySystem :: "ClientEnv \<Rightarrow> bool" where
  "steadySystem C \<longleftrightarrow>
     (\<forall>i. ce_start C \<le> pt_now1 (ce_poll C i) \<and> pt_now1 (ce_poll C i) \<le> pt_now2 (ce_poll C i) \<and>
          pt_now2 (ce_poll C i) < pt_now1 (ce_poll C i) + 2000000 \<and>
          (\<forall>ms. 0 \<le> ms \<longrightarrow> pt_answer (ce_poll C i) ms \<noteq> None)) \<and>
     (\<forall>t. \<exists>n. \<forall>i \<ge> n. t \<le> pt_now1 (ce_poll C i))"

lemma pollTimeout_nonneg:
  assumes "- 2000000 < d" "d \<le> 2147483646 * 1000000"
  shows "0 \<le> pollTimeout d"
proof -
  have lo: "- 1 \<le> inMilliseconds d"
  proof (cases "0 \<le> d")
    case False
    with assms(1) have "- d div 1000000 \<le> 1"
      using zdiv_mono1 [of "- d" 1999999 1000000] by simp
    with False show ?thesis by (simp add: inMilliseconds_def)
  qed (simp add: inMilliseconds_def)
  have hi: "inMilliseconds d \<le> 2147483646"
  proof (cases "0 \<le> d")
    case True
    from assms(2) have "d div 1000000 \<le> 2147483646"
      using zdiv_mono1 [of d "2147483646 * 1000000" 1000000] by simp
    with True show ?thesis by (simp add: inMilliseconds_def)
  next
    case False
    then have "0 \<le> - d div 1000000" by (simp add: pos_imp_zdiv_nonneg_iff)
    with False show ?thesis by (simp add: inMilliseconds_def)
  qed
  have "pollTimeout d = inMilliseconds d + 1"
    unfolding pollTimeout_def sint_sbintrunc' by (rule signed_take_bit_int_eq_self) (use lo hi in simp_all)
  with lo show ?thesis by simp
qed

text \<open>Total correctness: a call returns, every poll but its last was made before the deadline
  (the last too, when it succeeds), and then \<open>Q\<close> or, after an error, \<open>F\<close> holds.\<close>

definition before :: "ClientEnv \<Rightarrow> int \<Rightarrow> nat \<Rightarrow> nat \<Rightarrow> bool" where
  "before C d a b \<longleftrightarrow> (\<forall>i. a \<le> i \<and> i < b \<longrightarrow> pt_now1 (ce_poll C i) < d)"

definition ends :: "ClientEnv \<Rightarrow> int \<Rightarrow> 'a call \<Rightarrow> ('a \<Rightarrow> ClientRun \<Rightarrow> bool) \<Rightarrow> (ClientRun \<Rightarrow> bool) \<Rightarrow> ClientRun \<Rightarrow> bool" where
  "ends C d m Q F w \<longleftrightarrow> (\<exists>r w'. m w = Some (r, w') \<and> cr_polls w \<le> cr_polls w' \<and>
     (case r of
        Inr x \<Rightarrow> before C d (cr_polls w) (cr_polls w') \<and> Q x w'
      | Inl e \<Rightarrow> before C d (cr_polls w) (cr_polls w' - 1) \<and> F w' \<and> e = StdException (exn_what e)))"

lemma endsE:
  assumes "ends C d m Q F w"
  obtains r w' where "m w = Some (r, w')" "cr_polls w \<le> cr_polls w'"
    "case r of
       Inr x \<Rightarrow> before C d (cr_polls w) (cr_polls w') \<and> Q x w'
     | Inl e \<Rightarrow> before C d (cr_polls w) (cr_polls w' - 1) \<and> F w' \<and> e = StdException (exn_what e)"
  using assms unfolding ends_def by blast

lemma before_join: "before C d a b \<Longrightarrow> before C d b c \<Longrightarrow> before C d a c"
  unfolding before_def by (meson not_le)

lemma before_less: "before C d a b \<Longrightarrow> c \<le> b \<Longrightarrow> before C d a c"
  by (simp add: before_def)

lemma ends_bind:
  assumes "ends C d m (\<lambda>x. ends C d (f x) Q F) F w"
  shows "ends C d (bindC m f) Q F w"
proof -
  from assms obtain r w' where m: "m w = Some (r, w')" "cr_polls w \<le> cr_polls w'"
    and r: "case r of
        Inr x \<Rightarrow> before C d (cr_polls w) (cr_polls w') \<and> ends C d (f x) Q F w'
      | Inl e \<Rightarrow> before C d (cr_polls w) (cr_polls w' - 1) \<and> F w' \<and> e = StdException (exn_what e)"
    unfolding ends_def by blast
  show ?thesis
  proof (cases r)
    case (Inl e)
    with m r show ?thesis by (auto simp: ends_def bindC_def)
  next
    case (Inr x)
    with r obtain r2 w2 where run: "f x w' = Some (r2, w2)" "cr_polls w' \<le> cr_polls w2"
      and b: "before C d (cr_polls w) (cr_polls w')"
      and r2: "case r2 of
        Inr x \<Rightarrow> before C d (cr_polls w') (cr_polls w2) \<and> Q x w2
      | Inl e \<Rightarrow> before C d (cr_polls w') (cr_polls w2 - 1) \<and> F w2 \<and> e = StdException (exn_what e)"
      unfolding ends_def by auto
    have "bindC m f w = Some (r2, w2)" using m Inr run by (simp add: bindC_def)
    moreover have "cr_polls w \<le> cr_polls w2" using m run by simp
    moreover have "case r2 of
        Inr x \<Rightarrow> before C d (cr_polls w) (cr_polls w2) \<and> Q x w2
      | Inl e \<Rightarrow> before C d (cr_polls w) (cr_polls w2 - 1) \<and> F w2 \<and> e = StdException (exn_what e)"
      using r2 b by (auto split: sum.splits intro: before_join before_less)
    ultimately show ?thesis unfolding ends_def by blast
  qed
qed

lemma ends_return: "Q x w \<Longrightarrow> ends C d (returnC x) Q F w"
  by (simp add: ends_def returnC_def before_def)

lemma ends_fail: "F w \<Longrightarrow> ends C d (failC what) Q F w"
  by (auto simp: ends_def failC_def before_def)

lemma ends_weaken:
  "ends C d m Q F w \<Longrightarrow> (\<And>x w'. Q x w' \<Longrightarrow> Q' x w') \<Longrightarrow> (\<And>w'. F w' \<Longrightarrow> F' w') \<Longrightarrow> ends C d m Q' F' w"
proof -
  assume run: "ends C d m Q F w" and Q: "\<And>x w'. Q x w' \<Longrightarrow> Q' x w'" and F: "\<And>w'. F w' \<Longrightarrow> F' w'"
  from run obtain r w' where "m w = Some (r, w')" "cr_polls w \<le> cr_polls w'"
    and "case r of
        Inr x \<Rightarrow> before C d (cr_polls w) (cr_polls w') \<and> Q x w'
      | Inl e \<Rightarrow> before C d (cr_polls w) (cr_polls w' - 1) \<and> F w' \<and> e = StdException (exn_what e)"
    unfolding ends_def by blast
  then show ?thesis unfolding ends_def using Q F
    by (intro exI [of _ r] exI [of _ w']) (simp split: sum.splits)
qed

section \<open>The loops end\<close>

text \<open>A deadline that the client can have set, and the polls made before it.\<close>

definition goodDeadline :: "ClientEnv \<Rightarrow> int \<Rightarrow> bool" where
  "goodDeadline C d \<longleftrightarrow> steadySystem C \<and> d \<le> ce_start C + 2147483646 * 1000000"

definition late :: "ClientEnv \<Rightarrow> int \<Rightarrow> nat" where
  "late C d = (LEAST n. \<forall>i \<ge> n. d \<le> pt_now1 (ce_poll C i))"

lemma late:
  assumes "goodDeadline C d" "pt_now1 (ce_poll C i) < d" shows "i < late C d"
proof -
  from assms(1) have "\<exists>n. \<forall>i \<ge> n. d \<le> pt_now1 (ce_poll C i)"
    unfolding goodDeadline_def steadySystem_def by blast
  then have "\<forall>i \<ge> late C d. d \<le> pt_now1 (ce_poll C i)" unfolding late_def by (rule LeastI_ex)
  with assms(2) show ?thesis by (meson not_le)
qed

lemma poll_answers:
  assumes "goodDeadline C d" "pt_now1 (ce_poll C i) < d"
  shows "pt_answer (ce_poll C i) (pollTimeout (d - pt_now2 (ce_poll C i))) \<noteq> None"
proof -
  from assms(1) have "ce_start C \<le> pt_now1 (ce_poll C i)" "pt_now1 (ce_poll C i) \<le> pt_now2 (ce_poll C i)"
    "pt_now2 (ce_poll C i) < pt_now1 (ce_poll C i) + 2000000" "d \<le> ce_start C + 2147483646 * 1000000"
    unfolding goodDeadline_def steadySystem_def by blast+
  with assms(2) have "0 \<le> pollTimeout (d - pt_now2 (ce_poll C i))" by (intro pollTimeout_nonneg) linarith+
  with assms(1) show ?thesis unfolding goodDeadline_def steadySystem_def by blast
qed

text \<open>A successful wait polled at least once, and only before the deadline.\<close>

lemma ends_waitFor:
  assumes "goodDeadline C d"
    and "\<And>k. cr_polls w < k \<Longrightarrow> k \<le> late C d \<Longrightarrow> Q () (w\<lparr>cr_polls := k\<rparr>)"
    and "\<And>k. F (w\<lparr>cr_polls := k\<rparr>)"
  shows "ends C d (waitFor C d) Q F w"
  using assms(2,3)
proof (induction "late C d - cr_polls w" arbitrary: w rule: less_induct)
  case less
  let ?t = "ce_poll C (cr_polls w)" and ?w = "w\<lparr>cr_polls := cr_polls w + 1\<rparr>"
  show ?case
  proof (cases "pt_now1 ?t < d")
    case False
    then show ?thesis using less.prems(2) [of "cr_polls w + 1"]
      by (subst ends_def, subst waitFor.simps) (simp add: before_def Let_def)
  next
    case True
    with assms(1) have in_time: "cr_polls w < late C d" by (rule late)
    from poll_answers [OF assms(1) True] obtain a
      where a: "pt_answer ?t (pollTimeout (d - pt_now2 ?t)) = Some a" by blast
    have now: "before C d (cr_polls w) (cr_polls w + 1)" using True
      by (simp add: before_def) (metis le_less_Suc_eq)
    show ?thesis
    proof (cases a)
      case PollReady
      with True a now less.prems(1) [of "cr_polls w + 1"] in_time show ?thesis
        by (subst ends_def, subst waitFor.simps) (simp add: Let_def)
    next
      case PollAgain
      have same: "waitFor C d w = waitFor C d ?w"
        using True a PollAgain by (subst waitFor.simps) (simp add: Let_def)
      have "ends C d (waitFor C d) Q F ?w"
        by (rule less.hyps) (use in_time less.prems in auto)
      then obtain r w' where run: "waitFor C d ?w = Some (r, w')" "cr_polls ?w \<le> cr_polls w'"
        and r: "case r of
          Inr x \<Rightarrow> before C d (cr_polls ?w) (cr_polls w') \<and> Q x w'
        | Inl e \<Rightarrow> before C d (cr_polls ?w) (cr_polls w' - 1) \<and> F w' \<and> e = StdException (exn_what e)"
        by (rule endsE)
      have "before C d (cr_polls ?w) b \<Longrightarrow> before C d (cr_polls w) b" for b
        using before_join [OF now] by simp
      with run r show ?thesis unfolding ends_def same
        by (intro exI [of _ r] exI [of _ w']) (auto split: sum.splits)
    qed (use True a less.prems(2) [of "cr_polls w + 1"] in
        \<open>subst ends_def, subst waitFor.simps, simp add: Let_def before_def\<close>)+
  qed
qed

text \<open>Everything is written, or an error leaves a part of it written.\<close>

lemma ends_sendLoop:
  assumes "goodDeadline C d" "cr_written w @ rest = data"
    and "\<And>w'. cr_got w' = cr_got w \<Longrightarrow> cr_written w' = data \<Longrightarrow> Q () w'"
    and "\<And>w'. cr_got w' = cr_got w \<Longrightarrow> prefix (cr_written w') data \<Longrightarrow> F w'"
  shows "ends C d (sendLoop C d rest) Q F w"
  using assms(2-)
proof (induction "late C d - cr_polls w" arbitrary: w rest rule: less_induct)
  case less
  show ?case
  proof (cases "rest = []")
    case True
    with less.prems show ?thesis
      by (subst ends_def, subst sendLoop.simps) (simp add: before_def)
  next
    case False
    have "ends C d (bindC (waitFor C d) (\<lambda>_. bindC (sendOnce C rest) (\<lambda>rest'. sendLoop C d rest'))) Q F w"
    proof (intro ends_bind ends_waitFor assms(1))
      fix k
      let ?w = "w\<lparr>cr_polls := k\<rparr>"
      show "F ?w" using less.prems by (auto simp: prefix_def)
      assume k: "cr_polls w < k" "k \<le> late C d"
      have again: "ends C d (sendLoop C d rest') Q F w'"
        if "cr_polls w' = k" "cr_got w' = cr_got w" "cr_written w' @ rest' = data" for w' rest'
        by (rule less.hyps) (use k that less.prems in auto)
      show "ends C d (sendOnce C rest) (\<lambda>rest'. ends C d (sendLoop C d rest') Q F) F ?w"
        using less.prems(1) by (subst ends_def)
          (auto simp: sendOnce_def before_def Let_def split: SendResult.split
            intro!: again less.prems(3) simp: prefix_def)
    qed
    with False show ?thesis by (subst ends_def, subst sendLoop.simps) (simp add: ends_def)
  qed
qed

text \<open>A response is the first line of what the server wrote.\<close>

lemma ends_readLoop:
  assumes "goodDeadline C d" "NL \<notin> set response" "cr_got w = response" "length response \<le> 262144"
    and "\<And>a w'. cr_written w' = cr_written w \<Longrightarrow> NL \<notin> set a \<Longrightarrow> prefix (a @ [NL]) (cr_got w') \<Longrightarrow>
       length a < 262144 \<Longrightarrow> Q a w'"
    and "\<And>w'. cr_written w' = cr_written w \<Longrightarrow> F w'"
  shows "ends C d (readLoop C d response) Q F w"
  using assms(2-)
proof (induction "late C d - cr_polls w" arbitrary: w response rule: less_induct)
  case less
  have "ends C d (bindC (waitFor C d) (\<lambda>_. bindC (readOnce C response) (\<lambda>response' w'.
       if NL \<in> set response' then returnC (takeWhile (\<lambda>c. c \<noteq> NL) response') w'
       else readLoop C d response' w'))) Q F w"
  proof (intro ends_bind ends_waitFor assms(1))
    fix k
    let ?w = "w\<lparr>cr_polls := k\<rparr>"
    show "F ?w" using less.prems by simp
    assume k: "cr_polls w < k" "k \<le> late C d"
    define go where "go = (\<lambda>r' w'. if NL \<in> set r' then returnC (takeWhile (\<lambda>c. c \<noteq> NL) r') w'
       else readLoop C d r' w')"
    have next_round: "ends C d (go r') Q F w'"
      if w': "cr_polls w' = k" "cr_written w' = cr_written w" "cr_got w' = r'" "length r' \<le> 262144" for w' r'
    proof (cases "NL \<in> set r'")
      case True
      let ?a = "takeWhile (\<lambda>c. c \<noteq> NL) r'"
      from True obtain ys zs where r': "r' = ys @ NL # zs" "NL \<notin> set ys" by (meson split_list_first)
      then have "?a = ys" by (subst r'(1), subst takeWhile_append2) auto
      with r' w' True have "Q ?a w'" by (intro less.prems(4)) auto
      then have "ends C d (returnC ?a) Q F w'" by (rule ends_return)
      with True show ?thesis by (simp add: ends_def go_def)
    next
      case False
      have "ends C d (readLoop C d r') Q F w'"
        by (rule less.hyps) (use False k w' less.prems in auto)
      with False show ?thesis by (simp add: ends_def go_def)
    qed
    have "ends C d (readOnce C response) (\<lambda>r'. ends C d (go r') Q F) F ?w"
      using less.prems by (subst ends_def)
        (auto simp: readOnce_def before_def Let_def split: ReadResult.split intro!: next_round)
    then show "ends C d (readOnce C response) (\<lambda>r'. ends C d (\<lambda>w'. if NL \<in> set r'
        then returnC (takeWhile (\<lambda>c. c \<noteq> NL) r') w' else readLoop C d r' w') Q F) F ?w"
      unfolding go_def .
  qed
  then show ?case by (subst ends_def, subst readLoop.simps) (simp add: ends_def)
qed

lemma ends_connectTo:
  assumes "goodDeadline C d" "\<And>k. Q () (w\<lparr>cr_polls := k\<rparr>)" "\<And>k. F (w\<lparr>cr_polls := k\<rparr>)"
  shows "ends C d (connectTo C path d) Q F w"
proof (cases "validatePath (ce_files C) path False")
  case (Inl e)
  have "e = StdException (exn_what e)"
    using Inl by (auto simp: validatePath_def bindE_def requireE_def Let_def split: sum.splits if_splits)
  with Inl assms(3) [of "cr_polls w"] show ?thesis by (auto simp: connectTo_def ends_def before_def)
next
  case (Inr u)
  have user: "ends C d (if ce_sameUser C then returnC () else failC ''IPC peer belongs to a different user'') Q F (w\<lparr>cr_polls := k\<rparr>)" for k
    using assms by (simp add: ends_return ends_fail)
  have "w\<lparr>cr_polls := cr_polls w\<rparr> = w" by simp
  with user [of "cr_polls w"] assms(2,3) [of "cr_polls w"]
  have here: "ends C d (if ce_sameUser C then returnC () else failC ''IPC peer belongs to a different user'') Q F w"
    "F w" "Q () w" by simp_all
  show ?thesis
    using Inr by (auto simp: connectTo_def split: ConnectResult.split intro!: ends_bind ends_waitFor
        ends_return ends_fail here user assms)
qed

section \<open>A request\<close>

lemma ends_request:
  assumes "steadySystem C" "ms \<le> 2147483646"
  shows "ends C (ce_start C + ms * 1000000) (request C path line ms)
    (\<lambda>a w. cr_written w = line @ [NL] \<and> NL \<notin> set a \<and> prefix (a @ [NL]) (cr_got w) \<and> length a < 262144)
    (\<lambda>w. prefix (cr_written w) (line @ [NL])) freshRun"
proof -
  let ?d = "ce_start C + ms * 1000000"
  have good: "goodDeadline C ?d" using assms by (simp add: goodDeadline_def)
  show ?thesis
    by (auto simp: request_def Let_def freshRun_def
        intro!: ends_fail ends_bind ends_connectTo [OF good] ends_sendLoop [OF good] ends_readLoop [OF good])
qed

text \<open>C25: A request always returns, and soon after its deadline at the latest. On a steady system,
  whatever the server and the system answer, the client's call ends with a response or an
  exception; every time but the last at which it waited, it did so before the deadline. A
  response means that the whole request line was written and nothing else, and is the first
  line of what the server wrote, of less than 256 KiB; after an exception only a part of the
  line may have been written. \<open>sendCommand\<close> makes a failed response of the exception, and
  asking whether the daemon runs ends too.\<close>

theorem client_returns:
  assumes "steadySystem C" "ms \<le> 2147483646"
  shows "\<exists>r w. request C path line ms freshRun = Some (r, w) \<and>
    list_all (\<lambda>i. pt_now1 (ce_poll C i) < ce_start C + ms * 1000000) [0..<cr_polls w - 1] \<and>
    (case r of
       Inr a \<Rightarrow> cr_written w = line @ [NL] \<and> NL \<notin> set a \<and> prefix (a @ [NL]) (cr_got w) \<and> length a < 262144 \<and>
         sendCommand C path line ms = Some (parseResponse a, w)
     | Inl e \<Rightarrow> prefix (cr_written w) (line @ [NL]) \<and>
         sendCommand C path line ms = Some (respond False (exn_what e) '''', w)) \<and>
    isDaemonRunning C path ms \<noteq> None"
proof -
  let ?d = "ce_start C + ms * 1000000"
  have good: "goodDeadline C ?d" using assms by (simp add: goodDeadline_def)
  have "ends C ?d (connectTo C path ?d) (\<lambda>_ _. True) (\<lambda>_. True) freshRun"
    by (rule ends_connectTo [OF good]) simp_all
  then have asked: "isDaemonRunning C path ms \<noteq> None"
    by (auto simp: isDaemonRunning_def elim: endsE)
  from ends_request [OF assms] obtain r w where "request C path line ms freshRun = Some (r, w)"
    "cr_polls freshRun \<le> cr_polls w"
    and "case r of
      Inr a \<Rightarrow> before C ?d (cr_polls freshRun) (cr_polls w) \<and>
        cr_written w = line @ [NL] \<and> NL \<notin> set a \<and> prefix (a @ [NL]) (cr_got w) \<and> length a < 262144
    | Inl e \<Rightarrow> before C ?d (cr_polls freshRun) (cr_polls w - 1) \<and> prefix (cr_written w) (line @ [NL]) \<and>
        e = StdException (exn_what e)"
    by (rule endsE)
  with asked show ?thesis
    by (intro exI [of _ r] exI [of _ w])
      (auto simp: sendCommand_def freshRun_def before_def list_all_iff split: sum.splits)
qed

text \<open>A system that answers at once, with a clock that shows a millisecond per poll: the
  server writes its answer in two pieces, the first without an end.\<close>

definition promptSystem :: ClientEnv where
  "promptSystem =
     \<lparr>ce_files = \<lparr>os_lstat = (\<lambda>_. Some \<lparr>st_kind = DirectoryKind, st_uid = 7, st_mode = 0\<rparr>)
          (''/run/sonyd.sock'' \<mapsto> \<lparr>st_kind = SocketKind, st_uid = 7, st_mode = 0\<rparr>),
        os_mkdir = (\<lambda>_. (MkdirFailed, Map.empty)), os_euid = 7\<rparr>,
      ce_socket = True, ce_start = 0, ce_connect = ConnectPending, ce_soError = False, ce_sameUser = True,
      ce_poll = (\<lambda>i. \<lparr>pt_now1 = int i * 1000000, pt_now2 = int i * 1000000 + 1,
         pt_answer = (\<lambda>ms. if 0 \<le> ms then Some PollReady else None)\<rparr>),
      ce_send = (\<lambda>i. SBytes 5),
      ce_read = (\<lambda>i. if i = 0 then RBytes ''OK|'' else RBytes (''Connected|'' @ [NL]))\<rparr>"

lemma promptSystem_steady: "steadySystem promptSystem"
proof -
  have "\<exists>n. \<forall>i \<ge> n. t \<le> int i * 1000000" for t :: int
    by (rule exI [of _ "nat t"]) (auto simp: nat_le_iff)
  then show ?thesis by (simp add: steadySystem_def promptSystem_def)
qed

theorem client_returns_witness:
  "\<exists>r w. request promptSystem ''/run/sonyd.sock'' ''status'' 3000 freshRun = Some (r, w) \<and>
    (case r of
       Inr a \<Rightarrow> cr_written w = ''status'' @ [NL] \<and> sendCommand promptSystem ''/run/sonyd.sock'' ''status'' 3000 = Some (parseResponse a, w)
     | Inl e \<Rightarrow> prefix (cr_written w) (''status'' @ [NL]))"
  using client_returns [of promptSystem 3000 "''/run/sonyd.sock''" "''status''", OF promptSystem_steady]
  by (fastforce split: sum.splits)

text \<open>A flaw that the model shows: \<open>poll\<close> is called with \<open>remaining + 1\<close>, which is negative, and
  so means no time-out at all, when the second reading of the clock is two milliseconds
  after the deadline or more. A client that is held up between its two readings then waits
  for ever.\<close>

lemma late_reading_blocks:
  assumes "ce_poll C (cr_polls w) = \<lparr>pt_now1 = d - 1, pt_now2 = d + 2000000,
      pt_answer = (\<lambda>ms. if ms < 0 then None else Some PollAgain)\<rparr>"
  shows "waitFor C d w = None"
  using assms by (subst waitFor.simps) (simp add: pollTimeout_def inMilliseconds_def Let_def)

end
