(* ===== verification/CommandLine.thy ===== *)
theory CommandLine
  imports IpcClient DeviceService
begin

text \<open>
  The two programs: \<open>sony-wh-cli\<close> (main.cpp), which turns its arguments into one command
  line and has it executed, by the daemon or in a direct session of its own; and the
  arguments of \<open>sonyd\<close> (sonyd.cpp).

  What the programs get from outside is in \<open>World\<close>: the socket's two connections (one to
  ask whether the daemon runs, one for the request), the terminal, and the default socket
  path. The service of a direct session is an \<open>IDeviceService\<close>. Text is UTF-8 bytes.
\<close>

section \<open>Help\<close>

definition DASH :: string where "DASH = [CHR 0xE2, CHR 0x80, CHR 0x94]"
definition QUOTE :: string where "QUOTE = [CHR 0x27]"

definition helpText :: "string list \<Rightarrow> string" where
  "helpText ls = concat (map (\<lambda>l. l @ [NL]) ls)"

definition presetList :: string where
  "presetList = helpText (''Available presets:'' # map (\<lambda>(p, i, n). ''  '' @ i) equalizerPresets)"

definition generalHelp :: string where
  "generalHelp = helpText
     [''sony-wh-cli '' @ DASH @ '' CLI diagnostic and control tool for Sony audio devices'',
      '''',
      ''Usage: sony-wh-cli [options] <command> [args...]'',
      ''       sony-wh-cli help <command>          Show detailed help for a command'',
      '''',
      ''Query commands:'',
      ''  devices                    List discovered paired Sony devices'',
      ''  info                       Display connected device information & capabilities'',
      ''  battery                    Display battery percentage and charging state'',
      ''  status                     Display connection status'',
      '''',
      ''Control commands:'',
      ''  anc on|off                 Enable or disable Active Noise Cancelling'',
      ''  ambient <1-20>|off         Set Ambient Sound level or turn ambient off'',
      ''  eq get|preset|custom       Get or set the Equalizer (see: help eq)'',
      ''  dsee on|off                Toggle DSEE sound enhancement'',
      ''  apo <0-5>                  Set Auto-Power-Off duration preset index'',
      ''  speaktochat on|off         Toggle Speak-to-Chat auto-pause'',
      ''  adaptivevolume on|off      Toggle Adaptive Volume'',
      '''',
      ''Destructive commands:'',
      ''  reset                      Initialize headphone settings (disconnects the'',
      ''                             device; confirmed on WH-1000XM5 only)'',
      ''  factoryreset               DESTRUCTIVE: wipes the pairing itself; headphones'',
      ''                             must be re-paired afterward (WH-1000XM5 only).'',
      ''                             Asks for confirmation; see --yes'',
      '''',
      ''Options:'',
      ''  -s, --socket <path>        Custom Unix domain socket path for sonyd'',
      ''  --yes                      Confirm a destructive command (factoryreset)'',
      ''                             without prompting; required when not run from a'',
      ''                             terminal, e.g. in a script'',
      ''  --direct                   Bypass sonyd for a one-off direct Bluetooth'',
      ''                             session (refuses to run alongside a live sonyd)'',
      ''  -v, --verbose              Enable verbose diagnostic logging'',
      ''  -h, --help                 Display this help menu; after a command, shows'',
      ''                             detailed help for that command instead'',
      '''',
      ''sony-wh-cli requires sonyd to be running; start it with `sonyd` first,'',
      ''or pass --direct to skip the daemon for a single command.'',
      '''',
      ''Examples:'',
      ''  sony-wh-cli anc on'',
      ''  sony-wh-cli ambient 10'',
      ''  sony-wh-cli eq bass-boost'',
      ''  sony-wh-cli dsee on'',
      ''  sony-wh-cli help eq'']"

definition commandHelp :: "string \<Rightarrow> string" where
  "commandHelp command =
     (let cmd = toLower command in
      if cmd = ''devices'' then helpText
       [''devices '' @ DASH @ '' list discovered paired Sony devices'',
        '''',
        ''Usage: sony-wh-cli devices'',
        '''',
        ''Lists every nearby/paired Sony device with its Bluetooth address.'',
        ''Does not require an existing connection.'']
      else if cmd = ''info'' then helpText
       [''info '' @ DASH @ '' display connected device information & capabilities'',
        '''',
        ''Usage: sony-wh-cli info'',
        '''',
        ''Shows the model name, protocol version, firmware, codec, battery,'',
        ''noise control state, and which features this device supports.'']
      else if cmd = ''battery'' then helpText
       [''battery '' @ DASH @ '' display battery percentage and charging state'',
        '''',
        ''Usage: sony-wh-cli battery'',
        '''',
        ''For earbuds with separate left/right/case batteries, shows each one'',
        ''individually when the device reports them.'']
      else if cmd = ''status'' then helpText
       [''status '' @ DASH @ '' display connection status'',
        '''',
        ''Usage: sony-wh-cli status'']
      else if cmd = ''anc'' then helpText
       [''anc '' @ DASH @ '' enable or disable Active Noise Cancelling'',
        '''',
        ''Usage: sony-wh-cli anc <on|off>'']
      else if cmd = ''ambient'' then helpText
       [''ambient '' @ DASH @ '' set Ambient Sound level, or turn it off'',
        '''',
        ''Usage:'',
        ''  sony-wh-cli ambient <1-20>   Enable Ambient Sound at this level'',
        ''  sony-wh-cli ambient off      Turn Ambient Sound off'']
      else if cmd = ''eq'' then helpText
       [''eq '' @ DASH @ '' get or set the Equalizer'',
        '''',
        ''Usage:'',
        ''  sony-wh-cli eq get                     Show the active preset and band levels'',
        ''  sony-wh-cli eq preset <name>           Set a preset by name'',
        ''  sony-wh-cli eq <name>                  Shorthand for 'eq preset <name>'' @ QUOTE,
        ''  sony-wh-cli eq custom <cb> <b1..b5>    Apply custom Clear Bass and 5 bands'',
        ''                                         (each -10..10)'',
        ''''] @ presetList
      else if cmd = ''dsee'' then helpText
       [''dsee '' @ DASH @ '' toggle DSEE sound enhancement'',
        '''',
        ''Usage: sony-wh-cli dsee <on|off>'']
      else if cmd = ''apo'' \<or> cmd = ''autopoweroff'' then helpText
       [''apo '' @ DASH @ '' set the Auto-Power-Off duration'',
        '''',
        ''Usage: sony-wh-cli apo <0-5>'',
        '''',
        ''Index meanings:'',
        ''  0  Off'',
        ''  1  5 minutes'',
        ''  2  30 minutes'',
        ''  3  1 hour'',
        ''  4  3 hours'',
        ''  5  When taken off'']
      else if cmd = ''speaktochat'' then helpText
       [''speaktochat '' @ DASH @ '' toggle Speak-to-Chat auto-pause'',
        '''',
        ''Usage: sony-wh-cli speaktochat <on|off>'',
        '''',
        ''Automatically pauses playback when you start speaking.'']
      else if cmd = ''adaptivevolume'' then helpText
       [''adaptivevolume '' @ DASH @ '' toggle Adaptive Volume'',
        '''',
        ''Usage: sony-wh-cli adaptivevolume <on|off>'',
        '''',
        ''Automatically adjusts volume based on ambient noise and activity.'']
      else if cmd = ''reset'' then helpText
       [''reset '' @ DASH @ '' initialize headphone settings'',
        '''',
        ''Usage: sony-wh-cli reset'',
        '''',
        ''Resets settings (EQ, ANC, etc.) to their defaults; the headphones'',
        ''disconnect briefly and sonyd reconnects automatically afterward.'',
        ''Confirmed on WH-1000XM5 only '' @ DASH @ '' refuses on other models rather than'',
        ''guessing.'']
      else if cmd = ''factoryreset'' then helpText
       [''factoryreset '' @ DASH @ '' DESTRUCTIVE: factory reset'',
        '''',
        ''Usage: sony-wh-cli [--yes] factoryreset'',
        '''',
        ''Wipes the pairing itself, not just settings. The headphones will'',
        ''need to be re-paired from your device's Bluetooth settings'',
        ''afterward. Confirmed on WH-1000XM5 only '' @ DASH @ '' refuses on other models'',
        ''rather than guessing.'',
        '''',
        ''Asks for confirmation first and aborts unless you answer y or yes.'',
        ''--yes skips the prompt, and is required when stdin is not a terminal'',
        ''(scripts, pipes). sonyd refuses an unconfirmed factoryreset from any'',
        ''client, so skipping the CLI does not skip the check.'']
      else helpText [''No detailed help for '' @ QUOTE @ command @ QUOTE @ ''.'',
        ''Run `sony-wh-cli --help` for the list of commands.''])"

definition sonydHelp :: string where
  "sonydHelp = helpText
     [''sonyd '' @ DASH @ '' background daemon that owns the Bluetooth connection to Sony audio devices'',
      '''',
      ''Usage: sonyd [options]'',
      '''',
      ''Options:'',
      ''  -s, --socket <path>        Custom Unix domain socket path'',
      ''  -v, --verbose              Enable verbose diagnostic logging'',
      ''  -h, --help                 Display this help menu'',
      '''',
      ''sony-wh-cli (and any other client) talks to this daemon over its local'',
      ''IPC socket when it is running, so multiple callers can share a single'',
      ''Bluetooth connection instead of fighting over it.'']"

section \<open>Arguments\<close>

record Options =
  op_socket :: string
  op_direct :: bool
  op_verbose :: bool
  op_help :: bool
  op_yes :: bool
  op_tokens :: "string list"

definition noOptions :: "string \<Rightarrow> Options" where
  "noOptions socket = \<lparr>op_socket = socket, op_direct = False, op_verbose = False, op_help = False,
     op_yes = False, op_tokens = []\<rparr>"

definition helpArg :: "string \<Rightarrow> bool" where
  "helpArg arg \<longleftrightarrow> arg = ''-h'' \<or> arg = ''--help''"

definition socketArg :: "string \<Rightarrow> bool" where
  "socketArg arg \<longleftrightarrow> arg = ''-s'' \<or> arg = ''--socket''"

definition verboseArg :: "string \<Rightarrow> bool" where
  "verboseArg arg \<longleftrightarrow> arg = ''-v'' \<or> arg = ''--verbose''"

definition directArg :: "string \<Rightarrow> bool" where
  "directArg arg \<longleftrightarrow> arg = ''--direct''"

fun parseArgs :: "string list \<Rightarrow> Options \<Rightarrow> Options" where
  "parseArgs [] o1 = o1"
| "parseArgs (arg # args) o1 =
     (if helpArg arg then parseArgs args (o1\<lparr>op_help := True\<rparr>)
      else if socketArg arg \<and> args \<noteq> []
      then parseArgs (tl args) (o1\<lparr>op_socket := hd args\<rparr>)
      else if arg = kConfirmArg then parseArgs args (o1\<lparr>op_yes := True\<rparr>)
      else if directArg arg then parseArgs args (o1\<lparr>op_direct := True\<rparr>)
      else if verboseArg arg then parseArgs args (o1\<lparr>op_verbose := True\<rparr>)
      else parseArgs args (o1\<lparr>op_tokens := op_tokens o1 @ [arg]\<rparr>))"

datatype DaemonStart = PrintHelp | UnknownArgument string | RunDaemon string bool

fun sonydArgs :: "string list \<Rightarrow> string \<Rightarrow> bool \<Rightarrow> DaemonStart" where
  "sonydArgs [] socket verbose = RunDaemon socket verbose"
| "sonydArgs (arg # args) socket verbose =
     (if helpArg arg then PrintHelp
      else if socketArg arg \<and> args \<noteq> [] then sonydArgs (tl args) (hd args) verbose
      else if verboseArg arg then sonydArgs args socket True
      else UnknownArgument arg)"

section \<open>Asking before a destructive command\<close>

text \<open>Standard input: not a terminal, or one where a line can be read (\<open>None\<close> at its end).\<close>

datatype Terminal = NoTerminal | Terminal "string option"

definition blank :: "char \<Rightarrow> bool" where
  "blank c \<longleftrightarrow> c = CHR '' '' \<or> c = CHR 0x09 \<or> c = CR \<or> c = NL"

definition trim :: "string \<Rightarrow> string" where
  "trim s = rev (dropWhile blank (rev (dropWhile blank s)))"

text \<open>The decision, and what is written to the error output.\<close>

definition confirmDestructive :: "string \<Rightarrow> bool \<Rightarrow> Terminal \<Rightarrow> bool \<times> string" where
  "confirmDestructive warning assumeYes tty =
     (if assumeYes then (True, '''')
      else case tty of
        NoTerminal \<Rightarrow> (False, ''Error: '' @ warning @ [NL] @
          ''This must be confirmed, and stdin is not a terminal. Pass --yes to confirm.'' @ [NL])
      | Terminal line \<Rightarrow>
          (case line of
             None \<Rightarrow> False
           | Some answer \<Rightarrow> let a = map tolowerC (trim answer) in a = ''y'' \<or> a = ''yes'',
           ''WARNING: '' @ warning @ [NL] @ ''Continue? [y/N] ''))"

section \<open>The command line client\<close>

record World =
  wo_defaultSocket :: string
  wo_probe :: ClientEnv
  wo_conn :: ClientEnv
  wo_tty :: Terminal

text \<open>Exit code, output, error output; and, as a ghost, what was written to the daemon.\<close>

record Outcome =
  oc_code :: int
  oc_out :: string
  oc_err :: string
  oc_written :: string

definition printed :: "string \<Rightarrow> Outcome" where
  "printed text1 = \<lparr>oc_code = 0, oc_out = text1, oc_err = '''', oc_written = ''''\<rparr>"

definition refused :: "string \<Rightarrow> Outcome" where
  "refused err = \<lparr>oc_code = 1, oc_out = '''', oc_err = err, oc_written = ''''\<rparr>"

text \<open>How a response is shown.\<close>

definition showResponse :: "string \<Rightarrow> IpcResponse \<Rightarrow> string \<Rightarrow> Outcome" where
  "showResponse err resp written =
     (if ir_success resp
      then \<lparr>oc_code = 0,
        oc_out = (if ir_data resp \<noteq> '''' then ir_data resp @ [NL]
                  else if ir_message resp \<noteq> '''' then ir_message resp @ [NL] else ''''),
        oc_err = err, oc_written = written\<rparr>
      else \<lparr>oc_code = 1, oc_out = '''', oc_err = err @ ''Error: '' @ ir_message resp @ [NL], oc_written = written\<rparr>)"

text \<open>A direct session, ended by the service's destructor; exceptions of the discovery leave
  \<open>main\<close>.\<close>

definition directSession ::
    "('s, 't) IDeviceService \<Rightarrow> 't Env \<Rightarrow> string \<Rightarrow> string \<Rightarrow> ('s, Outcome) prog" where
  "directSession S E err commandLine =
     (let cmd = parseCommand commandLine in
      bindP (if ic_type cmd = Devices then returnP ''''
             else bindP (is_discoverDevices S) (\<lambda>devs. case devs of
                 [] \<Rightarrow> returnP ''''
               | d # _ \<Rightarrow> catchAny (bindP (is_connect S (dd_address d) (dd_name d)) (\<lambda>_. returnP ''''))
                   (\<lambda>ex. returnP (''Notice: initial connection to '' @ dd_name d @ '' deferred: '' @ exn_what ex @ [NL]))))
        (\<lambda>notice. bindP (ipc_execute S E cmd) (\<lambda>resp.
           bindP (modifyP (is_disconnect S)) (\<lambda>_. returnP (showResponse (err @ notice) resp '''')))))"

definition resetWarning :: string where
  "resetWarning = ''factoryreset wipes the pairing itself; the headphones must be re-paired afterward.''"

definition busyError :: string where
  "busyError = helpText [''Error: sonyd is running and may own the Bluetooth session. Stop sonyd before using --direct.'']"

definition absentError :: "string \<Rightarrow> string" where
  "absentError socket = helpText [''Error: sonyd is not running at '' @ socket,
     ''Start it with `sonyd`, or pass --direct for a one-off direct Bluetooth session.'']"

text \<open>The help that the arguments ask for, if they do.\<close>

definition helpWanted :: "Options \<Rightarrow> string option" where
  "helpWanted opts =
     (let tokens = op_tokens opts in
      if tokens \<noteq> [] \<and> hd tokens = ''help''
      then Some (if 1 < length tokens then commandHelp (tokens ! 1) else generalHelp)
      else if op_help opts then Some (if tokens \<noteq> [] then commandHelp (hd tokens) else generalHelp)
      else if tokens = [] then Some generalHelp
      else None)"

text \<open>The question before a destructive command, and the line to be executed.\<close>

definition askFirst :: "World \<Rightarrow> Options \<Rightarrow> string \<Rightarrow> bool \<times> string" where
  "askFirst W opts typed =
     (if needsConfirmation (parseCommand typed)
      then confirmDestructive resetWarning (op_yes opts) (wo_tty W) else (True, ''''))"

definition confirmedLine :: "string \<Rightarrow> string" where
  "confirmedLine typed =
     (if needsConfirmation (parseCommand typed) then typed @ '' '' @ kConfirmArg else typed)"

text \<open>\<open>main\<close>: an outcome or an escaped exception, and the service; \<open>None\<close> when it does not
  return.\<close>

definition cli_main ::
    "World \<Rightarrow> ('s, 't) IDeviceService \<Rightarrow> 't Env \<Rightarrow> string list \<Rightarrow> 's \<Rightarrow> ((exn + Outcome) \<times> 's) option" where
  "cli_main W S E args s =
     (let opts = parseArgs args (noOptions (wo_defaultSocket W)) in
      case helpWanted opts of
        Some text1 \<Rightarrow> Some (Inr (printed text1), s)
      | None \<Rightarrow>
          let typed = joinTokens (op_tokens opts) in
          (case isDaemonRunning (wo_probe W) (op_socket opts) 200 of
             None \<Rightarrow> None
           | Some daemonRunning \<Rightarrow>
               if op_direct opts \<and> daemonRunning
               then Some (Inr (refused busyError), s)
               else if \<not> op_direct opts \<and> \<not> daemonRunning
               then Some (Inr (refused (absentError (op_socket opts))), s)
               else (case askFirst W opts typed of (yes, err) \<Rightarrow>
                 if \<not> yes then Some (Inr (refused (err @ ''Aborted; nothing was sent.'' @ [NL])), s)
                 else if op_direct opts
                 then Some (directSession S E (err @ ''Using a direct Bluetooth session (--direct).'' @ [NL])
                        (confirmedLine typed) s)
                 else map_option (\<lambda>(resp, w). (Inr (showResponse err resp (cr_written w)), s))
                        (sendCommand (wo_conn W) (op_socket opts) (confirmedLine typed) 15000))))"

section \<open>Confirmed lines\<close>

lemma splitAcc_append_word:
  assumes "list_all (Not \<circ> isspaceC) w" "w \<noteq> ''''"
  shows "splitAcc cur (s @ CHR '' '' # w) = splitAcc cur s @ [w]"
proof (induction cur s rule: splitAcc.induct)
  case (1 cur)
  with splitAcc_word [OF assms(1), of "''''" "''''"] assms(2) show ?case by simp
qed auto

lemma commandType_append:
  "tokens \<noteq> [] \<Longrightarrow> commandType tokens = FactoryReset \<Longrightarrow> commandType (tokens @ extra) = FactoryReset"
  by (auto simp: commandType_def Let_def split: if_splits)

lemma confirmed_line:
  assumes "needsConfirmation (parseCommand typed)"
  shows "mayWipe (parseCommand (confirmedLine typed))"
proof -
  have word: "list_all (Not \<circ> isspaceC) kConfirmArg" "kConfirmArg \<noteq> ''''"
    by (simp_all add: kConfirmArg_def isspaceC_def)
  have tokens: "splitTokens (confirmedLine typed) = splitTokens typed @ [kConfirmArg]"
    using splitAcc_append_word [OF word] assms by (simp add: splitTokens_def confirmedLine_def)
  have "splitTokens typed \<noteq> []" "commandType (splitTokens typed) = FactoryReset"
    using assms by (auto simp: needsConfirmation_def parseCommand_def Let_def split: if_splits)
  moreover have "toLower kConfirmArg = kConfirmArg"
    by (simp add: toLower_def kConfirmArg_def tolowerC_def)
  ultimately show ?thesis
    using commandType_append [of "splitTokens typed" "[kConfirmArg]"]
    by (simp add: mayWipe_def needsConfirmation_def parseCommand_def tokens Let_def)
qed

text \<open>Who agrees to a destructive command.\<close>

definition consents :: "bool \<Rightarrow> Terminal \<Rightarrow> bool" where
  "consents assumeYes tty \<longleftrightarrow> assumeYes \<or>
     (\<exists>answer. tty = Terminal (Some answer) \<and> map tolowerC (trim answer) \<in> {''y'', ''yes''})"

lemma confirm_consents: "fst (confirmDestructive warning assumeYes tty) = consents assumeYes tty"
  by (auto simp: confirmDestructive_def consents_def Let_def split: Terminal.split option.split)

section \<open>A direct session is safe\<close>

context service_laws
begin

lemma directSession_safe:
  "safeP inv sent (if mayWipe (parseCommand line) then sendOk else noWipe) (directSession S E err line)"
proof -
  define ok where "ok = (if mayWipe (parseCommand line) then sendOk else noWipe)"
  have connect: "safeP inv sent ok (is_connect S a n)" for a n
    by (rule emits_mono [OF connect_noWipe]) (use noWipe_sendOk in \<open>auto simp: ok_def\<close>)
  have execute: "safeP inv sent ok (ipc_execute S E (parseCommand line))"
    unfolding ok_def by (rule execute_safe)
  have try_first: "safeP inv sent ok (case devs of [] \<Rightarrow> returnP x
      | d # _ \<Rightarrow> catchAny (bindP (is_connect S (dd_address d) (dd_name d)) (\<lambda>_. returnP x)) (\<lambda>ex. returnP (f d ex)))"
    for devs x and f :: "DiscoveredDevice \<Rightarrow> exn \<Rightarrow> string"
    by (cases devs) (simp_all add: emits_return emits_catchAny emits_bind connect)
  show ?thesis
    unfolding directSession_def Let_def ok_def [symmetric]
    by (auto intro!: emits_bind emits_return discover_safe disconnect_safe execute try_first)
qed

end

section \<open>The client asks first\<close>

text \<open>What the calls of \<open>main\<close> on the socket leave written.\<close>

lemma sendCommand_written:
  assumes "steadySystem C" "ms \<le> 2147483646"
  shows "\<exists>resp w. sendCommand C path line ms = Some (resp, w) \<and> prefix (cr_written w) (line @ [NL])"
proof -
  from ends_request [OF assms] obtain r w where "request C path line ms freshRun = Some (r, w)"
    "cr_polls freshRun \<le> cr_polls w"
    and "case r of
      Inr a \<Rightarrow> before C (ce_start C + ms * 1000000) (cr_polls freshRun) (cr_polls w) \<and>
        cr_written w = line @ [NL] \<and> NL \<notin> set a \<and> prefix (a @ [NL]) (cr_got w) \<and> length a < 262144
    | Inl e \<Rightarrow> before C (ce_start C + ms * 1000000) (cr_polls freshRun) (cr_polls w - 1) \<and>
        prefix (cr_written w) (line @ [NL]) \<and> e = StdException (exn_what e)"
    by (rule endsE)
  then show ?thesis by (auto simp: sendCommand_def split: sum.splits)
qed

lemma isDaemonRunning_returns:
  assumes "steadySystem C" "ms \<le> 2147483646" shows "\<exists>b. isDaemonRunning C path ms = Some b"
proof -
  have "goodDeadline C (ce_start C + ms * 1000000)" using assms by (simp add: goodDeadline_def)
  then have "ends C (ce_start C + ms * 1000000) (connectTo C path (ce_start C + ms * 1000000)) (\<lambda>_ _. True) (\<lambda>_. True) freshRun"
    by (rule ends_connectTo) simp_all
  then have "isDaemonRunning C path ms \<noteq> None" by (auto simp: isDaemonRunning_def elim: endsE)
  then show ?thesis by blast
qed

text \<open>A service that was never used, after a direct session.\<close>

lemma direct_sent:
  "list_all (if mayWipe (parseCommand line) then sendOk else noWipe)
     (sv_sent (snd (directSession (deviceService V) (ve_dev V) err line (newService t))))"
proof -
  have "linkInv (newService t)" "sv_sent (newService t) = []"
    by (simp_all add: newService_def linkInv_def sv_sent_def)
  with svc.directSession_safe [of line V "ve_dev V" err] show ?thesis
    by (fastforce simp: safeP_def)
qed

lemma directSession_quiet: "directSession S E err line s = (Inr oc, s') \<Longrightarrow> oc_written oc = ''''"
  by (auto simp: directSession_def prog_simps showResponse_def Let_def split: sum.splits prod.splits if_splits)

text \<open>The outcomes of \<open>main\<close>: it printed or refused, sent one line to the daemon, or ran one
  direct session.\<close>

lemma main_outcome:
  fixes args :: "string list" and S :: "('s, 't) IDeviceService"
  assumes "steadySystem (wo_probe W)" "steadySystem (wo_conn W)"
  defines "o1 \<equiv> parseArgs args (noOptions (wo_defaultSocket W))"
  defines "typed \<equiv> joinTokens (op_tokens o1)"
  obtains (quiet) oc where "cli_main W S E args s = Some (Inr oc, s)" "oc_written oc = ''''"
  | (daemon) oc where "cli_main W S E args s = Some (Inr oc, s)" "prefix (oc_written oc) (confirmedLine typed @ [NL])"
      "\<not> op_direct o1" "needsConfirmation (parseCommand typed) \<longrightarrow> consents (op_yes o1) (wo_tty W)"
  | (direct) err where "cli_main W S E args s = Some (directSession S E err (confirmedLine typed) s)"
      "op_direct o1" "needsConfirmation (parseCommand typed) \<longrightarrow> consents (op_yes o1) (wo_tty W)"
proof (cases "helpWanted o1")
  case (Some h)
  then have "cli_main W S E args s = Some (Inr (printed h), s)" by (simp add: cli_main_def o1_def)
  then show thesis by (rule quiet) (simp add: printed_def)
next
  case None
  obtain running where run: "isDaemonRunning (wo_probe W) (op_socket o1) 200 = Some running"
    using isDaemonRunning_returns [OF assms(1), of 200 "op_socket o1"] by auto
  obtain resp w where sent: "sendCommand (wo_conn W) (op_socket o1) (confirmedLine typed) 15000 = Some (resp, w)"
    "prefix (cr_written w) (confirmedLine typed @ [NL])"
    using sendCommand_written [OF assms(2), of 15000 "op_socket o1" "confirmedLine typed"] by auto
  obtain yes err where ask: "askFirst W o1 typed = (yes, err)" by fastforce
  then have yes: "yes = (needsConfirmation (parseCommand typed) \<longrightarrow> consents (op_yes o1) (wo_tty W))"
    using confirm_consents [of resetWarning "op_yes o1" "wo_tty W"] by (auto simp: askFirst_def split: if_splits)
  have written: "oc_written (refused e) = ''''" "oc_written (showResponse e p x) = x" for e p x
    by (simp_all add: showResponse_def refused_def)
  note main = cli_main_def [of W S E args s, folded o1_def, unfolded None Let_def, simplified, folded typed_def]
  consider (busy) "op_direct o1 = running" | (no) "op_direct o1 \<noteq> running" "\<not> yes"
    | (own) "op_direct o1" "\<not> running" yes | (other) "\<not> op_direct o1" running yes by blast
  then show thesis
  proof cases
    case busy
    then have "\<exists>e. cli_main W S E args s = Some (Inr (refused e), s)" by (cases running) (auto simp: main run)
    then show thesis using quiet written(1) by blast
  next
    case no
    then have "\<exists>e. cli_main W S E args s = Some (Inr (refused e), s)" by (auto simp: main run ask)
    then show thesis using quiet written(1) by blast
  next
    case own
    then have "\<exists>e. cli_main W S E args s = Some (directSession S E e (confirmedLine typed) s)"
      by (auto simp: main run ask)
    then show thesis using direct own yes by blast
  next
    case other
    then have "cli_main W S E args s = Some (Inr (showResponse err resp (cr_written w)), s)"
      by (simp add: main run ask sent)
    then show thesis by (rule daemon) (use other yes sent written in simp_all)
  qed
qed

text \<open>C0: The command line client asks before it wipes. Whatever the arguments, on a steady
  system \<open>main\<close> ends, and it does one of two things at most: it writes one line to the daemon
  (the words typed, or nothing, or a part of it when the connection fails), or, with \<open>--direct\<close>
  and no daemon running, has the headset to itself. A factory reset that was typed without a
  confirmation gets one appended only when the user passed \<open>--yes\<close> or answered \<open>y\<close> or \<open>yes\<close> on a
  terminal; otherwise nothing is written and no session is opened. And a direct session sends
  a factory reset only for a confirmed one, to a model that allows it.\<close>

theorem cli_asks_first:
  assumes "steadySystem (wo_probe W)" "steadySystem (wo_conn W)"
  shows "\<exists>r s'. cli_main W (deviceService V) (ve_dev V) args (newService t) = Some (r, s') \<and>
    (let o1 = parseArgs args (noOptions (wo_defaultSocket W)); typed = joinTokens (op_tokens o1);
         line = confirmedLine typed; written = (case r of Inr oc \<Rightarrow> oc_written oc | Inl e \<Rightarrow> '''')
     in prefix written (line @ [NL]) \<and> \<not> needsConfirmation (parseCommand line) \<and>
        (if op_direct o1 then written = '''' else s' = newService t) \<and>
        (if needsConfirmation (parseCommand typed) \<and> \<not> consents (op_yes o1) (wo_tty W)
         then written = '''' \<and> s' = newService t else True) \<and>
        list_all (\<lambda>(prof, p). if p = [0xf8, 0x09, 0x01]
            then cap_factoryReset (pf_capabilities prof) \<and> mayWipe (parseCommand line) else True) (sv_sent s'))"
proof -
  let ?o = "parseArgs args (noOptions (wo_defaultSocket W))"
  let ?line = "confirmedLine (joinTokens (op_tokens ?o))"
  have confirmed: "\<not> needsConfirmation (parseCommand ?line)"
    using confirmed_line by (auto simp: mayWipe_def confirmedLine_def)
  have unused: "sv_sent (newService t) = []" by (simp add: newService_def sv_sent_def)
  show ?thesis
  proof (cases rule: main_outcome [OF assms, where args = args and S = "deviceService V" and E = "ve_dev V" and s = "newService t", case_names quiet daemon direct])
    case (quiet oc)
    with confirmed unused show ?thesis by (simp add: Let_def)
  next
    case (daemon oc)
    with confirmed unused show ?thesis by (auto simp: Let_def)
  next
    case (direct err)
    obtain r s' where run: "directSession (deviceService V) (ve_dev V) err ?line (newService t) = (r, s')" by fastforce
    have "list_all (\<lambda>(prof, p). if p = [0xf8, 0x09, 0x01]
        then cap_factoryReset (pf_capabilities prof) \<and> mayWipe (parseCommand ?line) else True) (sv_sent s')"
      using direct_sent [of ?line V err t] unfolding run snd_conv
      by (rule list.pred_mono_strong) (auto simp: noWipe_def sendOk_def split: if_splits)
    moreover have "(case r of Inr oc \<Rightarrow> oc_written oc | Inl e \<Rightarrow> '''') = ''''"
      using directSession_quiet run by (fastforce split: sum.split)
    ultimately show ?thesis using direct confirmed run by (auto simp: Let_def)
  qed
qed

text \<open>In a script, with the daemon at work: an unconfirmed factory reset is refused.\<close>

definition scriptWorld :: World where
  "scriptWorld = \<lparr>wo_defaultSocket = ''/run/sonyd.sock'', wo_probe = promptSystem, wo_conn = promptSystem,
     wo_tty = NoTerminal\<rparr>"

theorem cli_asks_first_witness:
  "\<exists>r. cli_main scriptWorld (deviceService lonelyEnv) (ve_dev lonelyEnv) [''-v'', ''factoryreset''] (newService None) =
      Some (r, newService None) \<and> (case r of Inr oc \<Rightarrow> oc_written oc = '''' | Inl e \<Rightarrow> True)"
proof -
  have steady: "steadySystem (wo_probe scriptWorld)" "steadySystem (wo_conn scriptWorld)"
    by (simp_all add: scriptWorld_def promptSystem_steady)
  have "needsConfirmation (parseCommand (joinTokens (op_tokens
      (parseArgs [''-v'', ''factoryreset''] (noOptions (wo_defaultSocket scriptWorld))))))"
    "\<not> consents (op_yes (parseArgs [''-v'', ''factoryreset''] (noOptions (wo_defaultSocket scriptWorld))))
       (wo_tty scriptWorld)"
    by (code_simp, simp add: consents_def scriptWorld_def helpArg_def socketArg_def verboseArg_def
        directArg_def kConfirmArg_def noOptions_def)
  with cli_asks_first [OF steady, of lonelyEnv "[''-v'', ''factoryreset'']" None] show ?thesis
    by (fastforce simp: Let_def split: sum.splits)
qed

end
