(* ===== verification/Logger.thy ===== *)
theory Logger
  imports ProtocolV2
begin

text \<open>
  \<open>Logger\<close>: the level below which messages are dropped, the sink that may replace the standard
  log stream, and the texts that describe frames and payloads to a developer.

  A sink is known by a number; what it was called with, and the lines on the standard log stream,
  are kept in order. The lemmas compare the descriptions with what \<open>ProtocolV2\<close> reads from the
  same payloads.
\<close>

section \<open>Levels and sinks\<close>

datatype LogLevel = Trace | Debug | Info | Warn | Error | Off

fun levelName :: "LogLevel \<Rightarrow> string" where
  "levelName Trace = ''TRACE''"
| "levelName Debug = ''DEBUG''"
| "levelName Info = ''INFO''"
| "levelName Warn = ''WARN''"
| "levelName Error = ''ERROR''"
| "levelName Off = ''OFF''"

fun levelRank :: "LogLevel \<Rightarrow> nat" where
  "levelRank Trace = 0"
| "levelRank Debug = 1"
| "levelRank Info = 2"
| "levelRank Warn = 3"
| "levelRank Error = 4"
| "levelRank Off = 5"

lemma levelRank_inj: "levelRank a = levelRank b \<Longrightarrow> a = b"
  by (cases a; cases b) simp_all

instantiation LogLevel :: linorder
begin

definition less_eq_LogLevel :: "LogLevel \<Rightarrow> LogLevel \<Rightarrow> bool" where
  "a \<le> b \<longleftrightarrow> levelRank a \<le> levelRank b"

definition less_LogLevel :: "LogLevel \<Rightarrow> LogLevel \<Rightarrow> bool" where
  "a < b \<longleftrightarrow> levelRank a < levelRank b"

instance
  by standard (auto simp: less_eq_LogLevel_def less_LogLevel_def dest: levelRank_inj)

end

type_synonym message = "LogLevel \<times> string \<times> string"

record LoggerState =
  lg_level :: LogLevel
  lg_developerMode :: bool
  lg_customSink :: "nat option"
  lg_calls :: "(nat \<times> message) list"
  lg_clog :: "string list"

definition newLogger :: LoggerState where
  "newLogger = \<lparr>lg_level = Info, lg_developerMode = False, lg_customSink = None, lg_calls = [], lg_clog = []\<rparr>"

definition setLogLevel :: "LogLevel \<Rightarrow> LoggerState \<Rightarrow> LoggerState" where
  "setLogLevel level s = s\<lparr>lg_level := level\<rparr>"

definition setDeveloperMode :: "bool \<Rightarrow> LoggerState \<Rightarrow> LoggerState" where
  "setDeveloperMode enabled s =
     (let s1 = s\<lparr>lg_developerMode := enabled\<rparr> in if enabled then setLogLevel Debug s1 else s1)"

definition setLogSink :: "nat option \<Rightarrow> LoggerState \<Rightarrow> LoggerState" where
  "setLogSink sink s = s\<lparr>lg_customSink := sink\<rparr>"

definition resetLogSink :: "LoggerState \<Rightarrow> LoggerState" where
  "resetLogSink s = s\<lparr>lg_customSink := None\<rparr>"

definition log :: "LogLevel \<Rightarrow> string \<Rightarrow> string \<Rightarrow> LoggerState \<Rightarrow> LoggerState" where
  "log level category message s =
     (if level < lg_level s then s
      else case lg_customSink s of
        Some sink \<Rightarrow> s\<lparr>lg_calls := lg_calls s @ [(sink, level, category, message)]\<rparr>
      | None \<Rightarrow> s\<lparr>lg_clog := lg_clog s @
          [''['' @ levelName level @ ''] ['' @ category @ ''] '' @ message @ [CHR 0x0A]]\<rparr>)"

section \<open>Texts\<close>

definition hexDigit :: "nat \<Rightarrow> char" where
  "hexDigit n = ''0123456789abcdef'' ! n"

definition hexByte :: "u8 \<Rightarrow> string" where
  "hexByte b = [hexDigit (unat b div 16), hexDigit (unat b mod 16)]"

definition formatHex :: "u8 list \<Rightarrow> nat \<Rightarrow> string" where
  "formatHex bytes maxBytes =
     (if bytes = [] then ''''
      else let count = min (length bytes) maxBytes in
        concat (map (\<lambda>i. (if 0 < i then '' '' else '''') @ hexByte (bytes ! i)) [0..<count]) @
        (if maxBytes < length bytes then '' ...'' else ''''))"

definition byteText :: "u8 \<Rightarrow> string" where
  "byteText b = to_string_int (intOf b)"

definition describePayload :: "u8 list \<Rightarrow> string" where
  "describePayload p =
     (if p = [] then ''''
      else let opcode = p ! 0; n = length p in
        if opcode = 0x22 then ''BATTERY_GET''
        else if opcode = 0x23 then
          (if 4 \<le> n \<and> p ! 1 = 0x00 then ''BATTERY_RET level='' @ byteText (p ! 2)
           else if 6 \<le> n \<and> p ! 1 = 0x09 then ''BATTERY_RET L='' @ byteText (p ! 2) @ '' R='' @ byteText (p ! 4)
           else if 4 \<le> n \<and> p ! 1 = 0x0a then ''BATTERY_RET Case='' @ byteText (p ! 2)
           else ''BATTERY_RET'')
        else if opcode = 0x25 then
          (if 4 \<le> n \<and> p ! 1 = 0x00 then ''BATTERY_NTFY level='' @ byteText (p ! 2) else ''BATTERY_NTFY'')
        else if opcode = 0x56 then ''EQ_GET''
        else if opcode = 0x57 then ''EQ_RET'' @ (if 3 \<le> n then '' preset='' @ byteText (p ! 2) else '''')
        else if opcode = 0x58 then ''EQ_SET'' @ (if 3 \<le> n then '' preset='' @ byteText (p ! 2) else '''')
        else if opcode = 0x66 then ''NCASM_GET''
        else if opcode = 0x67 then
          (if 7 \<le> n \<and> p ! 1 = 0x17 then
             (let on = p ! 3 \<noteq> 0; ambient = p ! 4 \<noteq> 0; level = byteText (p ! 6) in
              if \<not> on then ''NCASM_RET mode=Off''
              else if ambient then ''NCASM_RET mode=Ambient level='' @ level
              else ''NCASM_RET mode=NoiseCancelling'')
           else ''NCASM_RET'')
        else if opcode = 0x68 then
          (if 5 \<le> n
           then if p ! 2 = 0x01 then ''NCASM_SET mode=Ambient level='' @ byteText (p ! 4)
                else ''NCASM_SET mode=NoiseCancelling''
           else ''NCASM_SET'')
        else if opcode = 0xe6 then ''DSEE_GET''
        else if opcode = 0xe7 then
          (if 3 \<le> n \<and> p ! 2 \<noteq> 0 then ''DSEE_RET enabled=1'' else ''DSEE_RET enabled=0'')
        else if opcode = 0xe8 then
          (if 3 \<le> n \<and> p ! 2 \<noteq> 0 then ''DSEE_SET enabled=1'' else ''DSEE_SET enabled=0'')
        else '''')"

definition frameMessage :: "string \<Rightarrow> u8 list \<Rightarrow> string \<Rightarrow> string" where
  "frameMessage direction frameBytes semanticDesc =
     direction @ formatHex frameBytes 32 @
     (if semanticDesc \<noteq> '''' then CHR 0x0A # semanticDesc else '''')"

definition logTx :: "u8 list \<Rightarrow> string \<Rightarrow> LoggerState \<Rightarrow> LoggerState" where
  "logTx frameBytes desc = log Debug ''sony.session'' (frameMessage ''TX  '' frameBytes desc)"

definition logRx :: "u8 list \<Rightarrow> string \<Rightarrow> LoggerState \<Rightarrow> LoggerState" where
  "logRx frameBytes desc = log Debug ''sony.session'' (frameMessage ''RX  '' frameBytes desc)"

section \<open>What a line of bytes says\<close>

fun hexBytes :: "u8 list \<Rightarrow> string" where
  "hexBytes [] = ''''"
| "hexBytes (b # bs) = hexByte b @ (if bs = [] then '''' else '' '' @ hexBytes bs)"

lemma hexBytes_snoc: "hexBytes (bs @ [b]) = hexBytes bs @ (if bs = [] then '''' else '' '') @ hexByte b"
  by (induction bs) auto

lemma formatHex_take: "formatHex bs n = hexBytes (take n bs) @ (if n < length bs then '' ...'' else '''')"
proof -
  have "concat (map (\<lambda>i. (if 0 < i then '' '' else '''') @ hexByte (bs ! i)) [0..<k]) = hexBytes (take k bs)"
    if "k \<le> length bs" for k
    using that
  proof (induction k)
    case (Suc k)
    then have "take (Suc k) bs = take k bs @ [bs ! k]" by (simp add: take_Suc_conv_app_nth)
    with Suc show ?case by (cases k) (auto simp: hexBytes_snoc)
  qed simp
  from this [of "min (length bs) n"] show ?thesis
    by (cases "bs = []") (simp_all add: formatHex_def min_def)
qed

lemma hexDigit_inj: "m < 16 \<Longrightarrow> n < 16 \<Longrightarrow> hexDigit m = hexDigit n \<Longrightarrow> m = n"
proof -
  have "distinct ''0123456789abcdef''" by simp
  then show "m < 16 \<Longrightarrow> n < 16 \<Longrightarrow> hexDigit m = hexDigit n \<Longrightarrow> m = n"
    unfolding hexDigit_def by (subst (asm) nth_eq_iff_index_eq) simp_all
qed

lemma hexDigit_plain: "n < 16 \<Longrightarrow> hexDigit n \<noteq> CHR '' '' \<and> hexDigit n \<noteq> CHR ''.'' \<and> hexDigit n \<noteq> CHR 0x0A"
proof -
  assume "n < 16"
  then have "hexDigit n \<in> set ''0123456789abcdef''" unfolding hexDigit_def by (intro nth_mem) simp
  then show ?thesis by auto
qed

lemma hexByte_inj [simp]: "hexByte a = hexByte b \<longleftrightarrow> a = b"
proof
  assume "hexByte a = hexByte b"
  moreover have "unat c < 256" for c :: u8 using unsigned_less [of c, where 'a = nat] by simp
  ultimately have "unat a div 16 = unat b div 16" "unat a mod 16 = unat b mod 16"
    unfolding hexByte_def by (auto intro!: hexDigit_inj simp: less_mult_imp_div_less)
  then have "unat a = unat b" by (metis div_mult_mod_eq)
  then show "a = b" by (simp add: word_unat_eq_iff)
qed simp

lemma length_hexByte [simp]: "length (hexByte b) = 2"
  by (simp add: hexByte_def)

lemma hexByte_digits: "c \<in> set (hexByte b) \<Longrightarrow> c \<noteq> CHR '' '' \<and> c \<noteq> CHR ''.'' \<and> c \<noteq> CHR 0x0A"
proof -
  have "unat b < 256" using unsigned_less [of b, where 'a = nat] by simp
  then show "c \<in> set (hexByte b) \<Longrightarrow> c \<noteq> CHR '' '' \<and> c \<noteq> CHR ''.'' \<and> c \<noteq> CHR 0x0A"
    unfolding hexByte_def using hexDigit_plain [of "unat b div 16"] hexDigit_plain [of "unat b mod 16"]
    by (auto simp: less_mult_imp_div_less)
qed

lemma hexByte_step: "hexByte a @ s = hexByte b @ t \<longleftrightarrow> a = b \<and> s = t"
  by (metis append_eq_append_conv hexByte_inj length_hexByte)

definition mark :: "bool \<Rightarrow> string" where
  "mark b = (if b then '' ...'' else '''')"

lemma hexByte_first: "hexByte b @ s \<noteq> mark m" "mark m \<noteq> hexByte b @ s"
  using hexByte_digits [of "hd (hexByte b)" b] by (auto simp: mark_def hexByte_def)

lemma mark_first: "mark m \<noteq> '' '' @ hexBytes (b # bs) @ t" "'' '' @ hexBytes (b # bs) @ t \<noteq> mark m"
  using hexByte_digits [of "hd (hexByte b)" b] by (auto simp: mark_def hexByte_def)

lemma hexBytes_inj: "hexBytes xs @ mark m = hexBytes ys @ mark n \<longleftrightarrow> xs = ys \<and> m = n"
proof (induction xs ys rule: list_induct2')
  case 1
  show ?case by (simp add: mark_def)
next
  case (4 x xs y ys)
  have "hexBytes (x # xs) @ mark m = hexBytes (y # ys) @ mark n \<longleftrightarrow>
      x = y \<and> (if xs = [] then '''' else '' '' @ hexBytes xs) @ mark m =
        (if ys = [] then '''' else '' '' @ hexBytes ys) @ mark n"
    by (simp only: hexBytes.simps append_assoc hexByte_step)
  also have "\<dots> \<longleftrightarrow> x = y \<and> xs = ys \<and> m = n"
    using 4 mark_first by (cases xs; cases ys) (simp_all add: mark_def del: hexBytes.simps split: if_splits)
  finally show ?case by simp
qed (simp_all add: hexByte_first)

lemma hexBytes_line: "CHR 0x0A \<notin> set (hexBytes bs)"
  using hexByte_digits by (induction bs) auto

lemma formatHex_line: "CHR 0x0A \<notin> set (formatHex bs n)"
  using hexBytes_line by (simp add: formatHex_take)

lemma formatHex_inj:
  "formatHex bs n = formatHex bs' n \<longleftrightarrow> take n bs = take n bs' \<and> (n < length bs \<longleftrightarrow> n < length bs')"
  using hexBytes_inj [of "take n bs" "n < length bs" "take n bs'" "n < length bs'"]
  by (simp add: formatHex_take mark_def)

lemma split_line:
  "NL \<notin> set a \<Longrightarrow> NL \<notin> set b \<Longrightarrow> a @ (if x = [] then [] else NL # x) = b @ (if y = [] then [] else NL # y)
    \<longleftrightarrow> a = b \<and> x = y"
proof (induction a arbitrary: b)
  case Nil
  then show ?case by (cases b) auto
next
  case (Cons c a)
  then show ?case by (cases b) auto
qed

lemma frameMessage_inj:
  "frameMessage dir bs d = frameMessage dir bs' d' \<longleftrightarrow>
     take 32 bs = take 32 bs' \<and> (32 < length bs \<longleftrightarrow> 32 < length bs') \<and> d = d'"
  using split_line [OF formatHex_line formatHex_line, of bs 32 d bs' 32 d'] formatHex_inj [of bs 32 bs']
  by (simp add: frameMessage_def split: if_splits)

lemma log_inj:
  "\<not> level < lg_level s \<Longrightarrow> log level c m s = log level c m' s \<longleftrightarrow> m = m'"
  by (auto simp: log_def LoggerState.defs split: option.split dest: arg_cong [of _ _ lg_calls] arg_cong [of _ _ lg_clog])

text \<open>A developer's log can be trusted. Below the level for debugging nothing is logged of a
  frame; at it, two log lines of sent frames are the same just when the descriptions, the first
  32 bytes and whether there were more agree, and the same holds of received ones; a line for a
  sent frame is never one for a received frame.\<close>

theorem frame_log_faithful:
  "if Debug < lg_level s then logTx bs d s = s \<and> logRx bs d s = s
   else (logTx bs d s = logTx bs' d' s \<longleftrightarrow>
       take 32 bs = take 32 bs' \<and> (32 < length bs \<longleftrightarrow> 32 < length bs') \<and> d = d') \<and>
     (logRx bs d s = logRx bs' d' s \<longleftrightarrow>
       take 32 bs = take 32 bs' \<and> (32 < length bs \<longleftrightarrow> 32 < length bs') \<and> d = d') \<and>
     logTx bs d s \<noteq> logRx bs' d' s"
proof (cases "Debug < lg_level s")
  case True
  then show ?thesis by (simp add: logTx_def logRx_def log_def)
next
  case False
  have "frameMessage ''TX  '' bs d \<noteq> frameMessage ''RX  '' bs' d'" by (simp add: frameMessage_def)
  with False show ?thesis by (simp add: logTx_def logRx_def log_inj frameMessage_inj)
qed

section \<open>What a sequence of messages leaves\<close>

definition logAll :: "message list \<Rightarrow> LoggerState \<Rightarrow> LoggerState" where
  "logAll = fold (\<lambda>(l, c, m). log l c m)"

lemma log_fields [simp]:
  "lg_level (log l c m s) = lg_level s" "lg_customSink (log l c m s) = lg_customSink s"
  by (simp_all add: log_def split: option.split)

lemma log_calls:
  "lg_calls (log l c m s) = lg_calls s @
     (case lg_customSink s of Some k \<Rightarrow> if lg_level s \<le> l then [(k, l, c, m)] else [] | None \<Rightarrow> [])"
  by (simp add: log_def not_less split: option.split)

lemma log_clog:
  "length (lg_clog (log l c m s)) = length (lg_clog s) +
     (if lg_customSink s = None \<and> lg_level s \<le> l then 1 else 0)"
  "lg_customSink s \<noteq> None \<Longrightarrow> lg_clog (log l c m s) = lg_clog s"
  by (auto simp: log_def not_less not_le split: option.split)

text \<open>Exactly the messages at the level or above come through, once each and in order: to the sink
  while there is one, and otherwise one line each to the standard log stream.\<close>

lemma log_filters:
  "let kept = filter (\<lambda>(l, c, m). lg_level s \<le> l) ms in
   (case lg_customSink s of
      Some k \<Rightarrow> lg_calls (logAll ms s) = lg_calls s @ map (Pair k) kept \<and> lg_clog (logAll ms s) = lg_clog s
    | None \<Rightarrow> lg_calls (logAll ms s) = lg_calls s \<and>
        length (lg_clog (logAll ms s)) = length (lg_clog s) + length kept)"
proof (induction ms arbitrary: s)
  case (Cons lcm ms)
  obtain l c m where lcm: "lcm = (l, c, m)" by (cases lcm)
  show ?case
    using Cons.IH [of "log l c m s"]
    by (cases "lg_customSink s") (simp_all add: lcm logAll_def Let_def log_calls log_clog)
qed (simp add: logAll_def split: option.split)

section \<open>Descriptions and decoders\<close>

text \<open>What is said of an answer is what the protocol reads from it.\<close>

definition modeText :: "NoiseControlState \<Rightarrow> string" where
  "modeText st = (case nc_mode st of
      ModeOff \<Rightarrow> ''Off'' | NoiseCancelling \<Rightarrow> ''NoiseCancelling''
    | Ambient \<Rightarrow> ''Ambient level='' @ to_string_int (nc_ambientLevel st))"

lemma answers_described:
  "7 \<le> length p \<Longrightarrow> p ! 0 = 0x67 \<Longrightarrow> p ! 1 = 0x17 \<Longrightarrow>
     describePayload p = ''NCASM_RET mode='' @ modeText (v2_decodeNoise p)"
  "4 \<le> length p \<Longrightarrow> p ! 0 = 0x23 \<Longrightarrow> p ! 1 = 0x00 \<Longrightarrow> v2_singleBattery p = Some b \<Longrightarrow>
     describePayload p = ''BATTERY_RET level='' @ to_string_int (the (bt_main b))"
  "6 \<le> length p \<Longrightarrow> p ! 0 = 0x23 \<Longrightarrow> p ! 1 = 0x09 \<Longrightarrow>
     describePayload p = ''BATTERY_RET L='' @ to_string_int (the (bt_left (v2_dualBattery p))) @
       '' R='' @ to_string_int (the (bt_right (v2_dualBattery p)))"
  "10 \<le> length p \<Longrightarrow> p ! 0 = 0x57 \<Longrightarrow>
     describePayload p = ''EQ_RET preset='' @ to_string_int (eq_preset (decodeEqBands p))"
  by (cases p; auto simp: describePayload_def modeText_def v2_decodeNoise_def byteText_def Let_def
      v2_singleBattery_def v2_dualBattery_def decodeEqBands_def split: if_splits)+

text \<open>But what is said of a noise-control setting is not what it sets: the third byte, a constant of
  the command, is taken for the mode, and the mode for the level.\<close>

lemma setting_misdescribed:
  "describePayload (v2_noisePayload st) =
     ''NCASM_SET mode=Ambient level='' @ (if nc_mode st = Ambient then ''1'' else ''0'')"
proof -
  have "to_string_int 0 = ''0''" "to_string_int 1 = ''1''" by code_simp+
  then show ?thesis by (simp add: describePayload_def v2_noisePayload_def Let_def byteText_def intOf_def)
qed

end
