(* ===== verification/Sonyd.thy ===== *)
theory Sonyd
  imports CommandLine ServerLifecycle Logger
begin

text \<open>
  \<open>main\<close> of sonyd.cpp: the arguments, the log level, the server's start, and the loop that waits for a
  signal or for the server to stop. \<open>signalled k\<close> says whether a signal had arrived when the loop looked for
  the \<open>k\<close>th time. The loop may run for ever: then the result is \<open>None\<close>. What the server does meanwhile is
  in \<open>Daemon\<close>.
\<close>

record DaemonOutcome =
  do_code :: int
  do_out :: "string list"
  do_err :: "string list"
  do_endpoint :: Endpoint
  do_logger :: LoggerState

partial_function (option) serveUntilStopped :: "(nat \<Rightarrow> bool) \<Rightarrow> nat \<Rightarrow> Endpoint \<Rightarrow> nat option" where
  "serveUntilStopped signalled k e =
     (if \<not> signalled k \<and> ep_running e then serveUntilStopped signalled (k + 1) e else Some k)"

definition verboseLogging :: "bool \<Rightarrow> LoggerState \<Rightarrow> LoggerState" where
  "verboseLogging verbose lg = (if verbose then setDeveloperMode True (setLogLevel Debug lg) else lg)"

definition sonyd_main ::
    "StartAnswers \<Rightarrow> string \<Rightarrow> (nat \<Rightarrow> bool) \<Rightarrow> string list \<Rightarrow> LoggerState \<Rightarrow> DaemonOutcome option" where
  "sonyd_main A socket signalled args lg =
     (case sonydArgs args socket False of
        PrintHelp \<Rightarrow> Some \<lparr>do_code = 0, do_out = [sonydHelp], do_err = [], do_endpoint = newEndpoint, do_logger = lg\<rparr>
      | UnknownArgument arg \<Rightarrow> Some \<lparr>do_code = 1, do_out = [], do_err = [''Unknown argument: '' @ arg @ [NL]],
          do_endpoint = newEndpoint, do_logger = lg\<rparr>
      | RunDaemon path verbose \<Rightarrow>
          let lg1 = verboseLogging verbose lg in
          (case server_start A path newEndpoint of
             (Inl ex, e) \<Rightarrow> Some \<lparr>do_code = 1, do_out = [],
               do_err = [''Error: failed to start sonyd: '' @ exn_what ex @ [NL]], do_endpoint = e, do_logger = lg1\<rparr>
           | (Inr _, e) \<Rightarrow>
               map_option (\<lambda>_. \<lparr>do_code = 0, do_out = [''sonyd listening on '' @ path @ '' (Ctrl+C to stop)'' @ [NL]],
                 do_err = [], do_endpoint = server_stop A e, do_logger = lg1\<rparr>) (serveUntilStopped signalled 0 e)))"

section \<open>The loop\<close>

lemma serve_returns:
  "signalled (k + n) \<Longrightarrow> \<exists>m. serveUntilStopped signalled k e = Some m"
proof (induction n arbitrary: k)
  case 0
  then show ?case by (subst serveUntilStopped.simps) simp
next
  case (Suc n)
  then show ?case using Suc.IH [of "k + 1"] by (subst serveUntilStopped.simps) simp
qed

lemma serve_stopped: "serveUntilStopped signalled k e = Some m \<Longrightarrow> ep_running e \<Longrightarrow> signalled m"
  by (induction rule: serveUntilStopped.raw_induct [rotated, consumes 1]) (auto split: if_splits)

lemma serve_never: "ep_running e \<Longrightarrow> serveUntilStopped signalled 0 e = None \<longleftrightarrow> (\<forall>k. \<not> signalled k)"
  using serve_returns [of signalled 0 _ e] serve_stopped [of signalled 0 e]
  by (cases "serveUntilStopped signalled 0 e") fastforce+

section \<open>What is left behind\<close>

definition released :: "Endpoint \<Rightarrow> bool" where
  "released e \<longleftrightarrow> \<not> ep_running e \<and> \<not> ep_lockFd e \<and> \<not> ep_listenFd e \<and> ep_inode e = 0"

lemma released_stop: "released (server_stop A e)"
  by (simp add: released_def server_stop_def Let_def)

lemma start_outcome:
  "case server_start A path newEndpoint of (Inr _, e) \<Rightarrow> ep_running e | (Inl ex, e) \<Rightarrow> released e"
proof (cases "startBody A path newEndpoint")
  case (Pair r e)
  have idle: "\<not> ep_running newEndpoint" by (simp add: newEndpoint_def)
  show ?thesis
    using Pair idle startBody_success [of A path _ e] released_stop
    by (cases r) (auto simp: server_start_def prog_simps)
qed


end
