(* ===== verification/Connector.thy ===== *)
theory Connector
  imports Transport DeviceProfile
begin

text \<open>
  \<open>IBluetoothConnector\<close>, the older interface that the platform code implements, and the two
  adapters between it and \<open>ITransport\<close>: \<open>BluetoothConnectorTransport\<close>, through which the
  daemon uses the platform's Bluetooth, and \<open>TransportBluetoothConnector\<close>, through which the
  older client classes use a transport. Also the filter of the platform's discovery.

  A connector reports errors as \<open>RecoverableException\<close>s, with a flag that says whether the link
  is lost. \<open>recv\<close> gives the bytes it read; none stands for a result of 0 or less.
\<close>

section \<open>Connectors\<close>

datatype connExn = Recoverable string bool | Plain exn

fun conn_what :: "connExn \<Rightarrow> string" where
  "conn_what (Recoverable w b) = w"
| "conn_what (Plain e) = exn_what e"

type_synonym ('c, 'a) conn = "'c \<Rightarrow> (connExn + 'a) \<times> 'c"

record BluetoothDevice =
  bd_name :: string
  bd_mac :: string
  bd_paired :: "bool option"
  bd_connected :: "bool option"

record 'c IBluetoothConnector =
  bc_send :: "u8 list \<Rightarrow> ('c, int) conn"
  bc_recv :: "nat \<Rightarrow> ('c, u8 list) conn"
  bc_connect :: "string \<Rightarrow> ('c, unit) conn"
  bc_disconnect :: "'c \<Rightarrow> 'c"
  bc_isConnected :: "'c \<Rightarrow> bool"
  bc_getConnectedDevices :: "('c, BluetoothDevice list) conn"
  bc_getProtocolVersion :: "'c \<Rightarrow> SonyProtocolVersion"

text \<open>What the adapters rely on.\<close>

locale connector_laws =
  fixes C :: "'c IBluetoothConnector"
  assumes connect_connects: "bc_connect C a c = (Inr (), c') \<Longrightarrow> bc_isConnected C c'"
    and disconnect_disconnects: "\<not> bc_isConnected C (bc_disconnect C c)"
    and send_bound: "bc_send C bs c = (Inr n, c') \<Longrightarrow> n \<le> int (length bs)"
    and recv_bound: "bc_recv C cap c = (Inr bs, c') \<Longrightarrow> length bs \<le> cap"

section \<open>A connector as a transport\<close>

text \<open>The connector may be null. How the exceptions of \<open>send\<close> and \<open>receive\<close> are passed on;
  \<open>Timeout\<close> only where waiting on makes sense.\<close>

fun sendError :: "connExn \<Rightarrow> exn" where
  "sendError (Plain (SonyException code w)) = SonyException code w"
| "sendError (Plain (StdException w)) = SonyException TransportFailure w"
| "sendError (Recoverable w shouldDisconnect) =
     SonyException (if shouldDisconnect then Disconnected else TransportFailure) w"

fun receiveError :: "connExn \<Rightarrow> exn" where
  "receiveError (Plain (SonyException code w)) = SonyException code w"
| "receiveError (Plain (StdException w)) = SonyException TransportFailure w"
| "receiveError (Recoverable w shouldDisconnect) =
     SonyException (if shouldDisconnect then Disconnected else Timeout) w"

definition ct_connect :: "'c IBluetoothConnector \<Rightarrow> string \<Rightarrow> ('c option, unit) prog" where
  "ct_connect C address t = (case t of
      None \<Rightarrow> throwP TransportFailure ''No underlying connector configured'' t
    | Some c \<Rightarrow> (case bc_connect C address c of
          (Inl e, c') \<Rightarrow> throwP TransportFailure (conn_what e) (Some c')
        | (Inr _, c') \<Rightarrow> (Inr (), Some c')))"

definition ct_isConnected :: "'c IBluetoothConnector \<Rightarrow> 'c option \<Rightarrow> bool" where
  "ct_isConnected C t = (case t of None \<Rightarrow> False | Some c \<Rightarrow> bc_isConnected C c)"

definition ct_send :: "'c IBluetoothConnector \<Rightarrow> u8 list \<Rightarrow> ('c option, nat) prog" where
  "ct_send C data t = (case t of
      None \<Rightarrow> throwP Disconnected ''Transport not connected'' t
    | Some c \<Rightarrow>
        if \<not> bc_isConnected C c then throwP Disconnected ''Transport not connected'' t
        else (case bc_send C data c of
          (Inl e, c') \<Rightarrow> (Inl (sendError e), Some c')
        | (Inr sent, c') \<Rightarrow>
            if sent < 0 then throwP TransportFailure ''Failed to send data'' (Some c')
            else (Inr (nat sent), Some c')))"

definition ct_receive :: "'c IBluetoothConnector \<Rightarrow> nat \<Rightarrow> ('c option, u8 list) prog" where
  "ct_receive C cap t = (case t of
      None \<Rightarrow> throwP Disconnected ''Transport not connected'' t
    | Some c \<Rightarrow>
        if \<not> bc_isConnected C c then throwP Disconnected ''Transport not connected'' t
        else (case bc_recv C cap c of
          (Inl e, c') \<Rightarrow> (Inl (receiveError e), Some c')
        | (Inr bytes, c') \<Rightarrow>
            if bytes = [] then throwP Disconnected ''Transport closed or receive error'' (Some c')
            else (Inr bytes, Some c')))"

definition connectorTransport :: "'c IBluetoothConnector \<Rightarrow> ('c option) ITransport" where
  "connectorTransport C =
     \<lparr>t_connect = ct_connect C, t_disconnect = map_option (bc_disconnect C),
      t_isConnected = ct_isConnected C, t_send = ct_send C, t_receive = ct_receive C\<rparr>"

text \<open>\<open>BluetoothConnectorDiscovery::discover\<close>.\<close>

definition connectorDiscover :: "'c IBluetoothConnector \<Rightarrow> ('c option, FoundDevice list) conn" where
  "connectorDiscover C t = (case t of
      None \<Rightarrow> (Inr [], t)
    | Some c \<Rightarrow> (case bc_getConnectedDevices C c of
          (Inl e, c') \<Rightarrow> (Inl e, Some c')
        | (Inr ds, c') \<Rightarrow> (Inr (map (\<lambda>d. \<lparr>fd_name = bd_name d, fd_address = bd_mac d,
              fd_paired = bd_paired d, fd_connected = bd_connected d\<rparr>) ds), Some c')))"

section \<open>A transport as a connector\<close>

text \<open>\<open>TransportBluetoothConnector\<close>: its members, any of which may be null.\<close>

record ('t, 'd) ConnectorState =
  cn_transport :: "'t option"
  cn_discovery :: "'d option"
  cn_version :: SonyProtocolVersion

definition toRecoverable :: "exn \<Rightarrow> connExn" where
  "toRecoverable e = (case e of
      SonyException code w \<Rightarrow> Recoverable w (code = Disconnected)
    | StdException w \<Rightarrow> Recoverable w True)"

definition onTransport :: "('t, 'a) prog \<Rightarrow> (exn \<Rightarrow> connExn) \<Rightarrow> (('t, 'd) ConnectorState, 'a) conn" where
  "onTransport m err s = (case cn_transport s of
      None \<Rightarrow> (Inl (Recoverable ''Transport is null'' True), s)
    | Some t \<Rightarrow> (case m t of
          (Inl e, t') \<Rightarrow> (Inl (err e), s\<lparr>cn_transport := Some t'\<rparr>)
        | (Inr x, t') \<Rightarrow> (Inr x, s\<lparr>cn_transport := Some t'\<rparr>)))"

definition tc_send :: "'t ITransport \<Rightarrow> u8 list \<Rightarrow> (('t, 'd) ConnectorState, int) conn" where
  "tc_send T bs = onTransport (bindP (t_send T bs) (\<lambda>n. returnP (int n))) toRecoverable"

definition tc_recv :: "'t ITransport \<Rightarrow> nat \<Rightarrow> (('t, 'd) ConnectorState, u8 list) conn" where
  "tc_recv T cap = onTransport (t_receive T cap) toRecoverable"

definition tc_connect :: "'t ITransport \<Rightarrow> string \<Rightarrow> (('t, 'd) ConnectorState, unit) conn" where
  "tc_connect T address = onTransport (t_connect T address) (\<lambda>e. Recoverable (exn_what e) True)"

definition tc_disconnect :: "'t ITransport \<Rightarrow> ('t, 'd) ConnectorState \<Rightarrow> ('t, 'd) ConnectorState" where
  "tc_disconnect T s = s\<lparr>cn_transport := map_option (t_disconnect T) (cn_transport s)\<rparr>"

definition tc_isConnected :: "'t ITransport \<Rightarrow> ('t, 'd) ConnectorState \<Rightarrow> bool" where
  "tc_isConnected T s = (case cn_transport s of None \<Rightarrow> False | Some t \<Rightarrow> t_isConnected T t)"

text \<open>\<open>discover\<close> is the operation of the discovery.\<close>

definition tc_getConnectedDevices ::
    "('d, FoundDevice list) prog \<Rightarrow> (('t, 'd) ConnectorState, BluetoothDevice list) conn" where
  "tc_getConnectedDevices discover s = (case cn_discovery s of
      None \<Rightarrow> (Inr [], s)
    | Some d \<Rightarrow> (case discover d of
          (Inl e, d') \<Rightarrow> (Inl (Plain e), s\<lparr>cn_discovery := Some d'\<rparr>)
        | (Inr ds, d') \<Rightarrow> (Inr (map (\<lambda>d. \<lparr>bd_name = fd_name d, bd_mac = fd_address d,
              bd_paired = None, bd_connected = None\<rparr>) ds), s\<lparr>cn_discovery := Some d'\<rparr>)))"

definition setProtocolVersion :: "SonyProtocolVersion \<Rightarrow> ('t, 'd) ConnectorState \<Rightarrow> ('t, 'd) ConnectorState" where
  "setProtocolVersion v s = s\<lparr>cn_version := v\<rparr>"

definition transportConnector ::
    "'t ITransport \<Rightarrow> ('d, FoundDevice list) prog \<Rightarrow> ('t, 'd) ConnectorState IBluetoothConnector" where
  "transportConnector T discover =
     \<lparr>bc_send = tc_send T, bc_recv = tc_recv T, bc_connect = tc_connect T, bc_disconnect = tc_disconnect T,
      bc_isConnected = tc_isConnected T, bc_getConnectedDevices = tc_getConnectedDevices discover,
      bc_getProtocolVersion = cn_version\<rparr>"

section \<open>The platform's discovery\<close>

text \<open>\<open>LinuxPlatformDiscovery::discover\<close>: the devices of a fresh connector whose name looks like
  one of Sony's; none when the connector throws.\<close>

definition sonyNames :: "string list" where
  "sonyNames = [''WH-'', ''WF-'', ''WI-'', ''MDR-'', ''LINKBUDS'', ''ULT WEAR'', ''SONY'']"

definition isSony :: "string \<Rightarrow> bool" where
  "isSony name = list_ex (\<lambda>p. containsStr p (toUpper name)) sonyNames"

definition platformDiscover :: "'x + BluetoothDevice list \<Rightarrow> FoundDevice list" where
  "platformDiscover answer = (case answer of
      Inl e \<Rightarrow> []
    | Inr ds \<Rightarrow> map (\<lambda>d. \<lparr>fd_name = bd_name d, fd_address = bd_mac d,
        fd_paired = bd_paired d, fd_connected = bd_connected d\<rparr>) (filter (isSony \<circ> bd_name) ds))"

section \<open>The adapters keep the contracts\<close>

lemma connectorTransport_simps [simp]:
  "t_connect (connectorTransport C) = ct_connect C" "t_disconnect (connectorTransport C) = map_option (bc_disconnect C)"
  "t_isConnected (connectorTransport C) = ct_isConnected C" "t_send (connectorTransport C) = ct_send C"
  "t_receive (connectorTransport C) = ct_receive C"
  by (simp_all add: connectorTransport_def)

lemma transportConnector_simps [simp]:
  "bc_send (transportConnector T discover) = tc_send T" "bc_recv (transportConnector T discover) = tc_recv T"
  "bc_connect (transportConnector T discover) = tc_connect T"
  "bc_disconnect (transportConnector T discover) = tc_disconnect T"
  "bc_isConnected (transportConnector T discover) = tc_isConnected T"
  by (simp_all add: transportConnector_def)

context connector_laws
begin

lemma transport: "transport_laws (connectorTransport C)"
proof
  fix a t t'
  assume "t_connect (connectorTransport C) a t = (Inr (), t')"
  then show "t_isConnected (connectorTransport C) t'"
    by (auto simp: ct_connect_def ct_isConnected_def dest: connect_connects split: option.splits sum.splits prod.splits)
next
  fix t
  show "\<not> t_isConnected (connectorTransport C) (t_disconnect (connectorTransport C) t)"
    by (simp add: ct_isConnected_def disconnect_disconnects option.map_comp split: option.split)
next
  fix bs t n t'
  assume "t_send (connectorTransport C) bs t = (Inr n, t')"
  then show "n \<le> length bs"
    by (auto simp: ct_send_def dest!: send_bound split: option.splits sum.splits prod.splits if_splits)
next
  fix cap t bs t'
  assume "t_receive (connectorTransport C) cap t = (Inr bs, t')"
  then show "length bs \<le> cap"
    by (auto simp: ct_receive_def dest!: recv_bound split: option.splits sum.splits prod.splits if_splits)
qed

end

sublocale connector_laws \<subseteq> as_transport: transport_laws "connectorTransport C"
  by (rule transport)


context transport_laws
begin

lemma connector: "connector_laws (transportConnector T discover)"
proof
  fix a s s'
  assume "bc_connect (transportConnector T discover) a s = (Inr (), s')"
  then show "bc_isConnected (transportConnector T discover) s'"
    by (auto simp: tc_connect_def onTransport_def tc_isConnected_def dest: connect_connects
        split: option.splits sum.splits prod.splits)
next
  fix s
  show "\<not> bc_isConnected (transportConnector T discover) (bc_disconnect (transportConnector T discover) s)"
    by (simp add: tc_disconnect_def tc_isConnected_def disconnect_disconnects split: option.split)
next
  fix bs s n s'
  assume "bc_send (transportConnector T discover) bs s = (Inr n, s')"
  then show "n \<le> int (length bs)"
    by (auto simp: tc_send_def onTransport_def prog_simps dest!: send_bound split: option.splits sum.splits prod.splits)
next
  fix cap s bs s'
  assume "bc_recv (transportConnector T discover) cap s = (Inr bs, s')"
  then show "length bs \<le> cap"
    by (auto simp: tc_recv_def onTransport_def dest!: receive_bound split: option.splits sum.splits prod.splits)
qed

end

interpretation fakeConnector: connector_laws "transportConnector fake_ops fake_discover"
  by (rule fake.connector)



end
