(* ===== verification/LinuxConnector.thy ===== *)
theory LinuxConnector
  imports Connector SonyDevice
begin

text \<open>
  The platform code of Linux: \<open>DBusHelper.cpp\<close>, which asks BlueZ for devices and headsets for
  their services, and \<open>LinuxBluetoothConnector.cpp\<close>, the connector under the daemon's transport.

  Messages of D-Bus are typed values; an iterator is the list of values from its position on.
  What the system and the headset answer is data. Where libdbus leaves the result undefined, getting a
  string that is none or recursing into a value that holds nothing, the result is \<open>None\<close>.
\<close>

section \<open>D-Bus messages\<close>

datatype DBusType = TypeString | TypeBoolean | TypePath | TypeVariant | TypeDictEntry | TypeArray | TypeOther

datatype DBusValue =
    DString string | DBool bool | DPath string
  | DVariant DBusValue | DEntry DBusValue DBusValue | DArray DBusType "DBusValue list" | DOther

fun typeOf :: "DBusValue \<Rightarrow> DBusType" where
  "typeOf (DString s) = TypeString"
| "typeOf (DBool b) = TypeBoolean"
| "typeOf (DPath s) = TypePath"
| "typeOf (DVariant v) = TypeVariant"
| "typeOf (DEntry k v) = TypeDictEntry"
| "typeOf (DArray t vs) = TypeArray"
| "typeOf DOther = TypeOther"

type_synonym iter = "DBusValue list"

text \<open>\<open>dbus_message_iter_get_arg_type\<close>, \<open>None\<close> for \<open>DBUS_TYPE_INVALID\<close> at the end.\<close>

definition argType :: "iter \<Rightarrow> DBusType option" where
  "argType it = (case it of [] \<Rightarrow> None | v # _ \<Rightarrow> Some (typeOf v))"

definition open_dict_read :: "iter \<Rightarrow> iter option" where
  "open_dict_read it = (case it of
      DArray t vs # _ \<Rightarrow> if t = TypeDictEntry then Some vs else None
    | _ \<Rightarrow> None)"

text \<open>The path, the interfaces, and the iterator after the entry.\<close>

definition read_next_object_path_entry :: "iter \<Rightarrow> (string \<times> iter \<times> iter) option" where
  "read_next_object_path_entry it = (case it of
      DEntry k v # rest \<Rightarrow> (case k of
          DPath path \<Rightarrow> map_option (\<lambda>ifaces. (path, ifaces, rest)) (open_dict_read [v])
        | _ \<Rightarrow> None)
    | _ \<Rightarrow> None)"

definition read_next_interface_entry :: "iter \<Rightarrow> (string \<times> iter) option" where
  "read_next_interface_entry it = (case it of
      DEntry k v # rest \<Rightarrow> (case k of DString name \<Rightarrow> Some (name, rest) | _ \<Rightarrow> None)
    | _ \<Rightarrow> None)"

lemma read_entry_shorter:
  "read_next_object_path_entry it = Some (path, ifaces, rest) \<Longrightarrow> length rest < length it"
  "read_next_interface_entry it = Some (name, rest) \<Longrightarrow> length rest < length it"
  by (auto simp: read_next_object_path_entry_def read_next_interface_entry_def split: list.splits DBusValue.splits)

definition deviceInterface :: string where
  "deviceInterface = ''org.bluez.Device1''"

text \<open>The two loops of \<open>dbus_list_adapters\<close>.\<close>

function listInterfaces :: "string \<Rightarrow> iter \<Rightarrow> string list" where
  "listInterfaces path it = (case read_next_interface_entry it of
      None \<Rightarrow> []
    | Some (name, rest) \<Rightarrow> (if name = deviceInterface then [path] else []) @ listInterfaces path rest)"
  by pat_completeness auto

termination
  by (relation "measure (length \<circ> snd)") (auto dest: read_entry_shorter)

function listPaths :: "iter \<Rightarrow> string list" where
  "listPaths it = (case read_next_object_path_entry it of
      None \<Rightarrow> []
    | Some (path, ifaces, rest) \<Rightarrow> listInterfaces path ifaces @ listPaths rest)"
  by pat_completeness auto

termination
  by (relation "measure length") (auto dest: read_entry_shorter)

declare listInterfaces.simps [simp del] listPaths.simps [simp del]

section \<open>Asking BlueZ\<close>

text \<open>What a method call comes to: no message could be made, an error, no response, or the arguments of
  the response.\<close>

datatype DBusReply = NoMessage | CallError | NoResponse | Response iter

record Bus =
  bus_open :: bool
  bus_managedObjects :: DBusReply
  bus_get :: "string \<Rightarrow> string \<Rightarrow> DBusReply"

definition dbus_list_adapters :: "Bus \<Rightarrow> string list" where
  "dbus_list_adapters B = (case bus_managedObjects B of
      Response args \<Rightarrow>
        if args = [] then []
        else (case open_dict_read args of None \<Rightarrow> [] | Some objects \<Rightarrow> listPaths objects)
    | _ \<Rightarrow> [])"

definition recurseInto :: "DBusValue \<Rightarrow> iter option" where
  "recurseInto v = (case v of
      DVariant x \<Rightarrow> Some [x] | DEntry k x \<Rightarrow> Some [k, x] | DArray t vs \<Rightarrow> Some vs | _ \<Rightarrow> None)"

definition dbus_get_property :: "Bus \<Rightarrow> string \<Rightarrow> string \<Rightarrow> string option" where
  "dbus_get_property B path property = (case bus_get B path property of
      Response (v # _) \<Rightarrow> (case recurseInto v of
          Some (DString s # _) \<Rightarrow> Some s | Some (DPath s # _) \<Rightarrow> Some s | _ \<Rightarrow> None)
    | _ \<Rightarrow> Some '''')"

definition dbus_get_property_bool :: "Bus \<Rightarrow> string \<Rightarrow> string \<Rightarrow> bool option" where
  "dbus_get_property_bool B path property = (case bus_get B path property of
      Response (v # _) \<Rightarrow> (case recurseInto v of
          Some sub \<Rightarrow> Some (case sub of DBool b # _ \<Rightarrow> b | _ \<Rightarrow> False) | None \<Rightarrow> None)
    | _ \<Rightarrow> Some False)"

text \<open>The loop of \<open>getConnectedDevices\<close> over the paths.\<close>

fun collectDevices :: "Bus \<Rightarrow> string list \<Rightarrow> BluetoothDevice list \<Rightarrow> BluetoothDevice list option" where
  "collectDevices B [] res = Some res"
| "collectDevices B (path # paths) res =
     (case (dbus_get_property B path ''Name'', dbus_get_property B path ''Address'',
            dbus_get_property_bool B path ''Paired'') of
        (Some name, Some address, Some paired) \<Rightarrow>
          if \<not> paired then collectDevices B paths res
          else (case dbus_get_property_bool B path ''Connected'' of
              None \<Rightarrow> None
            | Some connected \<Rightarrow>
                let d = \<lparr>bd_name = name, bd_mac = address, bd_paired = Some paired, bd_connected = Some connected\<rparr>
                in collectDevices B paths (if connected then d # res else res @ [d]))
      | _ \<Rightarrow> None)"

definition getConnectedDevices :: "Bus \<Rightarrow> BluetoothDevice list option" where
  "getConnectedDevices B = (if \<not> bus_open B then Some [] else collectDevices B (dbus_list_adapters B) [])"

section \<open>Asking the headset\<close>

text \<open>A search for a service: no session, a failed search, or the records; a record has the RFCOMM port
  that it names, 0 if none, unless its protocols cannot be read.\<close>

datatype SdpAnswer = NoSession | SearchFailed | Records "u8 option list"

fun recordPort :: "u8 \<Rightarrow> u8 option list \<Rightarrow> u8" where
  "recordPort port [] = port"
| "recordPort port (r # rs) = recordPort (case r of Some p \<Rightarrow> p | None \<Rightarrow> port) rs"

definition sdp_getServiceChannel :: "SdpAnswer \<Rightarrow> connExn + u8" where
  "sdp_getServiceChannel a = (case a of
      NoSession \<Rightarrow> Inl (Recoverable ''Error: could not connect to bluetooth spd server'' True)
    | SearchFailed \<Rightarrow> Inr 0
    | Records rs \<Rightarrow> Inr (recordPort 0 rs))"

section \<open>The connector\<close>

text \<open>What one read or write comes to; a read brings at most the bytes asked for and a write takes at
  most those given.\<close>

datatype ReadAnswer = ReadBytes "u8 list" | TryAgain | ReadError string

record System =
  sy_socket :: "nat \<Rightarrow> int"
  sy_sdpV1 :: "nat \<Rightarrow> SdpAnswer"
  sy_sdpV2 :: "nat \<Rightarrow> SdpAnswer"
  sy_connect :: "nat \<Rightarrow> bool"
  sy_read :: "nat \<Rightarrow> ReadAnswer"
  sy_write :: "nat \<Rightarrow> nat option"
  sy_bus :: "nat \<Rightarrow> Bus"

text \<open>The connector's members; ghosts: how often the system was asked, and the descriptors opened and
  closed, in order. A \<open>getConnectedDevices\<close> whose result is undefined is taken for one that throws.\<close>

record LinuxConnector =
  lx_socket :: int
  lx_connected :: bool
  lx_protocolVersion :: SonyProtocolVersion
  lx_asked :: nat
  lx_opened :: "int list"
  lx_closed :: "int list"

definition newLinuxConnector :: LinuxConnector where
  "newLinuxConnector = \<lparr>lx_socket = -1, lx_connected = False, lx_protocolVersion = V1, lx_asked = 0, lx_opened = [], lx_closed = []\<rparr>"

definition asked :: "LinuxConnector \<Rightarrow> LinuxConnector" where
  "asked c = c\<lparr>lx_asked := lx_asked c + 1\<rparr>"

definition linux_recv :: "System \<Rightarrow> nat \<Rightarrow> (LinuxConnector, u8 list) conn" where
  "linux_recv S cap c = (case sy_read S (lx_asked c) of
      ReadBytes bs \<Rightarrow> (Inr (take cap bs), asked c)
    | TryAgain \<Rightarrow> (Inl (Recoverable ''recv timed out'' False), asked c)
    | ReadError w \<Rightarrow> (Inl (Recoverable (''Couldn't recv: '' @ w) True), asked c))"

definition linux_send :: "System \<Rightarrow> u8 list \<Rightarrow> (LinuxConnector, int) conn" where
  "linux_send S bytes c = (Inr (case sy_write S (lx_asked c) of
      Some n \<Rightarrow> int (min n (length bytes)) | None \<Rightarrow> -1), asked c)"

definition linux_connect :: "System \<Rightarrow> string \<Rightarrow> (LinuxConnector, unit) conn" where
  "linux_connect S addrStr c0 =
     (let k = lx_asked c0; c = (asked c0)\<lparr>lx_socket := sy_socket S k, lx_opened := lx_opened c0 @ [sy_socket S k]\<rparr> in
      case sdp_getServiceChannel (sy_sdpV1 S k) of
        Inl e \<Rightarrow> (Inl e, c)
      | Inr channel \<Rightarrow>
          (case (if channel = 0 then sdp_getServiceChannel (sy_sdpV2 S k) else Inr channel) of
             Inl e \<Rightarrow> (Inl e, c\<lparr>lx_protocolVersion := V1\<rparr>)
           | Inr channel2 \<Rightarrow>
               let c2 = c\<lparr>lx_protocolVersion := (if channel = 0 then V2 else V1)\<rparr> in
               if channel2 = 0
               then (Inl (Recoverable ''Couldn't find the Sony service record on this device (neither protocol version) - is this a supported headset?'' True), c2)
               else if \<not> sy_connect S k
               then (Inl (Recoverable ''Error: could not connect to bluetooth socket'' True), c2)
               else (Inr (), c2\<lparr>lx_connected := True\<rparr>)))"

definition linux_disconnect :: "LinuxConnector \<Rightarrow> LinuxConnector" where
  "linux_disconnect c =
     (if lx_socket c \<noteq> -1 then c\<lparr>lx_closed := lx_closed c @ [lx_socket c]\<rparr> else c)\<lparr>lx_connected := False\<rparr>"

definition linux_devices :: "System \<Rightarrow> (LinuxConnector, BluetoothDevice list) conn" where
  "linux_devices S c = (case getConnectedDevices (sy_bus S (lx_asked c)) of
      Some ds \<Rightarrow> (Inr ds, asked c)
    | None \<Rightarrow> (Inl (Plain (StdException ''undefined'')), asked c))"

definition linuxConnector :: "System \<Rightarrow> LinuxConnector IBluetoothConnector" where
  "linuxConnector S =
     \<lparr>bc_send = linux_send S, bc_recv = linux_recv S, bc_connect = linux_connect S, bc_disconnect = linux_disconnect,
      bc_isConnected = lx_connected, bc_getConnectedDevices = linux_devices S,
      bc_getProtocolVersion = lx_protocolVersion\<rparr>"

section \<open>The contract\<close>

lemma linuxConnector_simps [simp]:
  "bc_send (linuxConnector S) = linux_send S" "bc_recv (linuxConnector S) = linux_recv S"
  "bc_connect (linuxConnector S) = linux_connect S" "bc_disconnect (linuxConnector S) = linux_disconnect"
  "bc_isConnected (linuxConnector S) = lx_connected" "bc_getConnectedDevices (linuxConnector S) = linux_devices S"
  "bc_getProtocolVersion (linuxConnector S) = lx_protocolVersion"
  by (simp_all add: linuxConnector_def)

lemma linux_laws: "connector_laws (linuxConnector S)"
  by unfold_locales
    (auto simp: linux_connect_def linux_disconnect_def linux_send_def linux_recv_def Let_def
      split: sum.splits if_splits option.splits ReadAnswer.splits)

interpretation linux: connector_laws "linuxConnector S" for S
  by (rule linux_laws)

text \<open>How the outcome of \<open>connect\<close> follows from what the headset offers.\<close>

definition channelOf :: "SdpAnswer \<Rightarrow> u8" where
  "channelOf a = (case sdp_getServiceChannel a of Inr p \<Rightarrow> p | Inl _ \<Rightarrow> 0)"

text \<open>C35: On Linux the daemon's transport keeps its contract, and knows what it talks to. A connection
  that is made was made to a channel that the headset offers for the generation that is then reported,
  and V2 is reported only when V1 was looked for and not offered; one that is not made is
  reported as a failure of the transport, with the connector as unconnected as before. A
  read that found nothing in time is a \<open>Timeout\<close>, the end of the stream is \<open>Disconnected\<close>.\<close>

theorem linux_transport_sound:
  "transport_laws (connectorTransport (linuxConnector S)) \<and>
   (case t_connect (connectorTransport (linuxConnector S)) a (Some c) of
      (Inr _, Some c') \<Rightarrow> lx_connected c' \<and>
        channelOf (if lx_protocolVersion c' = V1 then sy_sdpV1 S (lx_asked c) else sy_sdpV2 S (lx_asked c)) \<noteq> 0 \<and>
        (lx_protocolVersion c' = V1 \<or> sdp_getServiceChannel (sy_sdpV1 S (lx_asked c)) = Inr 0)
    | (Inl e, Some c') \<Rightarrow> (\<exists>w. e = SonyException TransportFailure w) \<and> lx_connected c' = lx_connected c
    | (_, None) \<Rightarrow> False) \<and>
   (if lx_connected c then
      fst (t_receive (connectorTransport (linuxConnector S)) cap (Some c)) = (case sy_read S (lx_asked c) of
          ReadBytes bs \<Rightarrow> if take cap bs = [] then Inl (SonyException Disconnected ''Transport closed or receive error'')
            else Inr (take cap bs)
        | TryAgain \<Rightarrow> Inl (SonyException Timeout ''recv timed out'')
        | ReadError w \<Rightarrow> Inl (SonyException Disconnected (''Couldn't recv: '' @ w)))
    else True)"
proof (intro conjI)
  show "transport_laws (connectorTransport (linuxConnector S))" by (rule linux.transport)
next
  show "case t_connect (connectorTransport (linuxConnector S)) a (Some c) of
      (Inr _, Some c') \<Rightarrow> lx_connected c' \<and>
        channelOf (if lx_protocolVersion c' = V1 then sy_sdpV1 S (lx_asked c) else sy_sdpV2 S (lx_asked c)) \<noteq> 0 \<and>
        (lx_protocolVersion c' = V1 \<or> sdp_getServiceChannel (sy_sdpV1 S (lx_asked c)) = Inr 0)
    | (Inl e, Some c') \<Rightarrow> (\<exists>w. e = SonyException TransportFailure w) \<and> lx_connected c' = lx_connected c
    | (_, None) \<Rightarrow> False"
    by (cases "sdp_getServiceChannel (sy_sdpV1 S (lx_asked c))"; cases "sdp_getServiceChannel (sy_sdpV2 S (lx_asked c))")
      (simp_all add: ct_connect_def linux_connect_def channelOf_def throwP_def asked_def Let_def)
next
  show "if lx_connected c then
      fst (t_receive (connectorTransport (linuxConnector S)) cap (Some c)) = (case sy_read S (lx_asked c) of
          ReadBytes bs \<Rightarrow> if take cap bs = [] then Inl (SonyException Disconnected ''Transport closed or receive error'')
            else Inr (take cap bs)
        | TryAgain \<Rightarrow> Inl (SonyException Timeout ''recv timed out'')
        | ReadError w \<Rightarrow> Inl (SonyException Disconnected (''Couldn't recv: '' @ w)))
    else True"
    by (simp add: ct_receive_def linux_recv_def throwP_def split: ReadAnswer.split)
qed

section \<open>Finding devices\<close>

text \<open>The objects of a well-formed answer, in order: those with the interface of a device.\<close>

definition managedObjects :: "(string \<times> string list) list \<Rightarrow> DBusReply" where
  "managedObjects objs = Response [DArray TypeDictEntry
     (map (\<lambda>(p, ifs). DEntry (DPath p) (DArray TypeDictEntry (map (\<lambda>i. DEntry (DString i) DOther) ifs))) objs)]"

lemma listInterfaces_strings:
  "listInterfaces p (map (\<lambda>i. DEntry (DString i) DOther) ifs) = map (\<lambda>_. p) (filter ((=) deviceInterface) ifs)"
  by (induction ifs) (subst listInterfaces.simps, auto simp: read_next_interface_entry_def)+

lemma adapters_listed:
  assumes "bus_managedObjects B = managedObjects objs" "list_all (\<lambda>(p, ifs). distinct ifs) objs"
  shows "dbus_list_adapters B = map fst (filter (\<lambda>(p, ifs). deviceInterface \<in> set ifs) objs)"
proof -
  have once: "filter ((=) x) ifs = (if x \<in> set ifs then [x] else [])" if "distinct ifs" for x :: string and ifs
    using that by (induction ifs) auto
  have "listPaths (map (\<lambda>(p, ifs). DEntry (DPath p) (DArray TypeDictEntry (map (\<lambda>i. DEntry (DString i) DOther) ifs))) objs) =
      map fst (filter (\<lambda>(p, ifs). deviceInterface \<in> set ifs) objs)"
    using assms(2)
  proof (induction objs)
    case (Cons obj objs)
    then show ?case
      by (cases obj) (subst listPaths.simps,
        simp add: read_next_object_path_entry_def open_dict_read_def listInterfaces_strings once)
  qed (subst listPaths.simps, simp add: read_next_object_path_entry_def)
  then show ?thesis
    by (simp add: dbus_list_adapters_def assms(1) managedObjects_def open_dict_read_def)
qed

text \<open>Paired devices only, the connected ones first, latest first, then the others in order.\<close>

definition deviceAt :: "Bus \<Rightarrow> string \<Rightarrow> BluetoothDevice" where
  "deviceAt B path = \<lparr>bd_name = the (dbus_get_property B path ''Name''), bd_mac = the (dbus_get_property B path ''Address''),
     bd_paired = dbus_get_property_bool B path ''Paired'', bd_connected = dbus_get_property_bool B path ''Connected''\<rparr>"

definition answersWell :: "Bus \<Rightarrow> string \<Rightarrow> bool" where
  "answersWell B path \<longleftrightarrow> dbus_get_property B path ''Name'' \<noteq> None \<and> dbus_get_property B path ''Address'' \<noteq> None \<and>
     dbus_get_property_bool B path ''Paired'' \<noteq> None \<and> dbus_get_property_bool B path ''Connected'' \<noteq> None"

lemma collectDevices_order:
  assumes "list_all (answersWell B) paths"
  shows "collectDevices B paths res = (let ds = filter (\<lambda>d. bd_paired d = Some True) (map (deviceAt B) paths) in
    Some (rev (filter (\<lambda>d. bd_connected d = Some True) ds) @ res @ filter (\<lambda>d. bd_connected d \<noteq> Some True) ds))"
  using assms by (induction paths arbitrary: res) (auto simp: answersWell_def deviceAt_def Let_def)

section \<open>What goes wrong\<close>

text \<open>The port of a service is that of the last of its records, even if that one names none.\<close>

lemma last_record_wins: "sdp_getServiceChannel (Records (rs @ [Some p])) = Inr p"
proof -
  have "recordPort q (rs @ [Some p]) = p" for q by (induction rs arbitrary: q) simp_all
  then show ?thesis by (simp add: sdp_getServiceChannel_def)
qed

lemma connector_ops [simp]:
  "t_connect (connectorTransport (linuxConnector S)) = ct_connect (linuxConnector S)"
  "t_disconnect (connectorTransport (linuxConnector S)) = map_option linux_disconnect"
  "ct_isConnected (linuxConnector S) (Some c) = lx_connected c"
  by (simp_all add: ct_isConnected_def)

lemma linux_disconnect_fields [simp]:
  "lx_connected (linux_disconnect c) = False" "lx_socket (linux_disconnect c) = lx_socket c"
  "lx_opened (linux_disconnect c) = lx_opened c"
  "lx_closed (linux_disconnect c) = lx_closed c @ (if lx_socket c \<noteq> -1 then [lx_socket c] else [])"
  by (simp_all add: linux_disconnect_def)

text \<open>Every attempt to reach a headset that is switched off leaves a socket open: it was made before the
  headset is asked, and the device, which takes the transport for unconnected, does not disconnect it. The daemon
  tries again for ever.\<close>

lemma failed_attempt_leaks:
  assumes "en_T E = connectorTransport (linuxConnector S)" "dv_session d = None" "dv_transport d = Some (Some c)"
    and "\<not> lx_connected c" "sy_sdpV1 S (lx_asked c) = NoSession"
  shows "\<exists>c'. theTransport (device_disconnect E (snd (device_connect E a name d))) = Some (Some c') \<and>
    lx_opened c' = lx_opened c @ [sy_socket S (lx_asked c)] \<and> lx_closed c' = lx_closed c \<and>
    \<not> lx_connected c' \<and> dv_session (device_disconnect E (snd (device_connect E a name d))) = None"
  using assms
  by (simp add: device_connect_def theTransport_def prepareConnect_def selectProfile_def device_isConnected_def
      dropSession_def Let_def ct_connect_def linux_connect_def sdp_getServiceChannel_def throwP_def asked_def
      device_disconnect_def dispatchD_def)

text \<open>A descriptor is closed when the device disconnects, and once more when it connects the next time and drops the
  session; by then the number may belong to a client of the daemon.\<close>

lemma closed_twice:
  assumes "en_T E = connectorTransport (linuxConnector S)" "dv_session d = Some s" "ss_transport s = Some (Some c)"
    and "lx_socket c \<noteq> -1"
  shows "\<exists>c'. theTransport (prepareConnect E name (device_disconnect E d)) = Some (Some c') \<and>
    lx_closed c' = lx_closed c @ [lx_socket c, lx_socket c]"
  using assms
  by (simp add: device_disconnect_def theTransport_def prepareConnect_def selectProfile_def device_isConnected_def
      isConnected_def dropSession_def Let_def session_disconnect_def clearSession_def dispatchD_def)

end
