(* ===== verification/ByteMagic.thy ===== *)
theory ByteMagic
  imports Prelude
begin

text \<open>
  \<open>ByteMagic\<close>: byte orders, and Bluetooth addresses as text and as numbers, which the platform
  code of Windows exchanges.

  \<open>iss >> b\<close> with \<open>std::hex\<close> is written out: white space is skipped, a sign and \<open>0x\<close> are
  allowed, digits are read as long as there are any, and no digit or a value of more than 64 bits
  is a failure. The addresses have 17 characters, so that the numbers in them fit unless all
  are digits.
\<close>

section \<open>Byte order\<close>

definition byteOrderSwap :: "u32 \<Rightarrow> u32" where
  "byteOrderSwap num =
     drop_bit 24 num OR (push_bit 8 num AND 0x00FF0000) OR (drop_bit 8 num AND 0x0000FF00) OR push_bit 24 num"

definition intToBytesBE :: "u32 \<Rightarrow> u8 list" where
  "intToBytesBE num = map (\<lambda>i. ucast (drop_bit (8 * (3 - i)) num AND 0xff)) [0..<4]"

section \<open>Reading hexadecimal numbers\<close>

definition hexVal :: "char \<Rightarrow> nat" where
  "hexVal c = (let n = (of_char c :: nat) in
     if n \<le> 57 then n - 48 else if n \<le> 70 then n - 55 else n - 87)"

fun hexDigitsVal :: "nat \<Rightarrow> string \<Rightarrow> nat" where
  "hexDigitsVal acc [] = acc"
| "hexDigitsVal acc (c # cs) = hexDigitsVal (16 * acc + hexVal c) cs"

text \<open>\<open>iss >> b\<close>: the number and what is left, or the failure.\<close>

definition extractHex :: "string \<Rightarrow> (u64 \<times> string) option" where
  "extractHex s =
     (let s1 = dropWhile isspaceC s;
          negative = (s1 \<noteq> [] \<and> hd s1 = CHR ''-'');
          s2 = (if s1 \<noteq> [] \<and> hd s1 \<in> {CHR ''-'', CHR ''+''} then tl s1 else s1);
          s3 = (if take 2 s2 \<in> {''0x'', ''0X''} then drop 2 s2 else s2);
          digits = takeWhile isxdigitC s3;
          n = hexDigitsVal 0 digits
      in if digits = [] \<or> 2 ^ 64 \<le> n then None
         else Some (if negative then - of_nat n else of_nat n, dropWhile isxdigitC s3))"

section \<open>Addresses\<close>

definition MAC_ADDR_STR_SIZE :: nat where [simp]: "MAC_ADDR_STR_SIZE = 17"

text \<open>The loop of \<open>MACStringToLong\<close>; every pass takes at least one character.\<close>

lemma extractHex_shorter: "extractHex s = Some (b, rest) \<Longrightarrow> length rest < length s"
proof -
  assume e: "extractHex s = Some (b, rest)"
  obtain s3 where s3: "length s3 \<le> length s" "takeWhile isxdigitC s3 \<noteq> []" "rest = dropWhile isxdigitC s3"
  proof -
    let ?s1 = "dropWhile isspaceC s"
    let ?s2 = "if ?s1 \<noteq> [] \<and> hd ?s1 \<in> {CHR ''-'', CHR ''+''} then tl ?s1 else ?s1"
    let ?s3 = "if take 2 ?s2 \<in> {''0x'', ''0X''} then drop 2 ?s2 else ?s2"
    have "length ?s1 \<le> length s" by (rule length_dropWhile_le)
    then have "length ?s3 \<le> length s" by auto
    moreover have "takeWhile isxdigitC ?s3 \<noteq> []" "rest = dropWhile isxdigitC ?s3"
      using e unfolding extractHex_def Let_def by (auto split: if_split_asm)
    ultimately show thesis by (rule that)
  qed
  have "length s3 = length (takeWhile isxdigitC s3) + length rest"
    unfolding s3(3) by (metis length_append takeWhile_dropWhile_id)
  with s3(1,2) show ?thesis by (cases "takeWhile isxdigitC s3") auto
qed

function macLoop :: "string \<Rightarrow> u64 \<Rightarrow> u64 option" where
  "macLoop s result = (case extractHex s of
      None \<Rightarrow> Some result
    | Some (b, rest) \<Rightarrow>
        let result' = push_bit 8 result + b in
        (case rest of
          [] \<Rightarrow> Some result'
        | c # rest' \<Rightarrow> if c = CHR ''-'' \<or> c = CHR '':'' then macLoop rest' result' else None))"
  by pat_completeness auto

termination
  by (relation "measure (length \<circ> fst)") (auto dest: extractHex_shorter)

definition MACStringToLong :: "string \<Rightarrow> exn + u64" where
  "MACStringToLong str =
     (if length str \<noteq> MAC_ADDR_STR_SIZE
      then Inl (StdException (''Invalid MAC address size ('' @ str @ ''): '' @ to_string_int (int (length str)) @
        '' != '' @ to_string_int (int MAC_ADDR_STR_SIZE)))
      else case macLoop str 0 of
        None \<Rightarrow> Inl (StdException (''Invalid MAC address format: '' @ str))
      | Some n \<Rightarrow> Inr n)"

definition hexChar :: "nat \<Rightarrow> char" where
  "hexChar n = (if n < 10 then char_of (48 + n) else char_of (87 + n))"

text \<open>\<open>addr\<close> holds the six bytes, the last one first.\<close>

definition MACBytesToString :: "u8 list \<Rightarrow> string" where
  "MACBytesToString addr =
     butlast (concat (map (\<lambda>i. let b = addr ! (6 - 1 - i) in
       [hexChar (unat (drop_bit 4 (b AND 0xF0) AND 0xF)), hexChar (unat (b AND 0x0F)), CHR '':'']) [0..<6]))"

section \<open>Swapping twice\<close>

lemma byte_masks:
  "(0x00FF0000 :: u32) = push_bit 16 (mask 8)" "(0x0000FF00 :: u32) = push_bit 8 (mask 8)"
  "(0xF0 :: u8) = push_bit 4 (mask 4)" "(0xF :: u8) = mask 4"
  by (simp_all add: mask_eq_exp_minus_1 push_bit_eq_mult)

lemma byteOrderSwap_bit:
  "n < 32 \<Longrightarrow> bit (byteOrderSwap num) n \<longleftrightarrow> bit num (8 * (3 - n div 8) + n mod 8)"
proof -
  assume "n < 32"
  then have n: "n = 8 * (n div 8) + n mod 8" "n mod 8 < 8" "n div 8 < 4" by simp_all
  from n(3) consider "n div 8 = 0" | "n div 8 = 1" | "n div 8 = 2" | "n div 8 = 3" by linarith
  then show "bit (byteOrderSwap num) n \<longleftrightarrow> bit num (8 * (3 - n div 8) + n mod 8)"
  proof cases
    case 1
    then have "n < 8" "n mod 8 = n" using n by simp_all
    then show ?thesis
      using 1 by (auto simp: byteOrderSwap_def byte_masks bit_simps dest: bit_imp_le_length)
  next
    case 2
    then have "8 \<le> n" "n < 16" "n mod 8 = n - 8" using n by simp_all
    then show ?thesis
      using 2 by (auto simp: byteOrderSwap_def byte_masks bit_simps dest: bit_imp_le_length)
  next
    case 3
    then have "16 \<le> n" "n < 24" "n mod 8 = n - 16" using n by simp_all
    then show ?thesis
      using 3 by (auto simp: byteOrderSwap_def byte_masks bit_simps dest: bit_imp_le_length)
  next
    case 4
    then have "24 \<le> n" "n < 32" "n mod 8 = n - 24" using n by simp_all
    then show ?thesis
      using 4 by (auto simp: byteOrderSwap_def byte_masks bit_simps dest: bit_imp_le_length)
  qed
qed

lemma byteOrderSwap_twice: "byteOrderSwap (byteOrderSwap num) = num"
proof (rule bit_word_eqI)
  fix n assume n: "n < LENGTH(32)"
  let ?m = "8 * (3 - n div 8) + n mod 8"
  have "n div 8 \<le> 3" using n by simp
  then have "?m < 32" "?m div 8 = 3 - n div 8" "?m mod 8 = n mod 8" by simp_all
  with n byteOrderSwap_bit [of n "byteOrderSwap num"] byteOrderSwap_bit [of ?m num] \<open>n div 8 \<le> 3\<close>
  show "bit (byteOrderSwap (byteOrderSwap num)) n = bit num n" by simp
qed

section \<open>Addresses and numbers\<close>

definition byteHex :: "u8 \<Rightarrow> string" where
  "byteHex b = [hexChar (unat b div 16), hexChar (unat b mod 16)]"

fun macText :: "u8 list \<Rightarrow> string" where
  "macText [] = ''''"
| "macText (b # bs) = byteHex b @ (if bs = [] then '''' else CHR '':'' # macText bs)"

lemma of_hexChar: "n < 16 \<Longrightarrow> of_char (hexChar n) = (if n < 10 then 48 + n else 87 + n)"
  by (simp add: hexChar_def)

lemma hexChar_not:
  "n < 16 \<Longrightarrow> of_char c \<notin> {48..<58} \<union> {97..<103 :: nat} \<Longrightarrow> hexChar n \<noteq> c"
  using of_hexChar [of n] by (auto split: if_splits)

lemma hexChar_cases: "n < 16 \<Longrightarrow> isxdigitC (hexChar n) \<and> hexVal (hexChar n) = n \<and> \<not> isspaceC (hexChar n) \<and>
    hexChar n \<noteq> CHR ''-'' \<and> hexChar n \<noteq> CHR ''+'' \<and> hexChar n \<noteq> CHR ''x'' \<and> hexChar n \<noteq> CHR ''X''"
  by (intro conjI hexChar_not) (simp_all add: isxdigitC_def hexVal_def isspaceC_def Let_def of_hexChar)

lemma unat_byte: "unat (b :: u8) < 256"
  using unsigned_less [of b, where 'a = nat] by simp

lemma extractHex_byte:
  assumes "s = '''' \<or> hd s = CHR '':''"
  shows "extractHex (byteHex b @ s) = Some (ucast b, s)"
proof -
  have d: "unat b div 16 < 16" "unat b mod 16 < 16" using unat_byte [of b] by simp_all
  note h = hexChar_cases [OF d(1)] hexChar_cases [OF d(2)]
  have rest: "takeWhile isxdigitC s = []" "dropWhile isxdigitC s = s"
    using assms by (cases s; simp add: isxdigitC_def)+
  have v: "16 * (unat b div 16) + unat b mod 16 = unat b" by simp
  have "(of_nat (unat b) :: u64) = ucast b" by simp
  then show ?thesis
    using h rest unat_byte [of b] by (simp add: extractHex_def byteHex_def Let_def v)
qed

lemma macLoop_text:
  "bs \<noteq> [] \<Longrightarrow> macLoop (macText bs) r = Some (fold (\<lambda>b r. push_bit 8 r + ucast b) bs r)"
proof (induction bs arbitrary: r)
  case (Cons b bs)
  show ?case
  proof (cases "bs = []")
    case True
    then show ?thesis
      using extractHex_byte [of "''''" b] by (subst macLoop.simps) (simp add: Let_def)
  next
    case False
    then have "extractHex (macText (b # bs)) = Some (ucast b, CHR '':'' # macText bs)"
      using extractHex_byte [of "CHR '':'' # macText bs" b] by simp
    with Cons.IH [OF False] show ?thesis
      by (subst macLoop.simps) (simp add: Let_def del: macText.simps)
  qed
qed simp

lemma nibbles_text:
  "[hexChar (unat (drop_bit 4 (b AND 0xF0) AND 0xF)), hexChar (unat (b AND 0x0F)), c] = byteHex b @ [c]"
proof -
  have "(0xF :: u8) = mask 4" by (simp add: mask_eq_exp_minus_1)
  then have "b AND 0xF = take_bit 4 b" by (simp add: take_bit_eq_mask)
  moreover have "drop_bit 4 (b AND 0xF0) AND 0xF = drop_bit 4 b"
    unfolding byte_masks by (rule bit_word_eqI) (auto simp: bit_simps dest: bit_imp_le_length)
  moreover have "unat (drop_bit 4 b) = unat b div 16"
  proof -
    have "unat (drop_bit 4 b) = drop_bit 4 (unat b)" by (simp only: unsigned_drop_bit_eq) (simp add: take_bit_nat_eq_self unat_byte)
    then show ?thesis by (simp only: drop_bit_eq_div) simp
  qed
  moreover have "unat (take_bit 4 b) = unat b mod 16"
  proof -
    have "unat (take_bit 4 b) = take_bit 4 (unat b)" by (simp only: unsigned_take_bit_eq)
    then show ?thesis by (simp only: take_bit_eq_mod) simp
  qed
  ultimately show ?thesis by (simp only: byteHex_def append.simps)
qed

lemma six_bytes:
  assumes "length addr = 6"
  obtains a b c d e f where "addr = [a, b, c, d, e, f]"
  using assms by (auto simp: length_Suc_conv eval_nat_numeral)

lemma six_indices: "[0..<6] = [0, 1, 2, 3, 4, 5 :: nat]"
  by (simp add: upt_rec)

lemma MACBytes_text:
  assumes "length addr = 6"
  shows "MACBytesToString addr = macText (rev addr) \<and> length (macText (rev addr)) = 17"
proof -
  from assms obtain a b c d e f where "addr = [a, b, c, d, e, f]" by (rule six_bytes)
  then show ?thesis
    unfolding MACBytesToString_def Let_def nibbles_text six_indices by (simp add: byteHex_def)
qed

text \<open>An address survives the way through its text: printing the six bytes gives the 17 characters
  that reading asks for, and reading them gives the number whose bytes they are, the first one lowest.\<close>

lemma mac_roundtrip:
  assumes "length addr = 6"
  shows "MACStringToLong (MACBytesToString addr) = Inr (foldr (\<lambda>b r. push_bit 8 r + ucast b) addr 0)"
proof -
  have "rev addr \<noteq> []" using assms by auto
  with macLoop_text [of "rev addr" 0] MACBytes_text [OF assms] show ?thesis
    by (simp add: MACStringToLong_def foldr_conv_fold del: macLoop.simps)
qed

text \<open>But not everything that is no address is refused: reading stops at the first group that is no
  number, and what was read so far is the answer.\<close>

lemma mac_nonsense_accepted: "MACStringToLong ''not-a-mac-address'' = Inr 0"
  by code_simp

end
