(* ===== verification/WindowsConnector.thy ===== *)
theory WindowsConnector
  imports Connector ByteMagic
begin

text \<open>
  \<open>WindowsBluetoothConnector.cpp\<close>, the connector of Windows. What WinSock and the Bluetooth functions
  answer is data, error numbers as their text; names are taken as \<open>WideCharToMultiByte\<close> gives them.
  The socket of \<open>INVALID_SOCKET\<close> is \<open>None\<close>.
\<close>

section \<open>What the system answers\<close>

datatype InitAnswer = SocketMade nat | NoSocket string | NoAuthenticate string | NoEncrypt string

datatype ConnectAnswer = Accepted | Refused string | BadUuid string

datatype WinRead = WinBytes "u8 list" | WinTimedOut | WinReadError string

datatype DevicesAnswer = NoDevices | DevicesError string | Devices "(string \<times> u8 list) list" "string option"

datatype RadiosAnswer = NoRadio | RadioError string | Radios "DevicesAnswer list" "string option"

record WinSystem =
  wy_socket :: "nat \<Rightarrow> InitAnswer"
  wy_connect :: "nat \<Rightarrow> SonyProtocolVersion \<Rightarrow> ConnectAnswer"
  wy_send :: "nat \<Rightarrow> string + nat"
  wy_recv :: "nat \<Rightarrow> WinRead"
  wy_radios :: "nat \<Rightarrow> RadiosAnswer"

text \<open>The members; ghosts: how often the system was asked, and the attempts to connect, with the socket and
  the service.\<close>

record WindowsConnector =
  wx_socket :: "nat option"
  wx_connected :: bool
  wx_protocolVersion :: SonyProtocolVersion
  wx_asked :: nat
  wx_attempts :: "(nat option \<times> SonyProtocolVersion) list"

definition newWindowsConnector :: WindowsConnector where
  "newWindowsConnector = \<lparr>wx_socket = None, wx_connected = False, wx_protocolVersion = V1, wx_asked = 0, wx_attempts = []\<rparr>"

section \<open>Starting WinSock\<close>

text \<open>\<open>iResult\<close>, what \<open>WSAStartup\<close> answers.\<close>

definition WSAStartupWrapper :: "int \<Rightarrow> exn + unit" where
  "WSAStartupWrapper iResult =
     (if iResult \<noteq> 0 then Inl (StdException (''WSAStartup failed: '' @ to_string_int iResult)) else Inr ())"

text \<open>The constructor, on its static flag \<open>startedUp\<close> and the number of calls of \<open>WSAStartup\<close> so far, which
  answers its \<open>n\<close>-th call with \<open>A n\<close>.\<close>

definition constructWindowsConnector ::
    "(nat \<Rightarrow> int) \<Rightarrow> bool \<times> nat \<Rightarrow> (exn + WindowsConnector) \<times> (bool \<times> nat)" where
  "constructWindowsConnector A = (\<lambda>(startedUp, calls).
     if \<not> startedUp
     then (case WSAStartupWrapper (A calls) of
         Inl e \<Rightarrow> (Inl e, (False, calls + 1))
       | Inr _ \<Rightarrow> (Inr newWindowsConnector, (True, calls + 1)))
     else (Inr newWindowsConnector, (True, calls)))"

fun constructMany :: "(nat \<Rightarrow> int) \<Rightarrow> nat \<Rightarrow> bool \<times> nat \<Rightarrow> bool \<times> nat" where
  "constructMany A 0 st = st"
| "constructMany A (Suc n) st = constructMany A n (snd (constructWindowsConnector A st))"

text \<open>WinSock is started again until it starts, and never after that: every connector that is
  made has it started.\<close>

lemma startup_once: "constructMany A n (True, calls) = (True, calls)"
  by (induction n) (simp_all add: constructWindowsConnector_def)

lemma startup_retried:
  assumes "\<forall>i < n. A (calls + i) \<noteq> 0" "A (calls + n) = 0"
  shows "constructMany A (n + 1 + m) (False, calls) = (True, calls + n + 1)"
  using assms
proof (induction n arbitrary: calls)
  case 0
  then show ?case by (simp add: constructWindowsConnector_def WSAStartupWrapper_def startup_once)
next
  case (Suc n)
  have "\<forall>i < n. A (Suc calls + i) \<noteq> 0" "A (Suc calls + n) = 0"
    using Suc.prems(1) [THEN spec, of "Suc _"] Suc.prems(2) by auto
  from Suc.IH [OF this] Suc.prems(1) [THEN spec, of 0] show ?case
    by (simp add: constructWindowsConnector_def WSAStartupWrapper_def)
qed

lemma constructed_started:
  "fst (constructWindowsConnector A st) = Inr c \<Longrightarrow> c = newWindowsConnector \<and> fst (snd (constructWindowsConnector A st))"
  by (auto simp: constructWindowsConnector_def split: prod.splits if_splits sum.splits)

section \<open>Connecting\<close>

definition raiseC :: "connExn \<Rightarrow> ('c, 'a) conn" where
  "raiseC e c = (Inl e, c)"

definition bindC :: "('c, 'a) conn \<Rightarrow> ('a \<Rightarrow> ('c, 'b) conn) \<Rightarrow> ('c, 'b) conn" where
  "bindC m f c = (case m c of (Inl e, c') \<Rightarrow> (Inl e, c') | (Inr x, c') \<Rightarrow> f x c')"

definition initSocket :: "WinSystem \<Rightarrow> (WindowsConnector, unit) conn" where
  "initSocket S c0 = (let c = c0\<lparr>wx_asked := wx_asked c0 + 1\<rparr> in
     case wy_socket S (wx_asked c0) of
       NoSocket w \<Rightarrow> raiseC (Plain (StdException (''Couldn't create socket: '' @ w))) c
     | NoAuthenticate w \<Rightarrow> raiseC (Plain (StdException (''Couldn't set SO_BTH_AUTHENTICATE: '' @ w))) c
     | NoEncrypt w \<Rightarrow> raiseC (Plain (StdException (''Couldn't set SO_BTH_ENCRYPT: '' @ w))) c
     | SocketMade sock \<Rightarrow> (Inr (), c\<lparr>wx_socket := Some sock\<rparr>))"

text \<open>\<open>None\<close> when the connection was made, or the error that is left behind.\<close>

definition tryConnect :: "WinSystem \<Rightarrow> SonyProtocolVersion \<Rightarrow> (WindowsConnector, string option) conn" where
  "tryConnect S version c0 =
     (case wy_connect S (wx_asked c0) version of
        BadUuid w \<Rightarrow> raiseC (Plain (StdException (''Couldn't create GUID: '' @ w))) (c0\<lparr>wx_asked := wx_asked c0 + 1\<rparr>)
      | answer \<Rightarrow> (Inr (case answer of Refused w \<Rightarrow> Some w | _ \<Rightarrow> None),
          c0\<lparr>wx_asked := wx_asked c0 + 1, wx_attempts := wx_attempts c0 @ [(wx_socket c0, version)]\<rparr>))"

definition connectedAs :: "SonyProtocolVersion \<Rightarrow> (WindowsConnector, unit) conn" where
  "connectedAs version c = (Inr (), c\<lparr>wx_protocolVersion := version, wx_connected := True\<rparr>)"

definition windows_connect :: "WinSystem \<Rightarrow> string \<Rightarrow> (WindowsConnector, unit) conn" where
  "windows_connect S addrStr =
     bindC (\<lambda>c. if wx_socket c = None then initSocket S c else (Inr (), c)) (\<lambda>_.
     bindC (\<lambda>c. (map_sum Plain (\<lambda>_. ()) (MACStringToLong addrStr), c)) (\<lambda>_.
     bindC (tryConnect S V1) (\<lambda>failed1.
       if failed1 = None then connectedAs V1
       else
         bindC (\<lambda>c. initSocket S (c\<lparr>wx_socket := None\<rparr>)) (\<lambda>_.
         bindC (tryConnect S V2) (\<lambda>failed2. case failed2 of
             None \<Rightarrow> connectedAs V2
           | Some w \<Rightarrow> raiseC (Recoverable (''Couldn't connect: '' @ w) True))))))"

definition windows_disconnect :: "WindowsConnector \<Rightarrow> WindowsConnector" where
  "windows_disconnect c = (if wx_socket c \<noteq> None then c\<lparr>wx_connected := False, wx_socket := None\<rparr> else c)"

section \<open>Data and devices\<close>

definition windows_send :: "WinSystem \<Rightarrow> u8 list \<Rightarrow> (WindowsConnector, int) conn" where
  "windows_send S bytes c0 = (let c = c0\<lparr>wx_asked := wx_asked c0 + 1\<rparr> in
     case wy_send S (wx_asked c0) of
       Inl w \<Rightarrow> raiseC (Recoverable (''Couldn't send ('' @ w @ '')'') True) c
     | Inr n \<Rightarrow> (Inr (int (min n (length bytes))), c))"

definition windows_recv :: "WinSystem \<Rightarrow> nat \<Rightarrow> (WindowsConnector, u8 list) conn" where
  "windows_recv S cap c0 = (let c = c0\<lparr>wx_asked := wx_asked c0 + 1\<rparr> in
     case wy_recv S (wx_asked c0) of
       WinBytes bs \<Rightarrow> (Inr (take cap bs), c)
     | WinTimedOut \<Rightarrow> raiseC (Recoverable ''recv timed out'' False) c
     | WinReadError w \<Rightarrow> raiseC (Recoverable (''Couldn't recv ('' @ w @ '')'') True) c)"

definition findDevicesInRadio :: "DevicesAnswer \<Rightarrow> connExn + BluetoothDevice list" where
  "findDevicesInRadio a = (case a of
      NoDevices \<Rightarrow> Inr []
    | DevicesError w \<Rightarrow> Inl (Plain (StdException (''BluetoothFindFirstDevice() failed with error code: '' @ w)))
    | Devices ds closeError \<Rightarrow> (case closeError of
          Some w \<Rightarrow> Inl (Plain (StdException (''BluetoothFindDeviceClose(bt_dev) failed with error code: '' @ w)))
        | None \<Rightarrow> Inr (map (\<lambda>(name, addr). \<lparr>bd_name = name, bd_mac = MACBytesToString addr,
            bd_paired = None, bd_connected = None\<rparr>) ds)))"

fun devicesOfRadios :: "DevicesAnswer list \<Rightarrow> connExn + BluetoothDevice list" where
  "devicesOfRadios [] = Inr []"
| "devicesOfRadios (a # rest) =
     bindE (findDevicesInRadio a) (\<lambda>ds. bindE (devicesOfRadios rest) (\<lambda>ds'. Inr (ds @ ds')))"

definition windows_devices :: "WinSystem \<Rightarrow> (WindowsConnector, BluetoothDevice list) conn" where
  "windows_devices S c =
     ((case wy_radios S (wx_asked c) of
         NoRadio \<Rightarrow> Inl (Recoverable ''No Bluetooth radios were found - is your adapter connected?'' False)
       | RadioError w \<Rightarrow> Inl (Plain (StdException (''BluetoothFindFirstRadio() failed with error code '' @ w)))
       | Radios as closeError \<Rightarrow> bindE (devicesOfRadios as) (\<lambda>ds. case closeError of
             Some w \<Rightarrow> Inl (Plain (StdException (''BluetoothFindRadioClose(bt) failed with error code '' @ w)))
           | None \<Rightarrow> Inr ds)),
      c\<lparr>wx_asked := wx_asked c + 1\<rparr>)"

definition windowsConnector :: "WinSystem \<Rightarrow> WindowsConnector IBluetoothConnector" where
  "windowsConnector S =
     \<lparr>bc_send = windows_send S, bc_recv = windows_recv S, bc_connect = windows_connect S,
      bc_disconnect = windows_disconnect, bc_isConnected = wx_connected,
      bc_getConnectedDevices = windows_devices S, bc_getProtocolVersion = wx_protocolVersion\<rparr>"

section \<open>The contract\<close>

text \<open>The part of \<open>connector_laws\<close> that holds as it is; disconnecting disconnects while a connected
  connector has a socket.\<close>

lemma bindC_Inr:
  "bindC m f c = (Inr y, c') \<longleftrightarrow> (\<exists>x c1. m c = (Inr x, c1) \<and> f x c1 = (Inr y, c'))"
  by (auto simp: bindC_def split: prod.splits sum.splits)

lemma windows_connects:
  "windows_connect S a c = (Inr (), c') \<Longrightarrow> wx_connected c'"
  by (auto simp: windows_connect_def bindC_Inr connectedAs_def raiseC_def split: if_splits option.splits)

lemma windows_bounds:
  "windows_send S bs c = (Inr n, c') \<Longrightarrow> n \<le> int (length bs)"
  "windows_recv S cap c = (Inr bs, c') \<Longrightarrow> length bs \<le> cap"
  by (auto simp: windows_send_def windows_recv_def raiseC_def Let_def split: sum.splits WinRead.splits)

definition windowsOk :: "WindowsConnector \<Rightarrow> bool" where
  "windowsOk c \<longleftrightarrow> \<not> wx_connected c \<or> wx_socket c \<noteq> None"

lemma windows_disconnects:
  "windowsOk c \<Longrightarrow> \<not> wx_connected (windows_disconnect c) \<and> windowsOk (windows_disconnect c)"
  by (auto simp: windowsOk_def windows_disconnect_def)

text \<open>A connector that is not connected stays in order, whatever \<open>connect\<close> meets.\<close>

definition leads :: "(WindowsConnector \<Rightarrow> bool) \<Rightarrow> (WindowsConnector, 'a) conn \<Rightarrow> ('a \<Rightarrow> WindowsConnector \<Rightarrow> bool) \<Rightarrow> bool" where
  "leads P m Q \<longleftrightarrow> (\<forall>c. P c \<longrightarrow> (case m c of (Inl e, c') \<Rightarrow> \<not> wx_connected c' | (Inr x, c') \<Rightarrow> Q x c'))"

lemma leads_bind: "leads P m Q \<Longrightarrow> (\<And>x. leads (Q x) (f x) R) \<Longrightarrow> leads P (bindC m f) R"
  unfolding leads_def bindC_def by (fastforce split: prod.splits sum.splits)

definition off :: "WindowsConnector \<Rightarrow> bool" where
  "off c \<longleftrightarrow> \<not> wx_connected c"

definition ready :: "WindowsConnector \<Rightarrow> bool" where
  "ready c \<longleftrightarrow> \<not> wx_connected c \<and> wx_socket c \<noteq> None"

lemma leads_init: "leads off (initSocket S) (\<lambda>_. ready)"
  by (auto simp: leads_def off_def ready_def initSocket_def raiseC_def Let_def split: InitAnswer.split)

lemma leads_try: "leads ready (tryConnect S v) (\<lambda>_. ready)"
  by (auto simp: leads_def ready_def tryConnect_def raiseC_def split: ConnectAnswer.split)

lemma leads_connected: "leads ready (connectedAs v) (\<lambda>_ c. wx_connected c \<and> wx_socket c \<noteq> None)"
  by (auto simp: leads_def ready_def connectedAs_def)

lemma windows_connect_leads: "leads off (windows_connect S a) (\<lambda>_ c. wx_connected c \<and> wx_socket c \<noteq> None)"
proof -
  have 1: "leads off (\<lambda>c. if wx_socket c = None then initSocket S c else (Inr (), c)) (\<lambda>_. ready)"
    using leads_init [of S] by (auto simp: leads_def off_def ready_def)
  have 2: "leads ready (\<lambda>c. (map_sum Plain (\<lambda>_. ()) (MACStringToLong a), c)) (\<lambda>_. ready)"
    by (cases "MACStringToLong a") (simp_all add: leads_def ready_def)
  have 3: "leads ready (\<lambda>c. initSocket S (c\<lparr>wx_socket := None\<rparr>)) (\<lambda>_. ready)"
    using leads_init [of S] by (auto simp: leads_def off_def ready_def)
  have 4: "leads ready (case x of None \<Rightarrow> connectedAs V2 | Some w \<Rightarrow> raiseC (Recoverable (''Couldn't connect: '' @ w) True))
      (\<lambda>_ c. wx_connected c \<and> wx_socket c \<noteq> None)" for x
    using leads_connected by (cases x) (simp_all add: leads_def raiseC_def ready_def)
  have 5: "leads ready (if x = None then connectedAs V1 else bindC (\<lambda>c. initSocket S (c\<lparr>wx_socket := None\<rparr>)) (\<lambda>_.
        bindC (tryConnect S V2) (\<lambda>failed2. case failed2 of
             None \<Rightarrow> connectedAs V2
           | Some w \<Rightarrow> raiseC (Recoverable (''Couldn't connect: '' @ w) True))))
      (\<lambda>_ c. wx_connected c \<and> wx_socket c \<noteq> None)" for x :: "string option"
    by (simp only: split: if_split)
      (intro conjI impI leads_connected leads_bind [OF 3] leads_bind [OF leads_try] 4)
  show ?thesis
    unfolding windows_connect_def by (intro leads_bind [OF 1] leads_bind [OF 2] leads_bind [OF leads_try] 5)
qed

lemma windows_connect_ok:
  assumes "\<not> wx_connected c" "windows_connect S a c = (r, c')"
  shows "windowsOk c' \<and> (case r of Inr _ \<Rightarrow> wx_connected c' | Inl _ \<Rightarrow> \<not> wx_connected c')"
  using windows_connect_leads [unfolded leads_def, THEN spec, THEN mp, of c S a] assms
  by (cases r) (simp_all add: off_def windowsOk_def)

section \<open>What goes wrong\<close>

text \<open>A failed attempt leaves its socket behind, and the next \<open>connect\<close> asks for the older service on it,
  though a comment in \<open>connect\<close> says that such a socket may be unusable and recreates it only
  before the newer service. A headset of the older generation is then not reached.\<close>

lemma failed_socket_reused:
  assumes "wx_socket c = Some sock" "MACStringToLong a = Inr n" "wy_connect S (wx_asked c) V1 = Refused w1"
    and "wy_socket S (wx_asked c + 1) = SocketMade sock2" "wy_connect S (wx_asked c + 2) V2 = Refused w2"
    and "wy_connect S (wx_asked c + 3) V1 = Refused w3"
    and "wy_socket S (wx_asked c + 4) = SocketMade sock3" "wy_connect S (wx_asked c + 5) V2 = Refused w4"
  shows "wx_attempts (snd (windows_connect S a (snd (windows_connect S a c)))) = wx_attempts c @
    [(Some sock, V1), (Some sock2, V2), (Some sock2, V1), (Some sock3, V2)]"
proof -
  have once: "windows_connect S a d = (Inl (Recoverable (''Couldn't connect: '' @ w') True),
      d\<lparr>wx_socket := Some s', wx_asked := wx_asked d + 3, wx_attempts := wx_attempts d @ [(Some s, V1), (Some s', V2)]\<rparr>)"
    if "wx_socket d = Some s" "wy_connect S (wx_asked d) V1 = Refused w" "wy_socket S (wx_asked d + 1) = SocketMade s'"
      "wy_connect S (wx_asked d + 2) V2 = Refused w'" for d s s' w w'
    using that assms(2)
    by (simp add: windows_connect_def bindC_def tryConnect_def initSocket_def raiseC_def Let_def)
  show ?thesis
    using once [OF assms(1,3,4,5)] assms(6-8)
    by (simp add: once add.commute [of _ "wx_asked c"])
qed

end
