(* ===== verification/MacConnector.thy ===== *)
theory MacConnector
  imports Connector
begin

text \<open>
  \<open>MacOSBluetoothConnector.mm\<close>, the connector of macOS. A connection has a thread of its own, which asks
  for the service, opens the channel, and then serves its delegate until the connection ends. What
  IOBluetooth answers is data, and so is what the delegate is told while a call waits; the
  owner's calls and the delegate's events otherwise come in any order (\<open>macRun\<close>). An
  \<open>openConnection\<close> before is not seen by the connector.
\<close>

section \<open>The connector\<close>

datatype ServiceAnswer = NoRecord | NoChannel | ChannelId nat

text \<open>What the delegate's thread sees: the channel is open at last, it was closed by the headset or
  the system, data.\<close>

datatype MacEvent = ChannelOpen | ChannelClosed | ChannelData "u8 list"

record MacSystem =
  mx_service :: "nat \<Rightarrow> SonyProtocolVersion \<Rightarrow> ServiceAnswer"
  mx_opening :: "nat \<Rightarrow> bool"
  mx_settle :: "nat \<Rightarrow> MacEvent list"
  mx_written :: "nat \<Rightarrow> bool"
  mx_wait :: "nat \<Rightarrow> MacEvent list"
  mx_paired :: "nat \<Rightarrow> (string option \<times> string option) list"

text \<open>\<open>uthread\<close>: not joinable, serving the run loop, over but not joined.\<close>

datatype CommThread = NoThread | Serving | Over

text \<open>\<open>mc_open\<close> is what the channel answers to \<open>isOpen\<close>, no when there is none, and \<open>mc_delegate\<close> says
  whether it has its delegate. Ghosts: \<open>mc_asked\<close>, how often the system was asked, \<open>mc_wire\<close>, what
  it has written, and \<open>mc_died\<close>, that \<open>std::terminate\<close> was called.\<close>

record MacConnector =
  mc_running :: bool
  mc_open :: bool
  mc_delegate :: bool
  mc_receivedBytes :: "u8 list list"
  mc_protocolVersion :: SonyProtocolVersion
  mc_uthread :: CommThread
  mc_asked :: nat
  mc_wire :: "u8 list list"
  mc_died :: bool

definition newMacConnector :: MacConnector where
  "newMacConnector = \<lparr>mc_running = False, mc_open = False, mc_delegate = False, mc_receivedBytes = [],
     mc_protocolVersion = V1, mc_uthread = NoThread, mc_asked = 0, mc_wire = [], mc_died = False\<rparr>"

section \<open>Ending a connection\<close>

definition closeConnection :: "MacConnector \<Rightarrow> MacConnector" where
  "closeConnection c = c\<lparr>mc_delegate := False, mc_open := False\<rparr>"

text \<open>The loop at the end of \<open>connectToMac\<close> ends when \<open>running\<close> is found false.\<close>

definition leaveLoop :: "MacConnector \<Rightarrow> MacConnector" where
  "leaveLoop c = (if mc_uthread c = Serving \<and> \<not> mc_running c then c\<lparr>mc_uthread := Over\<rparr> else c)"

definition joinThread :: "MacConnector \<Rightarrow> MacConnector" where
  "joinThread c = (if mc_uthread c \<noteq> NoThread then c\<lparr>mc_uthread := NoThread\<rparr> else c)"

text \<open>\<open>disconnect\<close>, on the connection's own thread or (\<open>own\<close> is false) on another, which waits for it.\<close>

definition mac_disconnect :: "bool \<Rightarrow> MacConnector \<Rightarrow> MacConnector" where
  "mac_disconnect own c =
     (let c1 = leaveLoop ((closeConnection c)\<lparr>mc_running := False\<rparr>)
      in if own then c1 else joinThread c1)"

definition mac_isConnected :: "MacConnector \<Rightarrow> bool" where
  "mac_isConnected c \<longleftrightarrow> (if \<not> mc_running c then False else mc_open c)"

text \<open>The destructor; destroying a joinable \<open>std::thread\<close> ends the process.\<close>

definition mac_destroy :: "MacConnector \<Rightarrow> MacConnector" where
  "mac_destroy c0 = (let c = (if mac_isConnected c0 then mac_disconnect False c0 else c0)
     in c\<lparr>mc_died := mc_died c \<or> mc_uthread c \<noteq> NoThread\<rparr>)"

section \<open>The delegate\<close>

fun mac_event :: "MacEvent \<Rightarrow> MacConnector \<Rightarrow> MacConnector" where
  "mac_event ChannelOpen c = (if mc_delegate c then c\<lparr>mc_open := True\<rparr> else c)"
| "mac_event ChannelClosed c = (if mc_delegate c then mac_disconnect True c else c)"
| "mac_event (ChannelData bytes) c =
     (if mc_delegate c then c\<lparr>mc_receivedBytes := mc_receivedBytes c @ [bytes]\<rparr> else c)"

fun mac_events :: "MacEvent list \<Rightarrow> MacConnector \<Rightarrow> MacConnector" where
  "mac_events [] c = c"
| "mac_events (e # es) c = mac_events es (mac_event e c)"

section \<open>Connecting\<close>

text \<open>The thread, up to the promise. A thread that failed is over.\<close>

definition connectToMac :: "MacSystem \<Rightarrow> (MacConnector, unit) conn" where
  "connectToMac S c0 =
     (let n = mc_asked c0;
          c = c0\<lparr>mc_asked := n + 1, mc_uthread := Over\<rparr>;
          (record, version) = (if mx_service S n V1 = NoRecord then (mx_service S n V2, V2) else (mx_service S n V1, V1))
      in case record of
          NoRecord \<Rightarrow> (Inl (Recoverable ''Couldn't find the Sony service record on this device (neither protocol version) - is this a supported headset?'' False), c)
        | NoChannel \<Rightarrow> (Inl (Recoverable ''Found the Sony service record, but it has no RFCOMM channel.'' False), c)
        | ChannelId rfcommChannelID \<Rightarrow>
            if \<not> mx_opening S n then (Inl (Recoverable ''Could not open the rfcomm.'' False), c)
            else (Inr (), c\<lparr>mc_delegate := True, mc_open := False, mc_protocolVersion := version,
                 mc_running := True, mc_uthread := Serving\<rparr>))"

text \<open>Assigning to a joinable \<open>uthread\<close> would end the process. The delegate's first events may
  come before the owner goes on.\<close>

definition mac_connect :: "MacSystem \<Rightarrow> string \<Rightarrow> (MacConnector, unit) conn" where
  "mac_connect S addrStr c0 =
     (let c1 = mac_disconnect False c0;
          c2 = (if mc_uthread c1 \<noteq> NoThread then c1\<lparr>mc_died := True\<rparr> else c1)
      in case connectToMac S c2 of
          (Inl e, c3) \<Rightarrow> (Inl e, c3)
        | (Inr _, c3) \<Rightarrow> (Inr (), mac_events (mx_settle S (mc_asked c1)) c3))"

section \<open>Data and devices\<close>

text \<open>What \<open>writeSync\<close> answers is not looked at.\<close>

definition mac_send :: "MacSystem \<Rightarrow> u8 list \<Rightarrow> (MacConnector, int) conn" where
  "mac_send S buf c = (Inr (int (length buf)),
     c\<lparr>mc_asked := mc_asked c + 1,
       mc_wire := (if mx_written S (mc_asked c) then mc_wire c @ [buf] else mc_wire c)\<rparr>)"

text \<open>The wait for data: whether there is some in time.\<close>

fun awaitData :: "MacEvent list \<Rightarrow> MacConnector \<Rightarrow> bool \<times> MacConnector" where
  "awaitData [] c = (mc_receivedBytes c \<noteq> [], c)"
| "awaitData (e # es) c = (if mc_receivedBytes c \<noteq> [] then (True, c) else awaitData es (mac_event e c))"

definition mac_recv :: "MacSystem \<Rightarrow> nat \<Rightarrow> (MacConnector, u8 list) conn" where
  "mac_recv S cap c0 =
     (let (gotData, c) = awaitData (mx_wait S (mc_asked c0)) (c0\<lparr>mc_asked := mc_asked c0 + 1\<rparr>)
      in if \<not> gotData then (Inl (Recoverable ''recv timed out'' False), c)
         else (case mc_receivedBytes c of
             [] \<Rightarrow> (Inr [], c)
           | received # rest \<Rightarrow>
               (Inr (take (min cap (length received)) received),
                c\<lparr>mc_receivedBytes := (if cap < length received then drop (min cap (length received)) received # rest else rest)\<rparr>)))"

definition mac_devices :: "MacSystem \<Rightarrow> (MacConnector, BluetoothDevice list) conn" where
  "mac_devices S c =
     (Inr (map (\<lambda>(addr, name). \<lparr>bd_name = (case name of Some n \<Rightarrow> n | None \<Rightarrow> ''Unknown Device''),
          bd_mac = the addr, bd_paired = None, bd_connected = None\<rparr>)
        (filter (\<lambda>d. fst d \<noteq> None) (mx_paired S (mc_asked c)))),
      c\<lparr>mc_asked := mc_asked c + 1\<rparr>)"

definition macConnector :: "MacSystem \<Rightarrow> MacConnector IBluetoothConnector" where
  "macConnector S =
     \<lparr>bc_send = mac_send S, bc_recv = mac_recv S, bc_connect = mac_connect S,
      bc_disconnect = mac_disconnect False, bc_isConnected = mac_isConnected,
      bc_getConnectedDevices = mac_devices S, bc_getProtocolVersion = mc_protocolVersion\<rparr>"

section \<open>What holds of every run\<close>

text \<open>The owner's calls, on one system, and the delegate's events.\<close>

datatype MacCall = MacConnect string | MacSend "u8 list" | MacRecv nat | MacDisconnect | MacDevices | MacEvent MacEvent

fun macDo :: "MacSystem \<Rightarrow> MacCall \<Rightarrow> MacConnector \<Rightarrow> MacConnector" where
  "macDo S (MacConnect a) c = snd (mac_connect S a c)"
| "macDo S (MacSend bs) c = snd (mac_send S bs c)"
| "macDo S (MacRecv cap) c = snd (mac_recv S cap c)"
| "macDo S MacDisconnect c = mac_disconnect False c"
| "macDo S MacDevices c = snd (mac_devices S c)"
| "macDo S (MacEvent e) c = mac_event e c"

inductive macRun :: "MacSystem \<Rightarrow> MacConnector \<Rightarrow> bool" for S where
  macStart: "macRun S newMacConnector"
| macStep: "macRun S c \<Longrightarrow> macRun S (macDo S call c)"

text \<open>A connection runs while its thread serves, and has its delegate as long; nothing ends the
  process.\<close>

definition macOk :: "MacConnector \<Rightarrow> bool" where
  "macOk c \<longleftrightarrow> (mc_running c \<longleftrightarrow> mc_uthread c = Serving) \<and> (mc_delegate c \<longleftrightarrow> mc_running c) \<and>
     (mc_open c \<longrightarrow> mc_running c) \<and> \<not> mc_died c"

lemmas mac_defs = closeConnection_def leaveLoop_def joinThread_def mac_disconnect_def Let_def

lemma mac_disconnect_ok: "macOk c \<Longrightarrow> macOk (mac_disconnect own c)"
  by (simp add: macOk_def mac_defs)

lemma mac_event_ok: "macOk c \<Longrightarrow> macOk (mac_event e c)"
  by (cases e) (auto simp: macOk_def mac_defs)

lemma mac_events_ok: "macOk c \<Longrightarrow> macOk (mac_events es c)"
  by (induction es arbitrary: c) (simp_all add: mac_event_ok)

lemma awaitData_ok: "macOk c \<Longrightarrow> macOk (snd (awaitData es c))"
  by (induction es arbitrary: c) (simp_all add: mac_event_ok)

text \<open>The owner's disconnect leaves no thread behind, so that a thread is never assigned over
  another.\<close>

lemma mac_disconnected: "mc_uthread (mac_disconnect False c) = NoThread" "\<not> mc_running (mac_disconnect own c)"
  by (simp_all add: mac_defs)

lemma connectToMac_ok:
  assumes "macOk c" "mc_uthread c = NoThread"
  shows "macOk (snd (connectToMac S c))"
  using assms by (auto simp: connectToMac_def macOk_def Let_def split: ServiceAnswer.split)

lemma mac_connect_ok: "macOk c \<Longrightarrow> macOk (snd (mac_connect S a c))"
  using connectToMac_ok [OF mac_disconnect_ok mac_disconnected(1), of c S]
  by (auto simp: mac_connect_def Let_def mac_disconnected mac_events_ok split: prod.splits sum.splits)

lemma mac_recv_ok: "macOk c \<Longrightarrow> macOk (snd (mac_recv S cap c))"
  using awaitData_ok [of "c\<lparr>mc_asked := mc_asked c + 1\<rparr>" "mx_wait S (mc_asked c)"]
  by (auto simp: mac_recv_def macOk_def Let_def split: prod.splits list.splits)

lemma macDo_ok: "macOk c \<Longrightarrow> macOk (macDo S call c)"
  by (cases call) (simp_all add: mac_connect_ok mac_recv_ok mac_disconnect_ok mac_event_ok,
    auto simp: macOk_def mac_send_def mac_devices_def)

theorem macRun_ok: "macRun S c \<Longrightarrow> macOk c"
  by (induction rule: macRun.induct) (simp_all add: macDo_ok, simp add: macOk_def newMacConnector_def)

section \<open>The byte stream\<close>

text \<open>What the delegate takes in from its events: everything before it loses its channel.\<close>

fun arrived :: "bool \<Rightarrow> MacEvent list \<Rightarrow> u8 list" where
  "arrived delegate [] = []"
| "arrived delegate (ChannelOpen # es) = arrived delegate es"
| "arrived delegate (ChannelClosed # es) = arrived False es"
| "arrived delegate (ChannelData bytes # es) = (if delegate then bytes else []) @ arrived delegate es"

lemma event_arrives:
  "concat (mc_receivedBytes (mac_event e c)) @ arrived (mc_delegate (mac_event e c)) es =
   concat (mc_receivedBytes c) @ arrived (mc_delegate c) (e # es)"
proof -
  have "arrived False es = []" for es by (induction "False" es rule: arrived.induct) simp_all
  then show ?thesis by (cases e) (auto simp: mac_defs)
qed

lemma events_arrive:
  "concat (mc_receivedBytes (mac_events es c)) = concat (mc_receivedBytes c) @ arrived (mc_delegate c) es"
  by (induction es arbitrary: c) (simp, simp only: mac_events.simps event_arrives)

lemma awaitData_events:
  obtains k where "snd (awaitData es c) = mac_events (take k es) c"
    "fst (awaitData es c) \<longleftrightarrow> mc_receivedBytes (snd (awaitData es c)) \<noteq> []"
proof (induction es arbitrary: c thesis)
  case Nil
  show ?case by (rule Nil [of 0]) simp_all
next
  case (Cons e es)
  show ?case
  proof (cases "mc_receivedBytes c = []")
    case True
    from Cons.IH [of "mac_event e c"] obtain k where "snd (awaitData es (mac_event e c)) = mac_events (take k es) (mac_event e c)"
      "fst (awaitData es (mac_event e c)) \<longleftrightarrow> mc_receivedBytes (snd (awaitData es (mac_event e c))) \<noteq> []" by blast
    with True show ?thesis by (intro Cons.prems [of "Suc k"]) simp_all
  next
    case False
    then show ?thesis by (intro Cons.prems [of 0]) simp_all
  qed
qed

text \<open>A read takes the oldest bytes, and a read that times out takes none: however the system cuts
  the data, and however the caller sizes its buffers, nothing is lost, repeated or reordered.\<close>

theorem recv_in_order:
  "\<exists>k. (case fst (mac_recv S cap c) of Inl _ \<Rightarrow> [] | Inr bs \<Rightarrow> bs) @ concat (mc_receivedBytes (snd (mac_recv S cap c))) =
    concat (mc_receivedBytes c) @ arrived (mc_delegate c) (take k (mx_wait S (mc_asked c)))"
proof -
  let ?c = "c\<lparr>mc_asked := mc_asked c + 1\<rparr>" and ?es = "mx_wait S (mc_asked c)"
  obtain k where k: "snd (awaitData ?es ?c) = mac_events (take k ?es) ?c"
    "fst (awaitData ?es ?c) \<longleftrightarrow> mc_receivedBytes (snd (awaitData ?es ?c)) \<noteq> []"
    by (rule awaitData_events)
  obtain got d where d: "awaitData ?es ?c = (got, d)" by fastforce
  have "concat (mc_receivedBytes d) = concat (mc_receivedBytes c) @ arrived (mc_delegate c) (take k ?es)"
    using k(1) d events_arrive [of "take k ?es" ?c] by simp
  moreover have "(case fst (mac_recv S cap c) of Inl _ \<Rightarrow> [] | Inr bs \<Rightarrow> bs) @
      concat (mc_receivedBytes (snd (mac_recv S cap c))) = concat (mc_receivedBytes d)"
    using k(2) d by (cases "mc_receivedBytes d") (simp_all add: mac_recv_def min_def)
  ultimately show ?thesis by metis
qed

text \<open>A read is empty, and by that ends the connection of \<open>BluetoothConnectorTransport\<close>, only when the
  delegate was given empty data.\<close>

lemma empty_read_empty_data:
  assumes "mac_recv S cap c = (Inr [], c')" "0 < cap"
  shows "\<exists>d es. awaitData (mx_wait S (mc_asked c)) (c\<lparr>mc_asked := mc_asked c + 1\<rparr>) = (True, d) \<and>
    mc_receivedBytes d = [] # es"
proof -
  obtain got d where d: "awaitData (mx_wait S (mc_asked c)) (c\<lparr>mc_asked := mc_asked c + 1\<rparr>) = (got, d)" by fastforce
  have "got \<longleftrightarrow> mc_receivedBytes d \<noteq> []"
    using awaitData_events [of "mx_wait S (mc_asked c)" "c\<lparr>mc_asked := mc_asked c + 1\<rparr>"] d by fastforce
  with d assms show ?thesis by (auto simp: mac_recv_def split: list.splits if_splits)
qed

section \<open>The contract\<close>

lemma macConnector_simps [simp]:
  "bc_send (macConnector S) = mac_send S" "bc_recv (macConnector S) = mac_recv S"
  "bc_connect (macConnector S) = mac_connect S" "bc_disconnect (macConnector S) = mac_disconnect False"
  "bc_isConnected (macConnector S) = mac_isConnected"
  by (simp_all add: macConnector_def)

lemma mac_bounds:
  "mac_send S bs c = (Inr n, c') \<Longrightarrow> n \<le> int (length bs)"
  "mac_recv S cap c = (Inr bs, c') \<Longrightarrow> length bs \<le> cap"
  by (auto simp: mac_send_def mac_recv_def split: prod.splits list.splits if_splits)

lemma mac_not_connected: "\<not> mac_isConnected (mac_disconnect own c)"
  by (simp add: mac_isConnected_def mac_disconnected)

text \<open>The channel is opened asynchronously: \<open>connect\<close> returns when the request was accepted. The
  contract holds of a system that has the channel open by then.\<close>

definition promptly :: "MacSystem \<Rightarrow> MacSystem" where
  "promptly S = S\<lparr>mx_settle := \<lambda>n. ChannelOpen # filter (\<lambda>e. e \<noteq> ChannelClosed) (mx_settle S n)\<rparr>"

lemma events_stay_open:
  "ChannelClosed \<notin> set es \<Longrightarrow> mc_open c \<Longrightarrow> mc_running c \<Longrightarrow> mac_isConnected (mac_events es c)"
proof (induction es arbitrary: c)
  case (Cons e es)
  then show ?case by (cases e) simp_all
qed (simp add: mac_isConnected_def)

lemma connectToMac_Inr:
  "connectToMac S c = (Inr u, c') \<Longrightarrow> mc_running c' \<and> mc_delegate c' \<and> \<not> mc_open c' \<and>
   mc_receivedBytes c' = mc_receivedBytes c"
  by (auto simp: connectToMac_def Let_def split: ServiceAnswer.splits if_splits)

interpretation mac: connector_laws "macConnector (promptly S)" for S
proof
  fix a c c'
  assume "bc_connect (macConnector (promptly S)) a c = (Inr (), c')"
  then obtain d where "connectToMac (promptly S) (mac_disconnect False c) = (Inr (), d)"
    "c' = mac_events (mx_settle (promptly S) (mc_asked (mac_disconnect False c))) d"
    by (auto simp: mac_connect_def Let_def mac_disconnected split: prod.splits sum.splits)
  then show "bc_isConnected (macConnector (promptly S)) c'"
    using connectToMac_Inr by (auto simp: promptly_def intro!: events_stay_open)
qed (auto simp: mac_not_connected dest: mac_bounds)

section \<open>What goes wrong\<close>

text \<open>Without the channel open in time a connect succeeds and leaves a connector that is not connected.\<close>

lemma connected_too_early:
  assumes "mac_connect S a c = (Inr (), c')" "mx_settle S (mc_asked c) = []"
  shows "\<not> mac_isConnected c' \<and> mc_running c'"
proof -
  have "mc_asked (mac_disconnect False c) = mc_asked c" by (simp add: mac_defs)
  with assms obtain d where "connectToMac S (mac_disconnect False c) = (Inr (), d)" "c' = d"
    by (auto simp: mac_connect_def Let_def mac_disconnected split: prod.splits sum.splits)
  with connectToMac_Inr [of S "mac_disconnect False c" "()" d] show ?thesis by (simp add: mac_isConnected_def)
qed

text \<open>The bytes that an old connection left are the first that a new one delivers.\<close>

lemma old_bytes_first:
  assumes "mac_connect S a c = (Inr (), c')" "mc_receivedBytes c = old # rest" "length old \<le> cap"
    "mx_settle S (mc_asked c) = [ChannelOpen]"
  shows "mac_isConnected c' \<and> fst (mac_recv S cap c') = Inr old"
proof -
  have "mc_asked (mac_disconnect False c) = mc_asked c" "mc_receivedBytes (mac_disconnect False c) = mc_receivedBytes c"
    by (simp_all add: mac_defs)
  with assms obtain d where "connectToMac S (mac_disconnect False c) = (Inr (), d)" "c' = mac_event ChannelOpen d"
    by (auto simp: mac_connect_def Let_def mac_disconnected split: prod.splits sum.splits)
  with connectToMac_Inr [of S "mac_disconnect False c" "()" d] have "mc_receivedBytes c' = old # rest" "mac_isConnected c'"
    using assms(2) by (auto simp: mac_isConnected_def mac_defs)
  moreover from this have "awaitData es (c'\<lparr>mc_asked := n\<rparr>) = (True, c'\<lparr>mc_asked := n\<rparr>)" for es n
    by (cases es) simp_all
  ultimately show ?thesis using assms(3) by (simp add: mac_recv_def)
qed

text \<open>A failed write is reported as done.\<close>

lemma failed_write_reported:
  "\<not> mx_written S (mc_asked c) \<Longrightarrow> fst (mac_send S bs c) = Inr (int (length bs)) \<and> mc_wire (snd (mac_send S bs c)) = mc_wire c"
  by (simp add: mac_send_def)

text \<open>A connector whose last attempt failed, or whose headset hung up, is not connected, and its
  destructor leaves the thread unjoined: destroying it ends the process, unless \<open>disconnect\<close> was
  called before, as \<open>SonyProtocolSession\<close> does.\<close>

lemma destroyed_unjoined: "\<not> mac_isConnected c \<Longrightarrow> mc_uthread c \<noteq> NoThread \<Longrightarrow> mc_died (mac_destroy c)"
  by (simp add: mac_destroy_def)

lemma failed_attempt_unjoined:
  "mac_connect S a c = (Inl e, c') \<Longrightarrow> \<not> mac_isConnected c' \<and> mc_uthread c' \<noteq> NoThread"
  by (auto simp: mac_connect_def connectToMac_def mac_isConnected_def Let_def mac_disconnected
      split: prod.splits sum.splits ServiceAnswer.splits if_splits)

lemma hang_up_unjoined:
  "mc_delegate c \<Longrightarrow> mc_uthread c = Serving \<Longrightarrow>
   \<not> mac_isConnected (mac_event ChannelClosed c) \<and> mc_uthread (mac_event ChannelClosed c) \<noteq> NoThread"
  by (simp add: mac_not_connected) (simp add: mac_defs)

lemma destroyed_after_disconnect: "mc_died (mac_destroy (mac_disconnect False c)) = mc_died c"
  by (simp add: mac_destroy_def mac_not_connected mac_disconnected) (simp add: mac_defs)

end
