(* ===== verification/Platform.thy ===== *)
theory Platform
  imports LinuxConnector WindowsConnector MacConnector ReaderThread
begin

text \<open>
  \<open>PlatformTransport.cpp\<close>: which transport and which discovery each build of the program has. A
  transport is its operations with the object that they start on. Here the upper layers meet
  the lowest one: what \<open>transport_laws\<close> gives to sessions holds on the transport of Linux, which
  keeps them whatever the system answers.
\<close>

section \<open>The builds\<close>

definition linux_createPlatformTransport :: "LinuxConnector.System \<Rightarrow> (LinuxConnector option) ITransport \<times> LinuxConnector option" where
  "linux_createPlatformTransport S = (connectorTransport (linuxConnector S), Some newLinuxConnector)"

definition windows_createPlatformTransport :: "WinSystem \<Rightarrow> (WindowsConnector option) ITransport \<times> WindowsConnector option" where
  "windows_createPlatformTransport S = (connectorTransport (windowsConnector S), Some newWindowsConnector)"

definition macos_createPlatformTransport :: "MacSystem \<Rightarrow> (MacConnector option) ITransport \<times> MacConnector option" where
  "macos_createPlatformTransport S = (connectorTransport (macConnector S), Some newMacConnector)"

definition other_createPlatformTransport :: "FakeTransport ITransport \<times> FakeTransport" where
  "other_createPlatformTransport = (fake_ops, FakeTransport_new)"

definition other_createPlatformDiscovery :: "FakeDeviceDiscovery" where
  "other_createPlatformDiscovery = []"

text \<open>Discovery: of Linux the filtered one, which swallows errors; of Windows and of macOS the
  connector's list as it is.\<close>

definition linux_createPlatformDiscovery :: "LinuxConnector.System \<Rightarrow> (LinuxConnector, FoundDevice list) conn" where
  "linux_createPlatformDiscovery S c =
     (case linux_devices S newLinuxConnector of (answer, _) \<Rightarrow> (Inr (platformDiscover answer), c))"

definition windows_createPlatformDiscovery :: "WinSystem \<Rightarrow> (WindowsConnector option, FoundDevice list) conn" where
  "windows_createPlatformDiscovery S = connectorDiscover (windowsConnector S)"

definition macos_createPlatformDiscovery :: "MacSystem \<Rightarrow> (MacConnector option, FoundDevice list) conn" where
  "macos_createPlatformDiscovery S = connectorDiscover (macConnector S)"

section \<open>Sessions on Linux\<close>

lemma linux_transport: "transport_laws (fst (linux_createPlatformTransport S))"
  unfolding linux_createPlatformTransport_def fst_conv by (rule linux.transport)

interpretation linuxLink: transport_laws "fst (linux_createPlatformTransport S)" for S
  by (rule linux_transport)

text \<open>Whatever sockets, service search and headset answer, and however callers, reader, disconnects
  and connects are interleaved, a session on the transport of Linux keeps its invariant, and
  every response it returned was asked for.\<close>

theorem linux_sessions_safe:
  assumes "sysRun (fst (linux_createPlatformTransport S)) (initSystem (Some (snd (linux_createPlatformTransport S)))) y"
  shows "sessionInv (sy_session y) \<and> answersOk (sy_answers y)"
  using linuxLink.sysInv_run [OF assms sysInv_init] by (simp add: sysInv_def)

text \<open>And the owner of one, waiting for its reader, waits for a bounded number of the reader's steps.
  A step is one read at most, and the socket's time-out bounds a read.\<close>

theorem linux_join_bounded:
  assumes "reach (fst (linux_createPlatformTransport S)) may cbs y"
    and "list_all quiet cbs" "list_all (\<lambda>code. length code \<le> K) cbs" "th_todo y = JoinReader # k"
    and "goAll (fst (linux_createPlatformTransport S)) cs y = Some y'"
    and "allAllowed (fst (linux_createPlatformTransport S)) may cbs cs y" "OwnerStep \<notin> set cs"
  shows "readerSteps cs \<le> remaining K y"
proof -
  have "threadsOk y" using reach_ok [OF assms(1,2)] .
  with assms(4) have "waiting y" by (auto simp: waiting_def threadsOk_def todoOk_def)
  from linuxLink.goAll_waiting [OF this assms(5,6,7,2,3)] show ?thesis by simp
qed

text \<open>The discovery of Linux never throws and reports Sony's devices only.\<close>

lemma linux_discovery:
  "\<exists>ds. linux_createPlatformDiscovery S c = (Inr ds, c) \<and> list_all (isSony \<circ> fd_name) ds"
  by (auto simp: linux_createPlatformDiscovery_def platformDiscover_def list_all_iff split: prod.split sum.split)

section \<open>Sessions on macOS\<close>

text \<open>The same holds where the channel is open in time; where it is not, the session's \<open>connect\<close> fails on
  a transport that has just reported success.\<close>

interpretation macLink: transport_laws "fst (macos_createPlatformTransport (promptly S))" for S
  unfolding macos_createPlatformTransport_def fst_conv by (rule mac.transport)

theorem macos_sessions_safe:
  assumes "sysRun (fst (macos_createPlatformTransport (promptly S))) (initSystem (Some (snd (macos_createPlatformTransport S)))) y"
  shows "sessionInv (sy_session y) \<and> answersOk (sy_answers y)"
  using macLink.sysInv_run [OF assms sysInv_init] by (simp add: sysInv_def)

lemma macos_connect_too_early:
  assumes "mac_connect S a c = (Inr (), c')" "mx_settle S (mc_asked c) = []"
  shows "fst (session_connect (fst (macos_createPlatformTransport S)) a (newSession (Some (Some c)))) =
    Inl (SonyException Disconnected ''Transport is not connected'')"
proof -
  from connected_too_early [OF assms] have "\<not> mac_isConnected c'" ..
  then show ?thesis
    using assms(1) by (simp add: macos_createPlatformTransport_def session_connect_def newSession_def isConnected_def
        session_start_def ct_connect_def ct_isConnected_def prog_simps)
qed

end
