(* ===== verification/Capability.thy ===== *)
theory Capability
  imports SonyDevice
begin

text \<open>
  \<open>CapabilityCache\<close> and \<open>CapabilityDiscovery\<close>: what an unknown headset can do is found out by
  asking it for each feature once, and kept under a key in a map that may be stored in a
  text file.

  The cache's mutex is not recursive. An operation that locks it twice never returns: its
  result is \<open>None\<close>. The file is its content, \<open>None\<close> when there is none; \<open>cc_writable\<close> says
  whether it can be opened for writing. Files are written in the order in which the hash map is
  traversed, which is left open.
\<close>

section \<open>Capabilities as text\<close>

definition capabilityBits :: "DeviceCapabilities \<Rightarrow> bool list" where
  "capabilityBits c =
     [cap_battery c, cap_dualBattery c, cap_noiseCancelling c, cap_ambientSound c, cap_focusOnVoice c,
      cap_equalizer c, cap_clearBass c, cap_dsee c, cap_speakToChat c, cap_adaptiveVolume c,
      cap_autoPowerOff c, cap_firmwareInfo c, cap_codecInfo c, cap_wearSensor c, cap_multipoint c]"

fun withCommas :: "string list \<Rightarrow> string" where
  "withCommas [] = ''''"
| "withCommas [s] = s"
| "withCommas (s # ss) = s @ '','' @ withCommas ss"

definition serializeCapabilities :: "DeviceCapabilities \<Rightarrow> string" where
  "serializeCapabilities caps = withCommas (map (\<lambda>b. if b then ''1'' else ''0'') (capabilityBits caps))"

text \<open>\<open>std::getline\<close> with a delimiter until it fails; \<open>cur\<close> is what was read of the next piece.\<close>

fun getlines :: "char \<Rightarrow> string \<Rightarrow> string \<Rightarrow> string list" where
  "getlines d cur [] = (if cur = [] then [] else [cur])"
| "getlines d cur (c # cs) = (if c = d then cur # getlines d [] cs else getlines d (cur @ [c]) cs)"

definition deserializeCapabilities :: "string \<Rightarrow> DeviceCapabilities option" where
  "deserializeCapabilities str =
     (let bits = map (\<lambda>token. token = ''1'') (getlines (CHR '','') [] str) in
      if length bits < 15 then None
      else Some (noCaps\<lparr>cap_battery := bits ! 0, cap_dualBattery := bits ! 1, cap_noiseCancelling := bits ! 2,
        cap_ambientSound := bits ! 3, cap_focusOnVoice := bits ! 4, cap_equalizer := bits ! 5,
        cap_clearBass := bits ! 6, cap_dsee := bits ! 7, cap_speakToChat := bits ! 8,
        cap_adaptiveVolume := bits ! 9, cap_autoPowerOff := bits ! 10, cap_firmwareInfo := bits ! 11,
        cap_codecInfo := bits ! 12, cap_wearSensor := bits ! 13, cap_multipoint := bits ! 14\<rparr>))"

section \<open>The cache\<close>

record CapabilityCache =
  cc_storagePath :: string
  cc_cache :: "string \<rightharpoonup> DeviceCapabilities"
  cc_file :: "string option"
  cc_writable :: bool

definition makeKey :: "SonyModel \<Rightarrow> string \<Rightarrow> string \<Rightarrow> string" where
  "makeKey model firmwareVersion address =
     to_string_model model @
     (if firmwareVersion \<noteq> '''' then ''@'' @ firmwareVersion else '''') @
     (if address \<noteq> '''' then ''#'' @ address else '''')"

definition cache_get :: "CapabilityCache \<Rightarrow> string \<Rightarrow> DeviceCapabilities option" where
  "cache_get s key = cc_cache s key"

definition cache_has :: "CapabilityCache \<Rightarrow> string \<Rightarrow> bool" where
  "cache_has s key \<longleftrightarrow> cc_cache s key \<noteq> None"

definition cache_size :: "CapabilityCache \<Rightarrow> nat" where
  "cache_size s = card (dom (cc_cache s))"

text \<open>One line of the file.\<close>

definition cacheLine :: "string \<times> DeviceCapabilities \<Rightarrow> string" where
  "cacheLine = (\<lambda>(key, caps). key @ ''='' @ serializeCapabilities caps @ [CHR 0x0A])"

text \<open>\<open>saveToFile\<close>, called with the mutex held or not; \<open>listing\<close> are the entries in the order of
  the traversal. Opening the file empties it, before the mutex is asked for.\<close>

definition saveToFile ::
    "bool \<Rightarrow> (string \<times> DeviceCapabilities) list \<Rightarrow> CapabilityCache \<Rightarrow> (bool \<times> CapabilityCache) option" where
  "saveToFile locked listing s =
     (if \<not> cc_writable s then Some (False, s)
      else if locked then None
      else Some (True, s\<lparr>cc_file := Some (concat (map cacheLine listing))\<rparr>))"

definition cache_put ::
    "string \<Rightarrow> DeviceCapabilities \<Rightarrow> (string \<times> DeviceCapabilities) list \<Rightarrow> CapabilityCache \<Rightarrow> CapabilityCache option" where
  "cache_put key caps listing s =
     (let s1 = s\<lparr>cc_cache := (cc_cache s)(key \<mapsto> caps)\<rparr> in
      if cc_storagePath s1 \<noteq> '''' then map_option snd (saveToFile True listing s1) else Some s1)"

definition cache_clear :: "CapabilityCache \<Rightarrow> CapabilityCache option" where
  "cache_clear s =
     (let s1 = s\<lparr>cc_cache := Map.empty\<rparr> in
      if cc_storagePath s1 \<noteq> '''' then map_option snd (saveToFile True [] s1) else Some s1)"

text \<open>The loop of \<open>loadFromFile\<close> over the lines.\<close>

fun loadLines :: "string list \<Rightarrow> (string \<rightharpoonup> DeviceCapabilities) \<Rightarrow> (string \<rightharpoonup> DeviceCapabilities)" where
  "loadLines [] loaded = loaded"
| "loadLines (line # rest) loaded =
     loadLines rest
       (if line = [] \<or> hd line = CHR ''#'' then loaded
        else if CHR ''='' \<in> set line
        then let key = takeWhile (\<lambda>c. c \<noteq> CHR ''='') line; val = tl (dropWhile (\<lambda>c. c \<noteq> CHR ''='') line)
          in (case deserializeCapabilities val of Some caps \<Rightarrow> loaded(key \<mapsto> caps) | None \<Rightarrow> loaded)
        else loaded)"

definition loadFromFile :: "CapabilityCache \<Rightarrow> bool \<times> CapabilityCache" where
  "loadFromFile s = (case cc_file s of
      None \<Rightarrow> (False, s)
    | Some content \<Rightarrow> (True, s\<lparr>cc_cache := loadLines (getlines (CHR 0x0A) [] content) Map.empty\<rparr>))"

text \<open>The constructor with a storage path.\<close>

definition newCache :: "string \<Rightarrow> string option \<Rightarrow> bool \<Rightarrow> CapabilityCache" where
  "newCache path file writable =
     (let s = \<lparr>cc_storagePath = path, cc_cache = Map.empty, cc_file = file, cc_writable = writable\<rparr> in
      if path \<noteq> '''' \<and> file \<noteq> None then snd (loadFromFile s) else s)"

section \<open>Discovery\<close>

text \<open>One probe: what its answer adds, nothing when it throws a \<open>SonyException\<close>.\<close>

definition probe ::
    "('s, 'a) prog \<Rightarrow> ('a \<Rightarrow> DeviceCapabilities \<Rightarrow> DeviceCapabilities) \<Rightarrow> DeviceCapabilities \<Rightarrow> ('s, DeviceCapabilities) prog" where
  "probe m upd caps = catchSony (bindP m (\<lambda>x. returnP (upd x caps))) (\<lambda>_ _. returnP caps)"

definition noteBattery :: "BatteryState \<Rightarrow> DeviceCapabilities \<Rightarrow> DeviceCapabilities" where
  "noteBattery b caps =
     (if bt_main b \<noteq> None \<or> bt_left b \<noteq> None
      then caps\<lparr>cap_battery := True,
             cap_dualBattery := (if bt_left b \<noteq> None \<and> bt_right b \<noteq> None then True else cap_dualBattery caps)\<rparr>
      else caps)"

definition askFirmware :: "'s IProtocol \<Rightarrow> ('s, string) prog" where
  "askFirmware P = catchSony (ip_getFirmwareVersion P) (\<lambda>_ _. returnP '''')"

definition probeCapabilities :: "'s IProtocol \<Rightarrow> ('s, string \<times> DeviceCapabilities) prog" where
  "probeCapabilities P =
     bindP (askFirmware P) (\<lambda>firmware.
     bindP (probe (ip_getCodec P) (\<lambda>codec c. if codec \<noteq> '''' then c\<lparr>cap_codecInfo := True\<rparr> else c)
             (if firmware \<noteq> '''' then noCaps\<lparr>cap_firmwareInfo := True\<rparr> else noCaps)) (\<lambda>c.
     bindP (probe (ip_getBattery P) noteBattery c) (\<lambda>c.
     bindP (probe (ip_getNoiseControl P)
             (\<lambda>_ c. c\<lparr>cap_noiseCancelling := True, cap_ambientSound := True, cap_focusOnVoice := True\<rparr>) c) (\<lambda>c.
     bindP (probe (ip_getEqualizer P) (\<lambda>_ c. c\<lparr>cap_equalizer := True, cap_clearBass := True\<rparr>) c) (\<lambda>c.
     bindP (probe (ip_getDsee P) (\<lambda>_ c. c\<lparr>cap_dsee := True\<rparr>) c) (\<lambda>c.
     bindP (probe (ip_getSpeakToChat P) (\<lambda>_ c. c\<lparr>cap_speakToChat := True\<rparr>) c) (\<lambda>c.
     bindP (probe (ip_getAdaptiveVolume P) (\<lambda>_ c. c\<lparr>cap_adaptiveVolume := True\<rparr>) c) (\<lambda>c.
     bindP (probe (ip_getAutoPowerOff P) (\<lambda>_ c. c\<lparr>cap_autoPowerOff := True\<rparr>) c) (\<lambda>c.
     returnP (firmware, c))))))))))"

text \<open>\<open>probeDevice\<close> and \<open>discover\<close>, on the link and the cache; \<open>None\<close> when storing the result
  does not return.\<close>

type_synonym 's discovery = "((exn + DeviceCapabilities) \<times> 's \<times> CapabilityCache) option"

definition probeDevice ::
    "'s IProtocol \<Rightarrow> SonyModel \<Rightarrow> string \<Rightarrow> (string \<times> DeviceCapabilities) list \<Rightarrow> 's \<Rightarrow> CapabilityCache \<Rightarrow> 's discovery" where
  "probeDevice P model address listing s cache = (case probeCapabilities P s of
      (Inl e, s') \<Rightarrow> Some (Inl e, s', cache)
    | (Inr (firmware, caps), s') \<Rightarrow>
        map_option (\<lambda>cache'. (Inr caps, s', cache')) (cache_put (makeKey model firmware address) caps listing cache))"

definition discover ::
    "'s IProtocol \<Rightarrow> string \<Rightarrow> string \<Rightarrow> (string \<times> DeviceCapabilities) list \<Rightarrow> 's \<Rightarrow> CapabilityCache \<Rightarrow> 's discovery" where
  "discover P deviceName address listing s cache =
     (let model = identifyModel deviceName in
      case (if isKnownDevice model then getProfile model else None) of
        Some profile \<Rightarrow> Some (Inr (pf_capabilities profile), s, cache)
      | None \<Rightarrow>
          (case cache_get cache (makeKey model '''' address) of
             Some caps \<Rightarrow> Some (Inr caps, s, cache)
           | None \<Rightarrow> probeDevice P model address listing s cache))"

section \<open>The file\<close>

lemma getlines_line:
  "d \<notin> set l \<Longrightarrow> getlines d cur (l @ d # rest) = (cur @ l) # getlines d [] rest"
  by (induction l arbitrary: cur) auto

lemma getlines_end: "d \<notin> set l \<Longrightarrow> getlines d cur l = (if cur @ l = [] then [] else [cur @ l])"
  by (induction l arbitrary: cur) auto

lemma getlines_last: "d \<notin> set l \<Longrightarrow> l \<noteq> [] \<Longrightarrow> getlines d cur l = [cur @ l]"
  by (simp add: getlines_end)

lemma getlines_lines:
  "list_all (\<lambda>l. d \<notin> set l) ls \<Longrightarrow> getlines d [] (concat (map (\<lambda>l. l @ [d]) ls)) = ls"
  by (induction ls) (simp_all add: getlines_line)

lemma getlines_commas:
  "list_all (\<lambda>s. s \<noteq> '''' \<and> CHR '','' \<notin> set s) ss \<Longrightarrow> getlines (CHR '','') [] (withCommas ss) = ss"
  by (induction ss rule: withCommas.induct) (simp_all add: getlines_line getlines_last)

text \<open>What the file keeps of capabilities: everything but the resets.\<close>

definition storable :: "DeviceCapabilities \<Rightarrow> DeviceCapabilities" where
  "storable c = c\<lparr>cap_reset := False, cap_factoryReset := False\<rparr>"

lemma deserialize_serialize: "deserializeCapabilities (serializeCapabilities c) = Some (storable c)"
proof -
  have bits: "map (\<lambda>t. t = ''1'') (getlines (CHR '','') [] (serializeCapabilities c)) = capabilityBits c"
    unfolding serializeCapabilities_def
    by (subst getlines_commas) (auto simp: list_all_iff capabilityBits_def)
  show ?thesis
    by (simp add: deserializeCapabilities_def bits) (simp add: capabilityBits_def storable_def noCaps_def)
qed

lemma storable_resets: "\<not> cap_reset (storable c)" "\<not> cap_factoryReset (storable c)"
  by (simp_all add: storable_def)

lemma deserialize_no_resets:
  "deserializeCapabilities str = Some c \<Longrightarrow> storable c = c"
  by (auto simp: deserializeCapabilities_def storable_def noCaps_def Let_def split: if_splits)

text \<open>A key that survives the file.\<close>

definition goodKey :: "string \<Rightarrow> bool" where
  "goodKey k \<longleftrightarrow> k \<noteq> '''' \<and> hd k \<noteq> CHR ''#'' \<and> CHR ''='' \<notin> set k \<and> CHR 0x0A \<notin> set k"

lemma makeKey_good:
  assumes "CHR ''='' \<notin> set fw" "CHR 0x0A \<notin> set fw" "CHR ''='' \<notin> set address" "CHR 0x0A \<notin> set address"
  shows "goodKey (makeKey model fw address)"
  using assms by (cases model) (auto simp: goodKey_def makeKey_def)

lemma serialize_plain: "CHR 0x0A \<notin> set (serializeCapabilities c)"
proof -
  have "set (withCommas ss) \<subseteq> insert (CHR '','') (\<Union> (set ` set ss))" for ss
    by (induction ss rule: withCommas.induct) auto
  from this [of "map (\<lambda>b. if b then ''1'' else ''0'') (capabilityBits c)"] show ?thesis
    unfolding serializeCapabilities_def by (auto split: if_splits)
qed

lemma split_at_first:
  "x \<notin> set k \<Longrightarrow> takeWhile (\<lambda>c. c \<noteq> x) (k @ x # v) = k"
  "x \<notin> set k \<Longrightarrow> dropWhile (\<lambda>c. c \<noteq> x) (k @ x # v) = x # v"
  by (induction k) auto

lemma load_line:
  assumes "goodKey k"
  shows "loadLines ((k @ ''='' @ serializeCapabilities c) # rest) m = loadLines rest (m(k \<mapsto> storable c))"
proof -
  have "hd (k @ CHR ''='' # v) \<noteq> CHR ''#''" for v using assms by (cases k) (auto simp: goodKey_def)
  with assms show ?thesis
    by (simp add: goodKey_def split_at_first deserialize_serialize Let_def)
qed

lemma load_listing:
  assumes "list_all (\<lambda>(k, c). goodKey k) listing" "distinct (map fst listing)"
  shows "loadLines (map (\<lambda>(k, c). k @ ''='' @ serializeCapabilities c) listing) m =
    m ++ (map_option storable \<circ> map_of listing)"
  using assms
proof (induction listing arbitrary: m)
  case (Cons kc listing)
  obtain k c where kc: "kc = (k, c)" by fastforce
  have new: "map_of listing k = None" using Cons.prems(2) by (simp add: kc map_of_eq_None_iff)
  have "loadLines (map (\<lambda>(k, c). k @ ''='' @ serializeCapabilities c) (kc # listing)) m =
      loadLines (map (\<lambda>(k, c). k @ ''='' @ serializeCapabilities c) listing) (m(k \<mapsto> storable c))"
    using load_line [of k c] Cons.prems(1) by (simp only: kc list.map prod.case list.pred_inject)
  also have "\<dots> = m(k \<mapsto> storable c) ++ (map_option storable \<circ> map_of listing)"
    using Cons.prems by (intro Cons.IH) (simp_all add: kc)
  also have "\<dots> = m ++ (map_option storable \<circ> map_of (kc # listing))"
    using new by (auto simp: fun_eq_iff map_add_def kc split: option.split)
  finally show ?case .
qed (simp add: fun_eq_iff map_add_def)

text \<open>C31: The cache survives its file. Saving writes the file whatever the order in which the hash
  map is traversed, and a new cache that starts from that file holds exactly the same entries
  when their keys hold no equals sign and no line end and do not start with \<open>#\<close>, as the keys of
  every model do for such firmware texts and addresses. The permissions to reset are the
  exception: they are never stored, and no file, whatever is in it, makes a cache grant one.\<close>

theorem cache_file_roundtrip:
  assumes "map_of listing = cc_cache s" "distinct (map fst listing)" "list_all (\<lambda>(k, c). goodKey k) listing"
    and "cc_writable s" "cc_storagePath s \<noteq> ''''"
  shows "(case saveToFile False listing s of
      Some (True, s') \<Rightarrow> cc_cache s' = cc_cache s \<and>
        cc_cache (newCache (cc_storagePath s) (cc_file s') w) = map_option storable \<circ> cc_cache s
    | _ \<Rightarrow> False) \<and>
    (\<forall>k. case cc_cache (newCache path (Some content) w) k of
        Some c \<Rightarrow> \<not> cap_reset c \<and> \<not> cap_factoryReset c | None \<Rightarrow> True)"
proof -
  let ?lines = "map (\<lambda>(k, c). k @ ''='' @ serializeCapabilities c) listing"
  have written: "concat (map cacheLine listing) = concat (map (\<lambda>l. l @ [CHR 0x0A]) ?lines)"
    by (induction listing) (auto simp: cacheLine_def)
  have "list_all (\<lambda>l. CHR 0x0A \<notin> set l) ?lines"
    using assms(3) serialize_plain by (auto simp: list_all_iff goodKey_def)
  then have "getlines (CHR 0x0A) [] (concat (map cacheLine listing)) = ?lines"
    unfolding written by (rule getlines_lines)
  then have loaded: "loadLines (getlines (CHR 0x0A) [] (concat (map cacheLine listing))) Map.empty =
      map_option storable \<circ> cc_cache s"
    using load_listing [OF assms(3,2), of Map.empty] by (simp add: assms(1))
  have "(\<forall>k c. m k = Some c \<longrightarrow> storable c = c) \<Longrightarrow> loadLines ls m k = Some c \<Longrightarrow> storable c = c" for ls m k c
    by (induction ls m rule: loadLines.induct)
      (auto simp: Let_def split: if_splits option.splits dest: deserialize_no_resets)
  then have safe: "storable c = c" if "loadLines ls Map.empty k = Some c" for ls k c
    using that by (metis option.distinct(1))
  have "\<not> cap_reset c \<and> \<not> cap_factoryReset c" if "storable c = c" for c
    using that by (metis storable_resets)
  with safe have "\<forall>k. case cc_cache (newCache path (Some content) w) k of
        Some c \<Rightarrow> \<not> cap_reset c \<and> \<not> cap_factoryReset c | None \<Rightarrow> True"
    by (auto simp: newCache_def loadFromFile_def Let_def split: option.split)
  with assms(4,5) loaded show ?thesis
    by (simp add: saveToFile_def newCache_def loadFromFile_def)
qed

definition noCache :: CapabilityCache where
  "noCache = \<lparr>cc_storagePath = ''f'', cc_cache = Map.empty(''WH-1000XM4#A'' \<mapsto> noCaps\<lparr>cap_dsee := True\<rparr>),
     cc_file = None, cc_writable = True\<rparr>"

theorem cache_file_roundtrip_witness:
  "\<exists>s'. saveToFile False [(''WH-1000XM4#A'', noCaps\<lparr>cap_dsee := True\<rparr>)] noCache = Some (True, s') \<and>
     cc_cache (newCache ''f'' (cc_file s') True) = map_option storable \<circ> cc_cache noCache"
proof -
  have "cc_storagePath noCache = ''f''" "cc_writable noCache"
    "map_of [(''WH-1000XM4#A'', noCaps\<lparr>cap_dsee := True\<rparr>)] = cc_cache noCache"
    by (simp_all add: noCache_def)
  with cache_file_roundtrip [of "[(''WH-1000XM4#A'', noCaps\<lparr>cap_dsee := True\<rparr>)]" noCache True "''f''" "''x''"]
  show ?thesis by (auto simp: goodKey_def saveToFile_def)
qed

section \<open>What goes wrong\<close>

text \<open>Storing into a cache with a file that can be written never returns, and \<open>clear\<close> neither;
  a file that cannot be opened hides the mistake.\<close>

lemma put_deadlocks:
  "cache_put key caps listing s = None \<longleftrightarrow> cc_storagePath s \<noteq> '''' \<and> cc_writable s"
  "cache_clear s = None \<longleftrightarrow> cc_storagePath s \<noteq> '''' \<and> cc_writable s"
  by (simp_all add: cache_put_def cache_clear_def saveToFile_def Let_def)

lemma put_stores:
  "cache_put key caps listing s = Some s' \<Longrightarrow> s' = s\<lparr>cc_cache := (cc_cache s)(key \<mapsto> caps)\<rparr>"
  by (auto simp: cache_put_def saveToFile_def Let_def split: if_splits)

text \<open>The key under which a result is stored with a firmware version is never the one that is
  looked for.\<close>

lemma key_needs_no_firmware: "fw \<noteq> '''' \<Longrightarrow> makeKey model fw address \<noteq> makeKey model '''' address'"
  by (auto simp: makeKey_def)

section \<open>Probing\<close>

definition yields :: "('a \<Rightarrow> bool) \<Rightarrow> ('s, 'a) prog \<Rightarrow> bool" where
  "yields Q m \<longleftrightarrow> (\<forall>s. case fst (m s) of Inl e \<Rightarrow> \<exists>w. e = StdException w | Inr x \<Rightarrow> Q x)"

lemma yields_bind: "yields Q m \<Longrightarrow> (\<And>x. Q x \<Longrightarrow> yields R (f x)) \<Longrightarrow> yields R (bindP m f)"
  unfolding yields_def
proof
  fix s
  assume m: "\<forall>s. case fst (m s) of Inl e \<Rightarrow> \<exists>w. e = StdException w | Inr x \<Rightarrow> Q x"
    and f: "\<And>x. Q x \<Longrightarrow> \<forall>s. case fst (f x s) of Inl e \<Rightarrow> \<exists>w. e = StdException w | Inr x \<Rightarrow> R x"
  obtain r s' where ms: "m s = (r, s')" by fastforce
  with m [THEN spec, of s] f [THEN spec, of _ s']
  show "case fst (bindP m f s) of Inl e \<Rightarrow> \<exists>w. e = StdException w | Inr x \<Rightarrow> R x"
    by (cases r) (simp_all add: bindP_def ms)
qed

lemma yields_probe: "Q c \<Longrightarrow> (\<And>x. Q (upd x c)) \<Longrightarrow> yields Q (probe m upd c)"
  unfolding yields_def probe_def by (auto simp: prog_simps split: sum.split prod.split exn.split)

lemma yields_firmware: "yields (\<lambda>_. True) (askFirmware P)"
  unfolding yields_def askFirmware_def by (auto simp: prog_simps split: sum.split prod.split exn.split)

lemma yields_return: "Q x \<Longrightarrow> yields Q (returnP x)"
  by (simp add: yields_def returnP_def)

definition noResets :: "DeviceCapabilities \<Rightarrow> bool" where
  "noResets c \<longleftrightarrow> \<not> cap_reset c \<and> \<not> cap_factoryReset c"

lemma noResets_noCaps [simp]: "noResets noCaps"
  by (simp add: noResets_def noCaps_def)

lemma yields_ask:
  assumes "noResets c" "\<And>x c. noResets c \<Longrightarrow> noResets (upd x c)"
    and "\<And>c. noResets c \<Longrightarrow> yields R (f c)"
  shows "yields R (bindP (probe m upd c) f)"
  using yields_bind [OF yields_probe [of noResets c upd m]] assms by blast

lemma probing_yields: "yields (\<lambda>(fw, c). noResets c) (probeCapabilities P)"
  unfolding probeCapabilities_def
  by (intro yields_bind [OF yields_firmware] yields_ask yields_return)
    (auto simp: noResets_def noteBattery_def noCaps_def)

lemma emits_probe [emits_intros]: "emits obs ok m \<Longrightarrow> emits obs ok (probe m upd c)"
  unfolding probe_def by (intro emits_intros)

lemma probing_emits: "emits mdrSent (protoSafe v) (probeCapabilities (protocolFor E v))"
  unfolding probeCapabilities_def askFirmware_def by (intro emits_intros device_emits)


end
