(* ===== verification/LegacyWire.thy ===== *)
theory LegacyWire
  imports Connector FrameCodec
begin

text \<open>
  The wire side of the older client: \<open>CommandSerializer\<close>, which puts commands into frames and takes
  answers out of them, and \<open>BluetoothWrapper\<close>, which sends a command over a connector and reads
  messages until the answer comes.

  The wrapper holds its mutex from the start to the end of each operation, so an operation is one
  step. A connector that keeps delivering nothing without throwing keeps \<open>_readMessage\<close> in its loop
  for ever: programs here give \<open>None\<close> when they do not return. \<open>char\<close> is signed, as on the
  platforms the code is built for.
\<close>

section \<open>Programs that may not return\<close>

type_synonym ('s, 'a) lprog = "'s \<Rightarrow> ((connExn + 'a) \<times> 's) option"

definition returnL :: "'a \<Rightarrow> ('s, 'a) lprog" where
  "returnL x = (\<lambda>s. Some (Inr x, s))"

definition raiseL :: "connExn \<Rightarrow> ('s, 'a) lprog" where
  "raiseL e = (\<lambda>s. Some (Inl e, s))"

definition bindL :: "('s, 'a) lprog \<Rightarrow> ('a \<Rightarrow> ('s, 'b) lprog) \<Rightarrow> ('s, 'b) lprog" where
  "bindL m f = (\<lambda>s. case m s of
      None \<Rightarrow> None
    | Some (Inl e, s') \<Rightarrow> Some (Inl e, s')
    | Some (Inr x, s') \<Rightarrow> f x s')"

text \<open>\<open>try \<dots> catch (...) {}\<close>.\<close>

definition tryL :: "('s, unit) lprog \<Rightarrow> ('s, unit) lprog" where
  "tryL m = (\<lambda>s. case m s of None \<Rightarrow> None | Some (_, s') \<Rightarrow> Some (Inr (), s'))"

definition modifyL :: "('s \<Rightarrow> 's) \<Rightarrow> ('s, unit) lprog" where
  "modifyL f = (\<lambda>s. Some (Inr (), f s))"

definition liftL :: "connExn + 'a \<Rightarrow> ('s, 'a) lprog" where
  "liftL r = (\<lambda>s. Some (r, s))"

section \<open>CommandSerializer\<close>

record Message =
  msg_dataType :: DataType
  msg_seqNumber :: u8
  msg_payload :: "u8 list"

definition packageDataForBt :: "u8 list \<Rightarrow> DataType \<Rightarrow> u32 \<Rightarrow> connExn + u8 list" where
  "packageDataForBt src dataType seqNumber =
     map_sum Plain id (encode (mkFrame dataType (ucast seqNumber) src))"

definition unpackBtMessage :: "u8 list \<Rightarrow> connExn + Message" where
  "unpackBtMessage src = (case decodeBody src of
      Inr f \<Rightarrow> Inr \<lparr>msg_dataType = fr_type f, msg_seqNumber = fr_seq f, msg_payload = fr_payload f\<rparr>
    | Inl (SonyException c w) \<Rightarrow>
        if c = InvalidChecksum then Inl (Recoverable ''Invalid checksum!'' True)
        else if c = InvalidFrame \<and> containsStr ''declared size'' w
        then Inl (Recoverable ''Invalid message: declared size exceeds received data'' True)
        else Inl (Plain (SonyException c w))
    | Inl (StdException w) \<Rightarrow> Inl (Plain (StdException w)))"

text \<open>The values of the enumerations are their bytes. \<open>getDualSingleForAsmLevel\<close>: OFF, SINGLE and DUAL
  are 0, 1 and 2.\<close>

definition getDualSingleForAsmLevel :: "u8 \<Rightarrow> exn + u8" where
  "getDualSingleForAsmLevel asmLevel =
     (if 19 < sint asmLevel then Inl (StdException ''Exceeded max steps'')
      else Inr (if asmLevel = 1 then 1 else if asmLevel = 0 then 2 else 0))"

definition serializeNcAndAsmSetting :: "u8 \<Rightarrow> u8 \<Rightarrow> u8 \<Rightarrow> u8 \<Rightarrow> u8 \<Rightarrow> exn + u8 list" where
  "serializeNcAndAsmSetting ncAsmEffect ncAsmSettingType asmSettingType asmId asmLevel =
     map_sum id (\<lambda>dual. [104, 2, ncAsmEffect, ncAsmSettingType, dual, asmSettingType, asmId, asmLevel])
       (getDualSingleForAsmLevel asmLevel)"

definition serializeNcAndAsmSettingV2 :: "u8 \<Rightarrow> u8 \<Rightarrow> u8 \<Rightarrow> u8 \<Rightarrow> u8 list" where
  "serializeNcAndAsmSettingV2 ncAsmEffect ncAsmSettingType voicePassthrough asmLevel =
     [104, 0x17, 0x01, ncAsmEffect, ncAsmSettingType, voicePassthrough, asmLevel]"

definition serializeVPTSetting :: "u8 \<Rightarrow> u8 \<Rightarrow> u8 list" where
  "serializeVPTSetting type preset = [72, type, preset]"

section \<open>BluetoothWrapper\<close>

record 'c Wrapper =
  wr_connector :: 'c
  wr_seqNumber :: u32
  wr_leftoverBytes :: "u8 list"

definition MAX_BLUETOOTH_MESSAGE_SIZE :: nat where [simp]: "MAX_BLUETOOTH_MESSAGE_SIZE = 2048"

definition onConnector :: "('c, 'a) conn \<Rightarrow> ('c Wrapper, 'a) lprog" where
  "onConnector m w = (let (r, c) = m (wr_connector w) in Some (r, w\<lparr>wr_connector := c\<rparr>))"

text \<open>The next bytes: those left over from an earlier read, or else a read. A result of 0 or less is
  no bytes.\<close>

definition readChunk :: "'c IBluetoothConnector \<Rightarrow> 'c Wrapper \<Rightarrow> (connExn + u8 list) \<times> 'c Wrapper" where
  "readChunk C w =
     (if wr_leftoverBytes w \<noteq> []
      then (Inr (take MAX_BLUETOOTH_MESSAGE_SIZE (wr_leftoverBytes w)),
            w\<lparr>wr_leftoverBytes := drop MAX_BLUETOOTH_MESSAGE_SIZE (wr_leftoverBytes w)\<rparr>)
      else let (r, c) = bc_recv C MAX_BLUETOOTH_MESSAGE_SIZE (wr_connector w) in (r, w\<lparr>wr_connector := c\<rparr>))"

text \<open>The loop over the bytes of one read; \<open>acc\<close> are those since \<open>messageStart\<close>.\<close>

datatype Scan = TwoStarts | Unfinished "u8 list" bool | Finished "u8 list" "u8 list"

fun scanChunk :: "bool \<Rightarrow> u8 list \<Rightarrow> u8 list \<Rightarrow> Scan" where
  "scanChunk ongoing acc [] = Unfinished acc ongoing"
| "scanChunk ongoing acc (b # bs) =
     (if b = START_MARKER then if ongoing then TwoStarts else scanChunk True [] bs
      else if ongoing \<and> b = END_MARKER then Finished acc bs
      else scanChunk ongoing (acc @ [b]) bs)"

partial_function (option) readBytes ::
    "'c IBluetoothConnector \<Rightarrow> bool \<Rightarrow> u8 list \<Rightarrow> ('c Wrapper, u8 list) lprog" where
  "readBytes C ongoing msgBytes w = (case readChunk C w of
      (Inl e, w') \<Rightarrow> Some (Inl e, w')
    | (Inr buf, w') \<Rightarrow> (case scanChunk ongoing [] buf of
          TwoStarts \<Rightarrow> Some (Inl (Recoverable ''Invalid: Multiple start markers without an end marker'' True), w')
        | Unfinished part ongoing' \<Rightarrow> readBytes C ongoing' (msgBytes @ part) w'
        | Finished part rest \<Rightarrow> Some (Inr (msgBytes @ part), w'\<lparr>wr_leftoverBytes := rest\<rparr>)))"

definition sendFrame ::
    "'c IBluetoothConnector \<Rightarrow> u8 list \<Rightarrow> DataType \<Rightarrow> u32 \<Rightarrow> ('c Wrapper, int) lprog" where
  "sendFrame C src dataType seqNumber =
     bindL (liftL (packageDataForBt src dataType seqNumber)) (\<lambda>data. onConnector (bc_send C data))"

definition readMessage :: "'c IBluetoothConnector \<Rightarrow> ('c Wrapper, Message) lprog" where
  "readMessage C =
     bindL (readBytes C False []) (\<lambda>msgBytes.
     bindL (liftL (unpackBtMessage msgBytes)) (\<lambda>msg.
       if msg_dataType msg = DT_DataMdr
       then bindL (sendFrame C [] DT_Ack (ucast (1 - msg_seqNumber msg))) (\<lambda>_. returnL msg)
       else returnL msg))"

definition nextSeq :: "('c Wrapper, u32) lprog" where
  "nextSeq w = Some (Inr (wr_seqNumber w), w\<lparr>wr_seqNumber := wr_seqNumber w + 1\<rparr>)"

definition noteSeq :: "Message \<Rightarrow> ('c Wrapper, unit) lprog" where
  "noteSeq msg = modifyL (\<lambda>w. w\<lparr>wr_seqNumber := ucast (msg_seqNumber msg)\<rparr>)"

definition waitForAck :: "'c IBluetoothConnector \<Rightarrow> ('c Wrapper, unit) lprog" where
  "waitForAck C = bindL (readMessage C) noteSeq"

definition wrapper_sendCommand :: "'c IBluetoothConnector \<Rightarrow> u8 list \<Rightarrow> ('c Wrapper, int) lprog" where
  "wrapper_sendCommand C bytes =
     bindL nextSeq (\<lambda>q.
     bindL (sendFrame C bytes DT_DataMdr q) (\<lambda>sent.
     bindL (waitForAck C) (\<lambda>_. returnL sent)))"

definition isResponse :: "u8 \<Rightarrow> int \<Rightarrow> Message \<Rightarrow> bool" where
  "isResponse retCommandId retSubType msg \<longleftrightarrow>
     msg_dataType msg = DT_DataMdr \<and> msg_payload msg \<noteq> [] \<and> msg_payload msg ! 0 = retCommandId \<and>
     (retSubType < 0 \<or> 2 \<le> length (msg_payload msg) \<and> uint (msg_payload msg ! 1) = retSubType)"

text \<open>The loop over at most \<open>n\<close> more messages.\<close>

fun awaitResponse :: "'c IBluetoothConnector \<Rightarrow> u8 \<Rightarrow> int \<Rightarrow> nat \<Rightarrow> ('c Wrapper, u8 list) lprog" where
  "awaitResponse C ret sub 0 = raiseL (Recoverable ''No matching response received from device'' True)"
| "awaitResponse C ret sub (Suc n) =
     bindL (readMessage C) (\<lambda>msg.
       if msg_dataType msg = DT_Ack then bindL (noteSeq msg) (\<lambda>_. awaitResponse C ret sub n)
       else if isResponse ret sub msg then returnL (msg_payload msg)
       else awaitResponse C ret sub n)"

definition sendCommandAndReadResponse ::
    "'c IBluetoothConnector \<Rightarrow> u8 list \<Rightarrow> u8 \<Rightarrow> int \<Rightarrow> ('c Wrapper, u8 list) lprog" where
  "sendCommandAndReadResponse C bytes ret sub =
     bindL nextSeq (\<lambda>q.
     bindL (sendFrame C bytes DT_DataMdr q) (\<lambda>_. awaitResponse C ret sub 16))"

definition wrapper_connect :: "'c IBluetoothConnector \<Rightarrow> string \<Rightarrow> ('c Wrapper, unit) lprog" where
  "wrapper_connect C addr = onConnector (bc_connect C addr)"

definition wrapper_disconnect :: "'c IBluetoothConnector \<Rightarrow> 'c Wrapper \<Rightarrow> 'c Wrapper" where
  "wrapper_disconnect C w =
     w\<lparr>wr_seqNumber := 0, wr_leftoverBytes := [], wr_connector := bc_disconnect C (wr_connector w)\<rparr>"

definition wrapper_isConnected :: "'c IBluetoothConnector \<Rightarrow> 'c Wrapper \<Rightarrow> bool" where
  "wrapper_isConnected C w = bc_isConnected C (wr_connector w)"

definition wrapper_getConnectedDevices ::
    "'c IBluetoothConnector \<Rightarrow> ('c Wrapper, BluetoothDevice list) lprog" where
  "wrapper_getConnectedDevices C = onConnector (bc_getConnectedDevices C)"

definition wrapper_getProtocolVersion :: "'c IBluetoothConnector \<Rightarrow> 'c Wrapper \<Rightarrow> SonyProtocolVersion" where
  "wrapper_getProtocolVersion C w = bc_getProtocolVersion C (wr_connector w)"

section \<open>A scripted connector\<close>

text \<open>The connector of the tests: reads are given in advance, writes are recorded.\<close>

record Script =
  sc_reads :: "u8 list list"
  sc_writes :: "u8 list list"

definition script_send :: "u8 list \<Rightarrow> (Script, int) conn" where
  "script_send data s = (Inr (int (length data)), s\<lparr>sc_writes := sc_writes s @ [data]\<rparr>)"

definition script_recv :: "nat \<Rightarrow> (Script, u8 list) conn" where
  "script_recv cap s = (case sc_reads s of
      [] \<Rightarrow> (Inl (Recoverable ''Receive script exhausted'' False), s)
    | r # rs \<Rightarrow> (Inr (take cap r), s\<lparr>sc_reads := (if drop cap r = [] then rs else drop cap r # rs)\<rparr>))"

definition scripted :: "SonyProtocolVersion \<Rightarrow> Script IBluetoothConnector" where
  "scripted v = \<lparr>bc_send = script_send, bc_recv = script_recv, bc_connect = (\<lambda>_ s. (Inr (), s)),
     bc_disconnect = id, bc_isConnected = (\<lambda>_. True), bc_getConnectedDevices = (\<lambda>s. (Inr [], s)),
     bc_getProtocolVersion = (\<lambda>_. v)\<rparr>"

abbreviation writes :: "Script Wrapper \<Rightarrow> u8 list list" where
  "writes w \<equiv> sc_writes (wr_connector w)"

text \<open>The bytes that a wrapper has still to look at, and what is kept of them: reads deliver
  something, and no more is left over than one read can bring.\<close>

definition pending :: "Script Wrapper \<Rightarrow> u8 list" where
  "pending w = wr_leftoverBytes w @ concat (sc_reads (wr_connector w))"

definition tidy :: "Script Wrapper \<Rightarrow> bool" where
  "tidy w \<longleftrightarrow> [] \<notin> set (sc_reads (wr_connector w)) \<and> length (wr_leftoverBytes w) \<le> MAX_BLUETOOTH_MESSAGE_SIZE"

text \<open>The rest of a wrapper stays as it is.\<close>

definition sameHost :: "Script Wrapper \<Rightarrow> Script Wrapper \<Rightarrow> bool" where
  "sameHost w w' \<longleftrightarrow> writes w' = writes w \<and> wr_seqNumber w' = wr_seqNumber w"

lemma readChunk_pending:
  assumes "tidy w" "pending w \<noteq> []"
  obtains buf w' where "readChunk (scripted v) w = (Inr buf, w')" "buf \<noteq> []" "pending w = buf @ pending w'"
    "length buf \<le> MAX_BLUETOOTH_MESSAGE_SIZE" "wr_leftoverBytes w' = []" "tidy w'" "sameHost w w'"
proof (cases "wr_leftoverBytes w = []")
  case True
  with assms(2) obtain r rs where r: "sc_reads (wr_connector w) = r # rs"
    by (cases "sc_reads (wr_connector w)") (auto simp: pending_def)
  let ?w = "w\<lparr>wr_connector := (wr_connector w)\<lparr>sc_reads := (if drop 2048 r = [] then rs else drop 2048 r # rs)\<rparr>\<rparr>"
  have run: "readChunk (scripted v) w = (Inr (take 2048 r), ?w)"
    by (simp add: readChunk_def True scripted_def script_recv_def r)
  have "concat (sc_reads (wr_connector w)) = take 2048 r @ concat (sc_reads (wr_connector ?w))" by (simp add: r)
  moreover have "r \<noteq> []" using assms(1) by (auto simp: tidy_def r)
  ultimately show ?thesis
    using assms(1) by (intro that [OF run]) (auto simp: pending_def True tidy_def sameHost_def r)
next
  case False
  with assms show ?thesis
    by (intro that [of "wr_leftoverBytes w" "w\<lparr>wr_leftoverBytes := []\<rparr>"])
      (auto simp: readChunk_def pending_def tidy_def sameHost_def)
qed

section \<open>Reading one message\<close>

definition clean :: "u8 list \<Rightarrow> bool" where
  "clean body \<longleftrightarrow> START_MARKER \<notin> set body \<and> END_MARKER \<notin> set body"

lemma scan_body:
  "clean body \<Longrightarrow> xs @ later = body @ END_MARKER # rest \<Longrightarrow>
     (\<exists>body'. body = xs @ body' \<and> later = body' @ END_MARKER # rest \<and> scanChunk True acc xs = Unfinished (acc @ xs) True) \<or>
     (\<exists>ys. xs = body @ END_MARKER # ys \<and> rest = ys @ later \<and> scanChunk True acc xs = Finished (acc @ body) ys)"
proof (induction xs arbitrary: body acc)
  case (Cons x xs)
  show ?case
  proof (cases body)
    case (Cons b bs)
    with Cons.prems have "clean bs" "xs @ later = bs @ END_MARKER # rest" "x = b" "x \<noteq> START_MARKER" "x \<noteq> END_MARKER"
      by (auto simp: clean_def)
    with Cons.IH [of bs "acc @ [x]"] Cons show ?thesis by auto
  qed (use Cons.prems in auto)
qed simp

lemma finish_read:
  assumes "tidy w" "length ys \<le> MAX_BLUETOOTH_MESSAGE_SIZE" "wr_leftoverBytes w = []"
  shows "tidy (w\<lparr>wr_leftoverBytes := ys\<rparr>)" "pending (w\<lparr>wr_leftoverBytes := ys\<rparr>) = ys @ pending w"
  using assms by (simp_all add: tidy_def pending_def)

lemma read_rest:
  "tidy w \<Longrightarrow> clean body \<Longrightarrow> pending w = body @ END_MARKER # rest \<Longrightarrow>
     \<exists>w'. readBytes (scripted v) True msg w = Some (Inr (msg @ body), w') \<and> tidy w' \<and> pending w' = rest \<and> sameHost w w'"
proof (induction "length (pending w)" arbitrary: w body msg rule: less_induct)
  case less
  from less.prems(3) have "pending w \<noteq> []" by simp
  with less.prems(1) obtain buf w1 where run: "readChunk (scripted v) w = (Inr buf, w1)" and buf: "buf \<noteq> []"
    "pending w = buf @ pending w1" "length buf \<le> MAX_BLUETOOTH_MESSAGE_SIZE" and w1: "wr_leftoverBytes w1 = []"
    "tidy w1" "sameHost w w1"
    by (rule readChunk_pending)
  from buf(2) less.prems(3) have "buf @ pending w1 = body @ END_MARKER # rest" by simp
  from scan_body [OF less.prems(2) this, of "[]"] show ?case
  proof (elim disjE exE conjE)
    fix body' assume b: "body = buf @ body'" "pending w1 = body' @ END_MARKER # rest"
      and scan: "scanChunk True [] buf = Unfinished ([] @ buf) True"
    have "clean body'" using less.prems(2) b(1) by (simp add: clean_def)
    with less.hyps [OF _ w1(2) _ b(2), of "msg @ buf"] buf obtain w' where
      "readBytes (scripted v) True (msg @ buf) w1 = Some (Inr ((msg @ buf) @ body'), w')" "tidy w'"
      "pending w' = rest" "sameHost w1 w'" by auto
    with w1(3) b(1) show ?thesis
      by (subst readBytes.simps) (auto simp: run scan sameHost_def)
  next
    fix ys assume y: "buf = body @ END_MARKER # ys" "rest = ys @ pending w1"
      and scan: "scanChunk True [] buf = Finished ([] @ body) ys"
    have "length ys \<le> MAX_BLUETOOTH_MESSAGE_SIZE" using buf(3) y(1) by simp
    with finish_read [OF w1(2) _ w1(1)] y(2) w1(3) show ?thesis
      by (subst readBytes.simps) (simp add: run scan sameHost_def)
  qed
qed

lemma read_one:
  assumes "tidy w" "clean body" "pending w = START_MARKER # body @ END_MARKER # rest"
  shows "\<exists>w'. readBytes (scripted v) False [] w = Some (Inr body, w') \<and> tidy w' \<and> pending w' = rest \<and> sameHost w w'"
proof -
  from assms(3) have "pending w \<noteq> []" by simp
  with assms(1) obtain buf w1 where run: "readChunk (scripted v) w = (Inr buf, w1)" and buf: "buf \<noteq> []"
    "pending w = buf @ pending w1" "length buf \<le> MAX_BLUETOOTH_MESSAGE_SIZE" and w1: "wr_leftoverBytes w1 = []"
    "tidy w1" "sameHost w w1"
    by (rule readChunk_pending)
  from buf assms(3) obtain bs where bs: "buf = START_MARKER # bs" "bs @ pending w1 = body @ END_MARKER # rest"
    by (cases buf) auto
  have first: "scanChunk False [] buf = scanChunk True [] bs" by (simp add: bs(1))
  from scan_body [OF assms(2) bs(2), of "[]"] show ?thesis
  proof (elim disjE exE conjE)
    fix body' assume b: "body = bs @ body'" "pending w1 = body' @ END_MARKER # rest"
      and scan: "scanChunk True [] bs = Unfinished ([] @ bs) True"
    have "clean body'" using assms(2) b(1) by (simp add: clean_def)
    with read_rest [OF w1(2) _ b(2), of v bs] obtain w' where
      "readBytes (scripted v) True bs w1 = Some (Inr (bs @ body'), w')" "tidy w'"
      "pending w' = rest" "sameHost w1 w'" by auto
    with w1(3) b(1) show ?thesis
      by (subst readBytes.simps) (auto simp: run first scan sameHost_def)
  next
    fix ys assume y: "bs = body @ END_MARKER # ys" "rest = ys @ pending w1"
      and scan: "scanChunk True [] bs = Finished ([] @ body) ys"
    have "length ys \<le> MAX_BLUETOOTH_MESSAGE_SIZE" using buf(3) bs(1) y(1) by simp
    with finish_read [OF w1(2) _ w1(1)] y(2) w1(3) show ?thesis
      by (subst readBytes.simps) (simp add: run first scan sameHost_def)
  qed
qed

section \<open>Frames in, frames out\<close>

definition wireOf :: "SonyFrame \<Rightarrow> u8 list" where
  "wireOf f = START_MARKER # escape (frameBody f) @ [END_MARKER]"

definition messageOf :: "SonyFrame \<Rightarrow> Message" where
  "messageOf f = \<lparr>msg_dataType = fr_type f, msg_seqNumber = fr_seq f, msg_payload = fr_payload f\<rparr>"

text \<open>The acknowledgements that a host owes for frames.\<close>

definition acksFor :: "SonyFrame list \<Rightarrow> u8 list list" where
  "acksFor fs = map (\<lambda>f. wireOf (mkFrame DT_Ack (1 - fr_seq f) [])) (filter (\<lambda>f. fr_type f = DT_DataMdr) fs)"

lemma package_wire:
  "length src \<le> 1016 \<Longrightarrow> packageDataForBt src t q = Inr (wireOf (mkFrame t (ucast q) src))"
  using encode_total [of "mkFrame t (ucast q) src"] encode_shape [of "mkFrame t (ucast q) src"]
  by (auto simp: packageDataForBt_def wireOf_def)

lemma ucast_up_down: "(ucast (ucast (b :: u8) :: u32) :: u8) = b"
  by (rule bit_word_eqI) (auto simp: bit_simps dest: bit_imp_le_length)

lemma unpack_body:
  "length (fr_payload f) < 2 ^ 32 \<Longrightarrow> unpackBtMessage (escape (frameBody f)) = Inr (messageOf f)"
  using decodeBody_accepts [of f "escape (frameBody f)" "[]"]
  by (simp add: unpackBtMessage_def messageOf_def unescape_escape)

text \<open>What a frame written by the host is when the other side unpacks it.\<close>

lemma unpack_package:
  "packageDataForBt src t q = Inr bs \<Longrightarrow>
     unpackBtMessage (butlast (tl bs)) = Inr \<lparr>msg_dataType = t, msg_seqNumber = ucast q, msg_payload = src\<rparr>"
proof -
  assume "packageDataForBt src t q = Inr bs"
  then have enc: "encode (mkFrame t (ucast q) src) = Inr bs"
    by (cases "encode (mkFrame t (ucast q) src)") (auto simp: packageDataForBt_def)
  then have "butlast (tl bs) = escape (frameBody (mkFrame t (ucast q) src))"
    using encode_shape [OF enc] by simp
  with unpack_body [of "mkFrame t (ucast q) src"] encode_payload_bound [OF enc] show ?thesis
    by (simp add: messageOf_def)
qed

lemma sendFrame_scripted:
  "length src \<le> 1016 \<Longrightarrow> sendFrame (scripted v) src t q w =
     Some (Inr (int (length (wireOf (mkFrame t (ucast q) src)))),
       w\<lparr>wr_connector := (wr_connector w)\<lparr>sc_writes := writes w @ [wireOf (mkFrame t (ucast q) src)]\<rparr>\<rparr>)"
  by (simp add: sendFrame_def bindL_def liftL_def package_wire onConnector_def scripted_def script_send_def)

lemma tidy_writes [simp]:
  "tidy (w\<lparr>wr_connector := (wr_connector w)\<lparr>sc_writes := ws\<rparr>\<rparr>) = tidy w"
  "pending (w\<lparr>wr_connector := (wr_connector w)\<lparr>sc_writes := ws\<rparr>\<rparr>) = pending w"
  "tidy (w\<lparr>wr_seqNumber := q\<rparr>) = tidy w" "pending (w\<lparr>wr_seqNumber := q\<rparr>) = pending w"
  by (simp_all add: tidy_def pending_def)

lemma readMessage_frame:
  assumes "tidy w" "length (fr_payload f) < 2 ^ 32" "pending w = wireOf f @ rest"
  shows "\<exists>w'. readMessage (scripted v) w = Some (Inr (messageOf f), w') \<and> tidy w' \<and> pending w' = rest \<and>
    writes w' = writes w @ acksFor [f] \<and> wr_seqNumber w' = wr_seqNumber w"
proof -
  have "clean (escape (frameBody f))" using escape_no_marker by (auto simp: clean_def)
  with read_one [OF assms(1), of _ rest v] assms(3) obtain w1 where
    w1: "readBytes (scripted v) False [] w = Some (Inr (escape (frameBody f)), w1)" "tidy w1" "pending w1 = rest"
      "sameHost w w1"
    by (auto simp: wireOf_def)
  show ?thesis
  proof (cases "fr_type f = DT_DataMdr")
    case True
    then have "msg_dataType (messageOf f) = DT_DataMdr" "msg_seqNumber (messageOf f) = fr_seq f"
      by (simp_all add: messageOf_def)
    with w1 True show ?thesis
      by (simp add: readMessage_def bindL_def liftL_def unpack_body [OF assms(2)] sendFrame_scripted returnL_def
          acksFor_def sameHost_def ucast_up_down)
  next
    case False
    then have "msg_dataType (messageOf f) \<noteq> DT_DataMdr" by (simp add: messageOf_def)
    with w1 False show ?thesis
      by (simp add: readMessage_def bindL_def liftL_def unpack_body [OF assms(2)] returnL_def acksFor_def sameHost_def)
  qed
qed

definition frameFits :: "SonyFrame \<Rightarrow> bool" where
  "frameFits f \<longleftrightarrow> length (fr_payload f) < 2 ^ 32"

lemma acksFor_Cons: "acksFor (f # fs) = acksFor [f] @ acksFor fs"
  by (simp add: acksFor_def)

text \<open>One more message of \<open>awaitResponse\<close>.\<close>

lemma awaitResponse_frame:
  assumes "tidy w" "frameFits f" "pending w = wireOf f @ rest"
  shows "\<exists>w'. awaitResponse (scripted v) ret sub (Suc n) w =
      (if isResponse ret sub (messageOf f) then Some (Inr (fr_payload f), w') else awaitResponse (scripted v) ret sub n w') \<and>
    tidy w' \<and> pending w' = rest \<and> writes w' = writes w @ acksFor [f]"
proof -
  from readMessage_frame [OF assms(1) _ assms(3), of v] assms(2) obtain w1 where
    w1: "readMessage (scripted v) w = Some (Inr (messageOf f), w1)" "tidy w1" "pending w1 = rest"
      "writes w1 = writes w @ acksFor [f]"
    by (auto simp: frameFits_def)
  show ?thesis
  proof (cases "fr_type f = DT_Ack")
    case True
    then have "msg_dataType (messageOf f) = DT_Ack" by (simp add: messageOf_def)
    moreover from this have "\<not> isResponse ret sub (messageOf f)" by (simp add: isResponse_def)
    ultimately show ?thesis
      using w1 by (intro exI [of _ "w1\<lparr>wr_seqNumber := ucast (msg_seqNumber (messageOf f))\<rparr>"])
        (simp add: bindL_def noteSeq_def modifyL_def)
  next
    case False
    then have "msg_dataType (messageOf f) \<noteq> DT_Ack" by (simp add: messageOf_def)
    with w1 show ?thesis
      by (intro exI [of _ w1]) (simp add: bindL_def returnL_def messageOf_def)
  qed
qed

lemma awaitResponse_finds:
  "i < n \<Longrightarrow> i < length fs \<Longrightarrow> list_all frameFits fs \<Longrightarrow> isResponse ret sub (messageOf (fs ! i)) \<Longrightarrow>
   \<forall>j < i. \<not> isResponse ret sub (messageOf (fs ! j)) \<Longrightarrow> tidy w \<Longrightarrow> pending w = concat (map wireOf fs) @ rest \<Longrightarrow>
   \<exists>w'. awaitResponse (scripted v) ret sub n w = Some (Inr (fr_payload (fs ! i)), w') \<and> tidy w' \<and>
     pending w' = concat (map wireOf (drop (Suc i) fs)) @ rest \<and> writes w' = writes w @ acksFor (take (Suc i) fs)"
proof (induction i arbitrary: n fs w)
  case 0
  then obtain f fs' m where fs: "fs = f # fs'" "n = Suc m" by (cases fs; cases n) auto
  with 0 awaitResponse_frame [of w f "concat (map wireOf fs') @ rest" v ret sub m] show ?case by auto
next
  case (Suc i)
  then obtain f fs' m where fs: "fs = f # fs'" "n = Suc m" by (cases fs; cases n) auto
  from Suc.prems(5) have no: "\<not> isResponse ret sub (messageOf f)" using fs(1) by force
  with Suc.prems fs awaitResponse_frame [of w f "concat (map wireOf fs') @ rest" v ret sub m] obtain w1 where
    w1: "awaitResponse (scripted v) ret sub n w = awaitResponse (scripted v) ret sub m w1" "tidy w1"
      "pending w1 = concat (map wireOf fs') @ rest" "writes w1 = writes w @ acksFor [f]" by auto
  have "\<forall>j < i. \<not> isResponse ret sub (messageOf (fs' ! j))"
    using Suc.prems(5) fs(1) by (metis Suc_less_eq nth_Cons_Suc)
  with Suc.IH [of m fs' w1] Suc.prems(1-4) fs w1(2,3) obtain w' where
    w': "awaitResponse (scripted v) ret sub m w1 = Some (Inr (fr_payload (fs' ! i)), w')" "tidy w'"
      "pending w' = concat (map wireOf (drop (Suc i) fs')) @ rest" "writes w' = writes w1 @ acksFor (take (Suc i) fs')"
    by auto
  have "acksFor (take (Suc (Suc i)) fs) = acksFor [f] @ acksFor (take (Suc i) fs')"
    unfolding fs(1) take_Suc_Cons by (rule acksFor_Cons)
  with w' w1(1,4) fs(1) show ?case by simp
qed

lemma awaitResponse_fails:
  "n \<le> length fs \<Longrightarrow> list_all frameFits fs \<Longrightarrow> \<forall>j < n. \<not> isResponse ret sub (messageOf (fs ! j)) \<Longrightarrow> tidy w \<Longrightarrow>
   pending w = concat (map wireOf fs) @ rest \<Longrightarrow>
   \<exists>w'. awaitResponse (scripted v) ret sub n w =
       Some (Inl (Recoverable ''No matching response received from device'' True), w') \<and> tidy w' \<and>
     pending w' = concat (map wireOf (drop n fs)) @ rest \<and> writes w' = writes w @ acksFor (take n fs)"
proof (induction n arbitrary: fs w)
  case 0
  then show ?case by (simp add: raiseL_def acksFor_def)
next
  case (Suc n)
  then obtain f fs' where fs: "fs = f # fs'" by (cases fs) auto
  from Suc.prems(3) have no: "\<not> isResponse ret sub (messageOf f)" using fs by force
  with Suc.prems fs awaitResponse_frame [of w f "concat (map wireOf fs') @ rest" v ret sub n] obtain w1 where
    w1: "awaitResponse (scripted v) ret sub (Suc n) w = awaitResponse (scripted v) ret sub n w1" "tidy w1"
      "pending w1 = concat (map wireOf fs') @ rest" "writes w1 = writes w @ acksFor [f]" by auto
  have "\<forall>j < n. \<not> isResponse ret sub (messageOf (fs' ! j))"
    using Suc.prems(3) fs by (metis Suc_less_eq nth_Cons_Suc)
  with Suc.IH [of fs' w1] Suc.prems(1,2) fs w1(2,3) obtain w' where
    w': "awaitResponse (scripted v) ret sub n w1 =
        Some (Inl (Recoverable ''No matching response received from device'' True), w')" "tidy w'"
      "pending w' = concat (map wireOf (drop n fs')) @ rest" "writes w' = writes w1 @ acksFor (take n fs')"
    by auto
  have "acksFor (take (Suc n) fs) = acksFor [f] @ acksFor (take n fs')"
    unfolding fs take_Suc_Cons by (rule acksFor_Cons)
  with w' w1(1,4) fs show ?case by simp
qed

text \<open>C33: A request of the older client finds its answer. However the headset's frames are cut into
  reads, the payload of the first matching frame among the next sixteen is returned and every data
  frame up to it is acknowledged with its toggled number, once and in order, after the request;
  when none of the sixteen matches, the request fails with a lost link, all sixteen acknowledged.
  In both cases exactly the bytes after the last frame read are left for the next request.\<close>

theorem legacy_request_answered:
  assumes "tidy w" "list_all frameFits fs" "pending w = concat (map wireOf fs) @ rest" "length cmd \<le> 1016"
    and "k = length (takeWhile (\<lambda>f. \<not> isResponse ret sub (messageOf f)) fs)" "k < length fs \<or> 16 \<le> length fs"
  shows "\<exists>w'. sendCommandAndReadResponse (scripted v) cmd ret sub w =
      Some (if k < 16 then Inr (fr_payload (fs ! k))
            else Inl (Recoverable ''No matching response received from device'' True), w') \<and>
    tidy w' \<and> pending w' = concat (map wireOf (drop (min (Suc k) 16) fs)) @ rest \<and>
    writes w' = writes w @ wireOf (mkFrame DT_DataMdr (ucast (wr_seqNumber w)) cmd) # acksFor (take (min (Suc k) 16) fs)"
proof -
  let ?w = "w\<lparr>wr_seqNumber := wr_seqNumber w + 1, wr_connector := (wr_connector w)
    \<lparr>sc_writes := writes w @ [wireOf (mkFrame DT_DataMdr (ucast (wr_seqNumber w)) cmd)]\<rparr>\<rparr>"
  have run: "sendCommandAndReadResponse (scripted v) cmd ret sub w = awaitResponse (scripted v) ret sub 16 ?w"
    using sendFrame_scripted [OF assms(4), of v DT_DataMdr "wr_seqNumber w" "w\<lparr>wr_seqNumber := wr_seqNumber w + 1\<rparr>"]
    by (simp add: sendCommandAndReadResponse_def bindL_def nextSeq_def)
  have ready: "tidy ?w" "pending ?w = concat (map wireOf fs) @ rest"
    using assms(1,3) by (simp_all add: tidy_def pending_def)
  have before: "\<forall>j < k. \<not> isResponse ret sub (messageOf (fs ! j))"
  proof (intro allI impI)
    fix j assume "j < k"
    then have "j < length (takeWhile (\<lambda>f. \<not> isResponse ret sub (messageOf f)) fs)" by (simp add: assms(5))
    from takeWhile_nth [OF this] nth_mem [OF this] show "\<not> isResponse ret sub (messageOf (fs ! j))"
      by (auto dest: set_takeWhileD)
  qed
  show ?thesis
  proof (cases "k < 16")
    case True
    then have "k < length fs" using assms(6) by auto
    moreover from this have "isResponse ret sub (messageOf (fs ! k))"
      using nth_length_takeWhile [of "\<lambda>f. \<not> isResponse ret sub (messageOf f)" fs] by (simp add: assms(5))
    ultimately show ?thesis
      using awaitResponse_finds [OF True _ assms(2) _ before ready] run True by auto
  next
    case False
    then have "16 \<le> length fs" using assms(6) by auto
    moreover have "\<forall>j < 16. \<not> isResponse ret sub (messageOf (fs ! j))" using before False by auto
    ultimately show ?thesis
      using awaitResponse_fails [OF _ assms(2) _ ready, of 16] run False by auto
  qed
qed

theorem legacy_request_answered_witness:
  "\<exists>w'. sendCommandAndReadResponse (scripted V1) [0x66, 2] 0x67 2
      \<lparr>wr_connector = \<lparr>sc_reads = [[0x3e, 1, 1, 0, 0], [0, 0, 2, 0x3c, 0x3e, 0x0c], [0, 0, 0, 0, 2, 0x67, 2, 0x77, 0x3c]],
          sc_writes = []\<rparr>, wr_seqNumber = 0, wr_leftoverBytes = []\<rparr> = Some (Inr [0x67, 2], w') \<and>
    writes w' = [[0x3e, 0x0c, 0, 0, 0, 0, 2, 0x66, 2, 0x76, 0x3c], [0x3e, 1, 1, 0, 0, 0, 0, 2, 0x3c]]"
proof -
  let ?w = "\<lparr>wr_connector = \<lparr>sc_reads = [[0x3e, 1, 1, 0, 0], [0, 0, 2, 0x3c, 0x3e, 0x0c],
      [0, 0, 0, 0, 2, 0x67, 2, 0x77, 0x3c]], sc_writes = []\<rparr>, wr_seqNumber = 0, wr_leftoverBytes = []\<rparr>"
  let ?fs = "[mkFrame DT_Ack 1 [], mkFrame DT_DataMdr 0 [0x67, 2]]"
  have "tidy ?w" "list_all frameFits ?fs" by (simp_all add: tidy_def frameFits_def)
  moreover have "pending ?w = concat (map wireOf ?fs) @ []" by code_simp
  moreover have "length (takeWhile (\<lambda>f. \<not> isResponse 0x67 2 (messageOf f)) ?fs) = 1" by code_simp
  moreover have "wireOf (mkFrame DT_DataMdr (ucast (wr_seqNumber ?w)) [0x66, 2]) # acksFor (take (min (Suc 1) 16) ?fs) =
    [[0x3e, 0x0c, 0, 0, 0, 0, 2, 0x66, 2, 0x76, 0x3c], [0x3e, 1, 1, 0, 0, 0, 0, 2, 0x3c]]" by code_simp
  ultimately show ?thesis
    using legacy_request_answered [where w = ?w and fs = ?fs and rest = "[]" and cmd = "[0x66, 2]" and k = 1 and
        ret = "0x67" and sub = 2 and v = V1] by force
qed

section \<open>What goes wrong\<close>

text \<open>Bytes before a frame are dropped when they come in the same read as its start, and taken into the
  message, which then does not decode, when they come in a read of their own.\<close>

lemma garbage_kept:
  assumes "b \<noteq> START_MARKER" "clean body" "tidy w" "wr_leftoverBytes w = []"
    and "sc_reads (wr_connector w) = [b] # reads" "concat reads = START_MARKER # body @ END_MARKER # rest"
  shows "\<exists>w'. readBytes (scripted v) False [] w = Some (Inr (b # body), w')"
proof -
  let ?w = "w\<lparr>wr_connector := (wr_connector w)\<lparr>sc_reads := reads\<rparr>\<rparr>"
  have run: "readChunk (scripted v) w = (Inr [b], ?w)"
    by (simp add: readChunk_def assms scripted_def script_recv_def)
  have w: "tidy ?w" "pending ?w \<noteq> []" using assms by (auto simp: tidy_def pending_def)
  obtain buf w1 where c: "readChunk (scripted v) ?w = (Inr buf, w1)" and buf: "buf \<noteq> []"
    "pending ?w = buf @ pending w1" "length buf \<le> MAX_BLUETOOTH_MESSAGE_SIZE" and w1: "wr_leftoverBytes w1 = []"
    "tidy w1" "sameHost ?w w1"
    using w by (rule readChunk_pending)
  with assms obtain bs where bs: "buf = START_MARKER # bs" "bs @ pending w1 = body @ END_MARKER # rest"
    by (cases buf) (auto simp: pending_def)
  have scan: "scanChunk False [] [b] = Unfinished [b] False" "scanChunk False [] buf = scanChunk True [] bs"
    using assms(1) by (simp_all add: bs(1))
  have "\<exists>w'. readBytes (scripted v) False [b] ?w = Some (Inr (b # body), w')"
    using scan_body [OF assms(2) bs(2), of "[]"]
  proof (elim disjE exE conjE)
    fix body' assume b: "body = bs @ body'" "pending w1 = body' @ END_MARKER # rest"
      and s: "scanChunk True [] bs = Unfinished ([] @ bs) True"
    have "clean body'" using assms(2) b(1) by (simp add: clean_def)
    with read_rest [OF w1(2) _ b(2), of v "b # bs"] b(1) show ?thesis
      by (subst readBytes.simps) (auto simp: c scan s)
  qed (subst readBytes.simps, simp add: c scan)
  with run scan(1) show ?thesis by (subst readBytes.simps) simp
qed

lemma readBytes_heard: "readBytes C ongoing msg w = Some y \<Longrightarrow> readChunk C w \<noteq> (Inr [], w)"
  by (induction rule: readBytes.raw_induct [rotated, consumes 1]) (auto split: prod.splits sum.splits Scan.splits)

text \<open>A connector that reports the end of the stream as an empty read, and not by an exception, is
  asked for more for ever, with the wrapper's mutex held.\<close>

lemma silence_hangs:
  assumes "wr_leftoverBytes w = []" "bc_recv C MAX_BLUETOOTH_MESSAGE_SIZE (wr_connector w) = (Inr [], wr_connector w)"
  shows "readBytes C ongoing msg w = None"
proof -
  have "readChunk C w = (Inr [], w)" using assms by (simp add: readChunk_def)
  with readBytes_heard [of C ongoing msg w] show ?thesis by (cases "readBytes C ongoing msg w") auto
qed

end
