(* ===== verification/Headphones.thy ===== *)
theory Headphones
  imports LegacyWire Dispatcher
begin

text \<open>
  \<open>Headphones\<close>, the device object of the older client: properties with a current and a desired
  value, pushed by \<open>setChanges\<close>; a device state filled by requests; and notifications.

  The property mutex only guards single assignments; an operation here is the whole method. The
  object works on the wrapper \<open>hp_conn\<close>. Enumerations whose bytes are sent are their bytes, but
  for the positions, which are compared by name.
\<close>

section \<open>Properties\<close>

record 'a Property =
  pp_current :: 'a
  pp_desired :: 'a

definition fulfill :: "'a Property \<Rightarrow> 'a Property" where
  "fulfill p = p\<lparr>pp_current := pp_desired p\<rparr>"

definition isFulfilled :: "'a Property \<Rightarrow> bool" where
  "isFulfilled p \<longleftrightarrow> pp_desired p = pp_current p"

definition both :: "'a \<Rightarrow> 'a Property" where
  "both x = \<lparr>pp_current = x, pp_desired = x\<rparr>"

datatype SOUND_POSITION_PRESET =
  PosOff | FrontLeft | FrontRight | Front | RearLeft | RearRight | OutOfRange

fun positionByte :: "SOUND_POSITION_PRESET \<Rightarrow> u8" where
  "positionByte PosOff = 0"
| "positionByte FrontLeft = 1"
| "positionByte FrontRight = 2"
| "positionByte Front = 3"
| "positionByte RearLeft = 17"
| "positionByte RearRight = 18"
| "positionByte OutOfRange = -1"

record 'c Headphones =
  hp_conn :: "'c Wrapper"
  hp_ambientSoundControl :: "bool Property"
  hp_focusOnVoice :: "bool Property"
  hp_asmLevel :: "int Property"
  hp_surroundPosition :: "SOUND_POSITION_PRESET Property"
  hp_vptType :: "int Property"
  hp_deviceState :: DeviceState
  hp_eventDispatcher :: DeviceEventDispatcher
  hp_hasAutoPowerOff :: bool
  hp_hasFirmware :: bool
  hp_hasCodec :: bool
  hp_hasSpeakToChat :: bool
  hp_hasAdaptiveVolume :: bool

definition newHeadphones :: "'c Wrapper \<Rightarrow> 'c Headphones" where
  "newHeadphones conn = \<lparr>hp_conn = conn, hp_ambientSoundControl = both False, hp_focusOnVoice = both False,
     hp_asmLevel = both 0, hp_surroundPosition = \<lparr>pp_current = OutOfRange, pp_desired = PosOff\<rparr>,
     hp_vptType = both 0, hp_deviceState = defaultState, hp_eventDispatcher = newDispatcher,
     hp_hasAutoPowerOff = False, hp_hasFirmware = False, hp_hasCodec = False, hp_hasSpeakToChat = False,
     hp_hasAdaptiveVolume = False\<rparr>"

definition hp_setAmbientSoundControl :: "bool \<Rightarrow> 'c Headphones \<Rightarrow> 'c Headphones" where
  "hp_setAmbientSoundControl val h = h\<lparr>hp_ambientSoundControl := (hp_ambientSoundControl h)\<lparr>pp_desired := val\<rparr>\<rparr>"

definition hp_setFocusOnVoice :: "bool \<Rightarrow> 'c Headphones \<Rightarrow> 'c Headphones" where
  "hp_setFocusOnVoice val h = h\<lparr>hp_focusOnVoice := (hp_focusOnVoice h)\<lparr>pp_desired := val\<rparr>\<rparr>"

definition hp_setAsmLevel :: "int \<Rightarrow> 'c Headphones \<Rightarrow> 'c Headphones" where
  "hp_setAsmLevel val h = h\<lparr>hp_asmLevel := (hp_asmLevel h)\<lparr>pp_desired := val\<rparr>\<rparr>"

definition hp_setSurroundPosition :: "SOUND_POSITION_PRESET \<Rightarrow> 'c Headphones \<Rightarrow> 'c Headphones" where
  "hp_setSurroundPosition val h = h\<lparr>hp_surroundPosition := (hp_surroundPosition h)\<lparr>pp_desired := val\<rparr>\<rparr>"

definition hp_setVptType :: "int \<Rightarrow> 'c Headphones \<Rightarrow> 'c Headphones" where
  "hp_setVptType val h = h\<lparr>hp_vptType := (hp_vptType h)\<lparr>pp_desired := val\<rparr>\<rparr>"

definition MINIMUM_VOICE_FOCUS_STEP :: int where [simp]: "MINIMUM_VOICE_FOCUS_STEP = 2"

definition isFocusOnVoiceAvailable :: "'c Headphones \<Rightarrow> bool" where
  "isFocusOnVoiceAvailable h \<longleftrightarrow>
     pp_current (hp_ambientSoundControl h) \<and> MINIMUM_VOICE_FOCUS_STEP < pp_current (hp_asmLevel h)"

definition isSetAsmLevelAvailable :: "'c Headphones \<Rightarrow> bool" where
  "isSetAsmLevelAvailable h \<longleftrightarrow> pp_current (hp_ambientSoundControl h)"

text \<open>The getters of the battery and of a band, with their answers when there is none.\<close>

definition orMinus1 :: "int option \<Rightarrow> int" where
  "orMinus1 x = (case x of Some v \<Rightarrow> v | None \<Rightarrow> -1)"

definition getBatteryLevel :: "'c Headphones \<Rightarrow> int" where
  "getBatteryLevel h = orMinus1 (bt_main (ds_battery (hp_deviceState h)))"

definition hasDualBattery :: "'c Headphones \<Rightarrow> bool" where
  "hasDualBattery h \<longleftrightarrow> bt_left (ds_battery (hp_deviceState h)) \<noteq> None \<and> bt_right (ds_battery (hp_deviceState h)) \<noteq> None"

definition getBatterySides :: "'c Headphones \<Rightarrow> int \<times> int \<times> int" where
  "getBatterySides h = (let b = ds_battery (hp_deviceState h) in
     (orMinus1 (bt_left b), orMinus1 (bt_right b), orMinus1 (bt_case b)))"

definition getEqualizerBand :: "int \<Rightarrow> 'c Headphones \<Rightarrow> int" where
  "getEqualizerBand index h =
     (if 0 \<le> index \<and> index < 5 then eq_bands (ds_equalizer (hp_deviceState h)) ! nat index else 0)"

section \<open>Requests\<close>

definition viaConn :: "('c Wrapper, 'a) lprog \<Rightarrow> ('c Headphones, 'a) lprog" where
  "viaConn m h = (case m (hp_conn h) of
      None \<Rightarrow> None | Some (r, w) \<Rightarrow> Some (r, h\<lparr>hp_conn := w\<rparr>))"

definition hp_ask :: "'c IBluetoothConnector \<Rightarrow> u8 list \<Rightarrow> u8 \<Rightarrow> int \<Rightarrow> ('c Headphones, u8 list) lprog" where
  "hp_ask C bytes ret sub = viaConn (sendCommandAndReadResponse C bytes ret sub)"

definition hp_tell :: "'c IBluetoothConnector \<Rightarrow> u8 list \<Rightarrow> ('c Headphones, unit) lprog" where
  "hp_tell C bytes = viaConn (bindL (wrapper_sendCommand C bytes) (\<lambda>_. returnL ()))"

definition updState :: "(DeviceState \<Rightarrow> DeviceState) \<Rightarrow> ('c Headphones, unit) lprog" where
  "updState f = modifyL (\<lambda>h. h\<lparr>hp_deviceState := f (hp_deviceState h)\<rparr>)"

definition onBattery :: "(BatteryState \<Rightarrow> BatteryState) \<Rightarrow> ('c Headphones, unit) lprog" where
  "onBattery f = updState (\<lambda>s. s\<lparr>ds_battery := f (ds_battery s)\<rparr>)"

definition hp_initDevice :: "'c IBluetoothConnector \<Rightarrow> ('c Headphones, unit) lprog" where
  "hp_initDevice C = bindL (hp_ask C [0x00, 0x00] 0x01 (-1)) (\<lambda>_. returnL ())"

text \<open>The first request returns from the method when it finds a single battery; whatever goes wrong
  in a request is ignored.\<close>

definition askSingle :: "'c IBluetoothConnector \<Rightarrow> ('c Headphones, bool) lprog" where
  "askSingle C h = (case bindL (hp_ask C [0x22, 0x00] 0x23 0x00) (\<lambda>resp.
        if 4 \<le> length resp
        then bindL (onBattery (\<lambda>b. b\<lparr>bt_main := Some (intOf (resp ! 2)), bt_charging := (resp ! 3 = 1)\<rparr>))
               (\<lambda>_. returnL True)
        else returnL False) h of
      None \<Rightarrow> None | Some (Inl e, h') \<Rightarrow> Some (Inr False, h') | Some (Inr b, h') \<Rightarrow> Some (Inr b, h'))"

definition hp_requestBattery :: "'c IBluetoothConnector \<Rightarrow> ('c Headphones, unit) lprog" where
  "hp_requestBattery C = bindL (askSingle C) (\<lambda>found.
     if found then returnL ()
     else
       bindL (tryL (bindL (hp_ask C [0x22, 0x09] 0x23 0x09) (\<lambda>resp.
         if 6 \<le> length resp
         then onBattery (\<lambda>b. b\<lparr>bt_left := Some (intOf (resp ! 2)), bt_right := Some (intOf (resp ! 4)),
                bt_main := Some (min (intOf (resp ! 2)) (intOf (resp ! 4))),
                bt_charging := (resp ! 3 = 1 \<or> resp ! 5 = 1)\<rparr>)
         else returnL ()))) (\<lambda>_.
       tryL (bindL (hp_ask C [0x22, 0x0a] 0x23 0x0a) (\<lambda>resp.
         if 4 \<le> length resp then onBattery (\<lambda>b. b\<lparr>bt_case := Some (intOf (resp ! 2))\<rparr>) else returnL ()))))"

definition onEqualizer :: "(EqualizerState \<Rightarrow> EqualizerState) \<Rightarrow> ('c Headphones, unit) lprog" where
  "onEqualizer f = updState (\<lambda>s. s\<lparr>ds_equalizer := f (ds_equalizer s)\<rparr>)"

definition hp_requestEqualizer :: "'c IBluetoothConnector \<Rightarrow> ('c Headphones, unit) lprog" where
  "hp_requestEqualizer C = bindL (hp_ask C [0x56, 0x00] 0x57 (-1)) (\<lambda>resp.
     if 3 \<le> length resp
     then onEqualizer (\<lambda>e. if 10 \<le> length resp
       then e\<lparr>eq_preset := intOf (resp ! 2), eq_clearBass := intOf (resp ! 4) - 10,
              eq_bands := map (\<lambda>i. intOf (resp ! (5 + i)) - 10) [0..<5]\<rparr>
       else e\<lparr>eq_preset := intOf (resp ! 2)\<rparr>)
     else returnL ())"

definition hp_setEqualizerPreset :: "'c IBluetoothConnector \<Rightarrow> u8 \<Rightarrow> ('c Headphones, unit) lprog" where
  "hp_setEqualizerPreset C preset =
     bindL (hp_tell C [0x58, 0x00, preset, 0x00]) (\<lambda>_. onEqualizer (\<lambda>e. e\<lparr>eq_preset := intOf preset\<rparr>))"

definition bandAt :: "int list \<Rightarrow> nat \<Rightarrow> int" where
  "bandAt bands i = (if i < length bands then bands ! i else 0)"

definition hp_setEqualizerCustom :: "'c IBluetoothConnector \<Rightarrow> int \<Rightarrow> int list \<Rightarrow> ('c Headphones, unit) lprog" where
  "hp_setEqualizerCustom C clearBass bands =
     bindL (hp_tell C ([0x58, 0x00, 0xa0, 0x06, clampEqValue clearBass] @
         map (\<lambda>i. clampEqValue (bandAt bands i)) [0..<5])) (\<lambda>_.
       onEqualizer (\<lambda>e. e\<lparr>eq_preset := 0xa0, eq_clearBass := clearBass, eq_bands := map (bandAt bands) [0..<5]\<rparr>))"

definition hp_requestDsee :: "'c IBluetoothConnector \<Rightarrow> ('c Headphones, unit) lprog" where
  "hp_requestDsee C = bindL (hp_ask C [0xe6, 0x01] 0xe7 (-1)) (\<lambda>resp.
     if 3 \<le> length resp then updState (\<lambda>s. s\<lparr>ds_dsee := (resp ! 2 \<noteq> 0)\<rparr>) else returnL ())"

definition hp_setDsee :: "'c IBluetoothConnector \<Rightarrow> bool \<Rightarrow> ('c Headphones, unit) lprog" where
  "hp_setDsee C enabled = bindL (hp_tell C [0xe8, 0x01, if enabled then 0x01 else 0x00])
     (\<lambda>_. updState (\<lambda>s. s\<lparr>ds_dsee := enabled\<rparr>))"

text \<open>Reading the noise-control state makes it the desired one too.\<close>

definition adoptNoise :: "bool \<Rightarrow> int \<Rightarrow> bool \<Rightarrow> 'c Headphones \<Rightarrow> 'c Headphones" where
  "adoptNoise on level voice h = h\<lparr>hp_ambientSoundControl := both on, hp_asmLevel := both level,
     hp_focusOnVoice := both voice\<rparr>"

definition onNoise :: "NoiseControlState \<Rightarrow> 'c Headphones \<Rightarrow> 'c Headphones" where
  "onNoise nc h = h\<lparr>hp_deviceState := (hp_deviceState h)\<lparr>ds_noiseControl := nc\<rparr>\<rparr>"

definition hp_requestAmbientState :: "'c IBluetoothConnector \<Rightarrow> ('c Headphones, unit) lprog" where
  "hp_requestAmbientState C h =
     (if wrapper_getProtocolVersion C (hp_conn h) = V2
      then bindL (hp_ask C [0x66, 0x17] 0x67 (-1)) (\<lambda>resp.
        if 7 \<le> length resp
        then (let on = resp ! 3 \<noteq> 0; ambient = resp ! 4 \<noteq> 0; voice = resp ! 5 \<noteq> 0; level = intOf (resp ! 6)
              in modifyL (\<lambda>h. onNoise
                   \<lparr>nc_mode = (if on then if ambient then Ambient else NoiseCancelling else ModeOff),
                    nc_ambientLevel = (if ambient then level else 0), nc_focusOnVoice = voice\<rparr>
                   (adoptNoise on (if ambient then level else 0) voice h)))
        else returnL ())
      else bindL (hp_ask C [0x66, 0x02] 0x67 (-1)) (\<lambda>_. returnL ())) h"

section \<open>Optional features\<close>

text \<open>The tables of this file; the library has the same ones.\<close>

definition hp_APO_CODES :: "(u8 \<times> u8) list" where
  "hp_APO_CODES = [(0x11, 0x00), (0x00, 0x00), (0x01, 0x01), (0x02, 0x02), (0x03, 0x03), (0x10, 0x00)]"

definition hp_apoIndexFromCode :: "u8 \<Rightarrow> u8 \<Rightarrow> int" where
  "hp_apoIndexFromCode c0 c1 =
     (case find (\<lambda>i. fst (hp_APO_CODES ! i) = c0 \<and> snd (hp_APO_CODES ! i) = c1) [0..<6] of
        Some i \<Rightarrow> int i
      | None \<Rightarrow> 0)"

definition hp_codecName :: "u8 \<Rightarrow> string" where
  "hp_codecName code =
     (if code = 0x01 then ''SBC'' else if code = 0x02 then ''AAC'' else if code = 0x10 then ''LDAC''
      else if code = 0x20 then ''aptX'' else if code = 0x21 then ''aptX HD'' else '''')"

lemma optional_tables:
  "hp_APO_CODES = APO_CODES" "hp_apoIndexFromCode c0 c1 = apoIndexFromCode c0 c1" "hp_codecName = codecName"
  by (auto simp: hp_APO_CODES_def APO_CODES_def hp_codecName_def codecName_def fun_eq_iff
      hp_apoIndexFromCode_def apoIndexFromCode_def upt_rec)

text \<open>One probe: a request, and what an answer adds; errors are ignored.\<close>

definition hp_probe ::
    "'c IBluetoothConnector \<Rightarrow> u8 list \<Rightarrow> u8 \<Rightarrow> int \<Rightarrow> (u8 list \<Rightarrow> bool) \<Rightarrow>
     (u8 list \<Rightarrow> 'c Headphones \<Rightarrow> 'c Headphones) \<Rightarrow> ('c Headphones, unit) lprog" where
  "hp_probe C bytes ret sub good upd =
     tryL (bindL (hp_ask C bytes ret sub) (\<lambda>r. if good r then modifyL (upd r) else returnL ()))"

definition hp_probeCapabilities :: "'c IBluetoothConnector \<Rightarrow> ('c Headphones, unit) lprog" where
  "hp_probeCapabilities C =
     bindL (hp_probe C [0x04, 0x02] 0x05 (-1) (\<lambda>r. 3 < length r)
       (\<lambda>r h. h\<lparr>hp_deviceState := (hp_deviceState h)\<lparr>ds_firmware := payloadText r\<rparr>, hp_hasFirmware := True\<rparr>)) (\<lambda>_.
     bindL (hp_probe C [0x12, 0x02] 0x13 (-1) (\<lambda>r. 3 \<le> length r \<and> hp_codecName (r ! 2) \<noteq> '''')
       (\<lambda>r h. h\<lparr>hp_deviceState := (hp_deviceState h)\<lparr>ds_codec := hp_codecName (r ! 2)\<rparr>, hp_hasCodec := True\<rparr>)) (\<lambda>_.
     bindL (hp_probe C [0x26, 0x05] 0x27 (-1) (\<lambda>r. 4 \<le> length r)
       (\<lambda>r h. h\<lparr>hp_deviceState := (hp_deviceState h)\<lparr>ds_autoPowerOff := hp_apoIndexFromCode (r ! 2) (r ! 3)\<rparr>,
            hp_hasAutoPowerOff := True\<rparr>)) (\<lambda>_.
     bindL (hp_probe C [0xf6, 0x0a] 0xf7 0x0a (\<lambda>r. 3 \<le> length r)
       (\<lambda>r h. h\<lparr>hp_deviceState := (hp_deviceState h)\<lparr>ds_adaptiveVolume := (r ! 2 = 0)\<rparr>,
            hp_hasAdaptiveVolume := True\<rparr>)) (\<lambda>_.
     hp_probe C [0xf6, 0x0c] 0xf7 0x0c (\<lambda>r. 3 \<le> length r)
       (\<lambda>r h. h\<lparr>hp_deviceState := (hp_deviceState h)\<lparr>ds_speakToChat := (r ! 2 = 0)\<rparr>,
            hp_hasSpeakToChat := True\<rparr>)))))"

definition hp_setAutoPowerOff :: "'c IBluetoothConnector \<Rightarrow> int \<Rightarrow> ('c Headphones, unit) lprog" where
  "hp_setAutoPowerOff C index =
     (if index < 0 \<or> 5 < index then returnL ()
      else bindL (hp_tell C [0x28, 0x05, fst (hp_APO_CODES ! nat index), snd (hp_APO_CODES ! nat index)])
        (\<lambda>_. updState (\<lambda>s. s\<lparr>ds_autoPowerOff := index\<rparr>)))"

definition hp_setSpeakToChat :: "'c IBluetoothConnector \<Rightarrow> bool \<Rightarrow> ('c Headphones, unit) lprog" where
  "hp_setSpeakToChat C enabled = bindL (hp_tell C [0xf8, 0x0c, if enabled then 0x00 else 0x01, 0x01])
     (\<lambda>_. updState (\<lambda>s. s\<lparr>ds_speakToChat := enabled\<rparr>))"

definition hp_setAdaptiveVolume :: "'c IBluetoothConnector \<Rightarrow> bool \<Rightarrow> ('c Headphones, unit) lprog" where
  "hp_setAdaptiveVolume C enabled = bindL (hp_tell C [0xf8, 0x0a, if enabled then 0x00 else 0x01])
     (\<lambda>_. updState (\<lambda>s. s\<lparr>ds_adaptiveVolume := enabled\<rparr>))"

section \<open>Pushing changes\<close>

definition noiseSettled :: "'c Headphones \<Rightarrow> bool" where
  "noiseSettled h \<longleftrightarrow> isFulfilled (hp_ambientSoundControl h) \<and> isFulfilled (hp_focusOnVoice h) \<and> isFulfilled (hp_asmLevel h)"

definition positionSettled :: "'c Headphones \<Rightarrow> bool" where
  "positionSettled h \<longleftrightarrow> isFulfilled (hp_vptType h) \<and> isFulfilled (hp_surroundPosition h)"

definition isChanged :: "'c Headphones \<Rightarrow> bool" where
  "isChanged h \<longleftrightarrow> \<not> (isFulfilled (hp_ambientSoundControl h) \<and> isFulfilled (hp_asmLevel h) \<and>
     isFulfilled (hp_focusOnVoice h) \<and> isFulfilled (hp_surroundPosition h) \<and> isFulfilled (hp_vptType h))"

definition noiseCommand :: "SonyProtocolVersion \<Rightarrow> 'c Headphones \<Rightarrow> exn + u8 list" where
  "noiseCommand version h =
     (let ambient = pp_desired (hp_ambientSoundControl h); level = pp_desired (hp_asmLevel h);
          voice = (if pp_desired (hp_focusOnVoice h) then 1 else 0)
      in if version = V2
         then Inr (serializeNcAndAsmSettingV2 (if ambient then 1 else 0) (if 0 < level then 1 else 0) voice
                (byteOf (if 0 < level then level else 1)))
         else serializeNcAndAsmSetting (if ambient then 17 else 0) 1 1 voice
                (byteOf (if ambient then level else -1)))"

definition noteNoise :: "'c Headphones \<Rightarrow> 'c Headphones" where
  "noteNoise h =
     (let h1 = h\<lparr>hp_ambientSoundControl := fulfill (hp_ambientSoundControl h), hp_asmLevel := fulfill (hp_asmLevel h),
            hp_focusOnVoice := fulfill (hp_focusOnVoice h)\<rparr>
      in onNoise \<lparr>nc_mode = (if pp_current (hp_ambientSoundControl h1)
              then if 0 < pp_current (hp_asmLevel h1) then Ambient else NoiseCancelling else ModeOff),
            nc_ambientLevel = pp_current (hp_asmLevel h1), nc_focusOnVoice = pp_current (hp_focusOnVoice h1)\<rparr> h1)"

definition vptCommand :: "'c Headphones \<Rightarrow> exn + u8 list" where
  "vptCommand h =
     (if pp_desired (hp_vptType h) \<noteq> 0
      then Inr (serializeVPTSetting 1 (byteOf (pp_desired (hp_vptType h))))
      else if pp_desired (hp_surroundPosition h) \<noteq> PosOff
      then Inr (serializeVPTSetting 2 (positionByte (pp_desired (hp_surroundPosition h))))
      else if pp_current (hp_surroundPosition h) \<noteq> PosOff
      then Inr (serializeVPTSetting 2 (positionByte PosOff))
      else if pp_current (hp_vptType h) \<noteq> 0 then Inr (serializeVPTSetting 1 0)
      else Inl (StdException ''it's impossible that both values were changed to zero and were also previously zero''))"

definition notePosition :: "'c Headphones \<Rightarrow> 'c Headphones" where
  "notePosition h = h\<lparr>hp_vptType := fulfill (hp_vptType h), hp_surroundPosition := fulfill (hp_surroundPosition h)\<rparr>"

text \<open>Build a command, send it, and note that it was.\<close>

definition push ::
    "'c IBluetoothConnector \<Rightarrow> ('c Headphones \<Rightarrow> exn + u8 list) \<Rightarrow> ('c Headphones \<Rightarrow> 'c Headphones) \<Rightarrow>
     ('c Headphones, unit) lprog" where
  "push C command note h = bindL (liftL (map_sum Plain id (command h)))
     (\<lambda>bytes. bindL (hp_tell C bytes) (\<lambda>_. modifyL note)) h"

definition hp_setChanges :: "'c IBluetoothConnector \<Rightarrow> ('c Headphones, unit) lprog" where
  "hp_setChanges C h =
     (let version = wrapper_getProtocolVersion C (hp_conn h) in
      bindL (\<lambda>h. if \<not> noiseSettled h then push C (noiseCommand version) noteNoise h else returnL () h) (\<lambda>_ h.
        if version = V1 \<and> \<not> positionSettled h then push C vptCommand notePosition h else returnL () h) h)"

section \<open>Notifications\<close>

definition hp_handleNotification :: "u8 list \<Rightarrow> 'c Headphones \<Rightarrow> bool \<times> 'c Headphones" where
  "hp_handleNotification payload h =
     (let (handled, s, d) = parseNotificationPayload payload True (hp_deviceState h, hp_eventDispatcher h);
          h1 = h\<lparr>hp_deviceState := s, hp_eventDispatcher := d\<rparr>; nc = ds_noiseControl s
      in (handled,
          if \<not> handled then h1
          else if nc_mode nc \<noteq> ModeOff then adoptNoise True (nc_ambientLevel nc) (nc_focusOnVoice nc) h1
          else adoptNoise False 0 False h1))"

section \<open>What setChanges does\<close>

lemma bindL_cases:
  assumes "bindL m f s = Some (r, s')"
  obtains (err) e where "m s = Some (Inl e, s')" "r = Inl e"
  | (ok) x t where "m s = Some (Inr x, t)" "f x t = Some (r, s')"
  using assms by (auto simp: bindL_def split: option.splits prod.splits sum.splits)

text \<open>The branch that the code calls impossible is.\<close>

lemma vptCommand_possible: "\<not> positionSettled h \<Longrightarrow> \<exists>bytes. vptCommand h = Inr bytes"
  by (auto simp: positionSettled_def isFulfilled_def vptCommand_def)

lemma noiseCommand_error:
  "noiseCommand version h = Inl e \<Longrightarrow> e = StdException ''Exceeded max steps''"
  by (auto simp: noiseCommand_def Let_def serializeNcAndAsmSetting_def getDualSingleForAsmLevel_def split: if_splits)

lemma fulfill_done [simp]: "isFulfilled (fulfill p)" "pp_desired (fulfill p) = pp_desired p"
  "pp_current (fulfill p) = pp_desired p" "isFulfilled p \<Longrightarrow> fulfill p = p"
  by (simp_all add: fulfill_def isFulfilled_def)

text \<open>A push sends one command and changes the wrapper's side and what \<open>note\<close> says, or it ends with the
  error of the command or of sending it and changes the wrapper's side at most.\<close>

lemma push_cases:
  assumes "push C command note h = Some (r, h')"
  obtains (built) e where "command h = Inl e" "r = Inl (Plain e)" "h' = h"
  | (failed) bytes e w where "command h = Inr bytes" "wrapper_sendCommand C bytes (hp_conn h) = Some (Inl e, w)"
      "r = Inl e" "h' = h\<lparr>hp_conn := w\<rparr>"
  | (sent) bytes n w where "command h = Inr bytes" "wrapper_sendCommand C bytes (hp_conn h) = Some (Inr n, w)"
      "r = Inr ()" "h' = note (h\<lparr>hp_conn := w\<rparr>)"
proof (cases "command h")
  case (Inl e)
  moreover from this assms have "r = Inl (Plain e)" "h' = h" by (auto simp: push_def bindL_def liftL_def)
  ultimately show ?thesis by (rule built)
next
  case (Inr bytes)
  show ?thesis
  proof (cases "wrapper_sendCommand C bytes (hp_conn h)")
    case (Some rw)
    obtain x w where rw: "rw = (x, w)" by fastforce
    note run = push_def bindL_def liftL_def hp_tell_def viaConn_def returnL_def modifyL_def
    show ?thesis
    proof (cases x)
      case (Inl e)
      then have "r = Inl e" "h' = h\<lparr>hp_conn := w\<rparr>" using assms Some \<open>command h = Inr bytes\<close> rw by (auto simp: run)
      with \<open>command h = Inr bytes\<close> Some rw Inl failed show ?thesis by simp
    next
      case (Inr n)
      then have "r = Inr ()" "h' = note (h\<lparr>hp_conn := w\<rparr>)" using assms Some \<open>command h = Inr bytes\<close> rw by (auto simp: run)
      with \<open>command h = Inr bytes\<close> Some rw Inr sent show ?thesis by simp
    qed
  qed (use assms Inr in \<open>simp add: push_def bindL_def liftL_def hp_tell_def viaConn_def\<close>)
qed

text \<open>What the user asked for, which pushing never changes.\<close>

definition wishes :: "'c Headphones \<Rightarrow> bool \<times> bool \<times> int \<times> SOUND_POSITION_PRESET \<times> int" where
  "wishes h = (pp_desired (hp_ambientSoundControl h), pp_desired (hp_focusOnVoice h), pp_desired (hp_asmLevel h),
     pp_desired (hp_surroundPosition h), pp_desired (hp_vptType h))"

lemma wishes_kept [simp]:
  "wishes (noteNoise h) = wishes h" "wishes (notePosition h) = wishes h" "wishes (h\<lparr>hp_conn := w\<rparr>) = wishes h"
  by (simp_all add: wishes_def noteNoise_def notePosition_def Let_def onNoise_def)

lemma settled_conn [simp]:
  "noiseSettled (h\<lparr>hp_conn := w\<rparr>) = noiseSettled h" "positionSettled (h\<lparr>hp_conn := w\<rparr>) = positionSettled h"
  "noiseSettled (noteNoise h)" "positionSettled (noteNoise h) = positionSettled h"
  "positionSettled (notePosition h)" "noiseSettled (notePosition h) = noiseSettled h"
  by (simp_all add: noiseSettled_def positionSettled_def noteNoise_def notePosition_def onNoise_def Let_def)

lemma isChanged_settled: "isChanged h \<longleftrightarrow> \<not> (noiseSettled h \<and> positionSettled h)"
  by (auto simp: isChanged_def noiseSettled_def positionSettled_def)

lemma noteNoise_others [simp]:
  "hp_surroundPosition (noteNoise h) = hp_surroundPosition h" "hp_vptType (noteNoise h) = hp_vptType h"
  by (simp_all add: noteNoise_def onNoise_def Let_def)

definition linkError :: "'c IBluetoothConnector \<Rightarrow> connExn \<Rightarrow> bool" where
  "linkError C e \<longleftrightarrow> (\<exists>bytes w w'. wrapper_sendCommand C bytes w = Some (Inl e, w'))"

lemma push_noise:
  assumes "(if \<not> noiseSettled h then push C (noiseCommand v) noteNoise h else returnL () h) = Some (r, h')"
  shows "wishes h' = wishes h \<and> (case r of
      Inr _ \<Rightarrow> noiseSettled h' \<and> hp_surroundPosition h' = hp_surroundPosition h \<and> hp_vptType h' = hp_vptType h
    | Inl e \<Rightarrow> e = Plain (StdException ''Exceeded max steps'') \<and> v = V1 \<or> linkError C e)"
proof (cases "noiseSettled h")
  case False
  with assms have "push C (noiseCommand v) noteNoise h = Some (r, h')" by simp
  then show ?thesis
  proof (cases rule: push_cases)
    case (built e)
    then have "v = V1" by (cases v) (auto simp: noiseCommand_def Let_def)
    with built noiseCommand_error [OF built(1)] show ?thesis by simp
  next
    case (failed bytes e w)
    then show ?thesis by (auto simp: linkError_def)
  qed simp
qed (use assms in \<open>auto simp: returnL_def\<close>)

lemma push_position:
  assumes "(if v = V1 \<and> \<not> positionSettled h then push C vptCommand notePosition h else returnL () h) = Some (r, h')"
  shows "wishes h' = wishes h \<and> noiseSettled h' = noiseSettled h \<and> (case r of
      Inr _ \<Rightarrow> if v = V1 then positionSettled h' else h' = h
    | Inl e \<Rightarrow> linkError C e)"
proof (cases "v = V1 \<and> \<not> positionSettled h")
  case True
  with assms have "push C vptCommand notePosition h = Some (r, h')" by simp
  then show ?thesis
  proof (cases rule: push_cases)
    case (built e)
    with vptCommand_possible [of h] True show ?thesis by auto
  next
    case (failed bytes e w)
    then show ?thesis by (auto simp: linkError_def)
  qed (use True in simp)
qed (use assms in \<open>auto simp: returnL_def\<close>)

text \<open>On V2, the state stored with a command is what a headset would report that took it literally.\<close>

lemma noise_stored_as_sent:
  assumes "0 \<le> pp_desired (hp_asmLevel h)" "pp_desired (hp_asmLevel h) < 256"
  shows "map_sum id v2_decodeNoise (noiseCommand V2 h) = Inr (ds_noiseControl (hp_deviceState (noteNoise h)))"
  using assms
  by (auto simp: noiseCommand_def serializeNcAndAsmSettingV2_def v2_decodeNoise_def noteNoise_def onNoise_def Let_def
      byteOf_def intOf_def unsigned_of_int take_bit_int_eq_self)

lemma changes_base:
  "case hp_setChanges C h of
     None \<Rightarrow> True
   | Some (Inr _, h') \<Rightarrow> noiseSettled h' \<and> wishes h' = wishes h \<and>
       (if bc_getProtocolVersion C (wr_connector (hp_conn h)) = V1 then \<not> isChanged h'
        else hp_surroundPosition h' = hp_surroundPosition h \<and> hp_vptType h' = hp_vptType h)
   | Some (Inl e, h') \<Rightarrow> wishes h' = wishes h \<and>
       (e = Plain (StdException ''Exceeded max steps'') \<and> bc_getProtocolVersion C (wr_connector (hp_conn h)) = V1 \<or>
        linkError C e)"
proof (cases "hp_setChanges C h")
  case (Some rh)
  obtain r h' where rh: "rh = (r, h')" by fastforce
  let ?v = "bc_getProtocolVersion C (wr_connector (hp_conn h))"
  have "bindL (\<lambda>h. if \<not> noiseSettled h then push C (noiseCommand ?v) noteNoise h else returnL () h)
      (\<lambda>_ h. if ?v = V1 \<and> \<not> positionSettled h then push C vptCommand notePosition h else returnL () h) h = Some (r, h')"
    using Some by (simp add: rh hp_setChanges_def Let_def wrapper_getProtocolVersion_def)
  then show ?thesis
  proof (cases rule: bindL_cases)
    case (err e)
    with push_noise [OF err(1)] Some rh show ?thesis by simp
  next
    case (ok x h1)
    with push_noise [OF ok(1)] push_position [OF ok(2)] Some rh show ?thesis
      by (cases r) (auto simp: isChanged_settled split: if_splits)
  qed
qed simp


section \<open>What goes wrong\<close>

text \<open>On V2 there is always something left to push: the position starts as one that is not the desired
  one, and only the push to V1 settles it.\<close>

lemma v2_always_changed:
  "bc_getProtocolVersion C (wr_connector w) = V2 \<Longrightarrow> hp_setChanges C (newHeadphones w) = Some (Inr (), h') \<Longrightarrow> isChanged h'"
  using changes_base [where C = C and h = "newHeadphones w"]
  by (auto simp: newHeadphones_def isChanged_def isFulfilled_def)

text \<open>A notification of anything, the battery say, discards what the user asked for and was not yet
  pushed.\<close>

lemma notification_discards_wishes:
  "hp_handleNotification p h = (True, h') \<Longrightarrow> noiseSettled h'"
  by (auto simp: hp_handleNotification_def adoptNoise_def both_def noiseSettled_def isFulfilled_def Let_def
      split: prod.splits if_splits)

text \<open>A custom equalizer is sent clamped, but stored as it was asked for.\<close>

lemma equalizer_stored_unclamped:
  "hp_setEqualizerCustom C clearBass bands h = Some (Inr (), h') \<Longrightarrow>
     eq_clearBass (ds_equalizer (hp_deviceState h')) = clearBass"
  by (auto simp: hp_setEqualizerCustom_def onEqualizer_def updState_def modifyL_def elim!: bindL_cases)

text \<open>The battery is asked for with opcode \<open>0x22\<close> whatever the headset speaks, though on V1 that
  opcode powers it off: the guard that \<open>SonyDevice\<close> has is missing here.\<close>

definition silent :: "Script Wrapper \<Rightarrow> bool" where
  "silent w \<longleftrightarrow> wr_leftoverBytes w = [] \<and> sc_reads (wr_connector w) = []"

lemma silent_request:
  assumes "silent w" "length cmd \<le> 1016"
  shows "\<exists>w'. sendCommandAndReadResponse (scripted v) cmd ret sub w =
      Some (Inl (Recoverable ''Receive script exhausted'' False), w') \<and> silent w' \<and>
    writes w' = writes w @ [wireOf (mkFrame DT_DataMdr (ucast (wr_seqNumber w)) cmd)]"
proof -
  let ?w = "w\<lparr>wr_seqNumber := wr_seqNumber w + 1, wr_connector := (wr_connector w)
    \<lparr>sc_writes := writes w @ [wireOf (mkFrame DT_DataMdr (ucast (wr_seqNumber w)) cmd)]\<rparr>\<rparr>"
  have "readBytes (scripted v) False [] ?w = Some (Inl (Recoverable ''Receive script exhausted'' False), ?w)"
    using assms(1) by (subst readBytes.simps) (simp add: readChunk_def silent_def scripted_def script_recv_def)
  then have "readMessage (scripted v) ?w = Some (Inl (Recoverable ''Receive script exhausted'' False), ?w)"
    by (simp add: readMessage_def bindL_def)
  then have "awaitResponse (scripted v) ret sub 16 ?w = Some (Inl (Recoverable ''Receive script exhausted'' False), ?w)"
    by (simp add: numeral_eq_Suc bindL_def)
  moreover have "sendCommandAndReadResponse (scripted v) cmd ret sub w = awaitResponse (scripted v) ret sub 16 ?w"
    using sendFrame_scripted [OF assms(2), of v DT_DataMdr "wr_seqNumber w" "w\<lparr>wr_seqNumber := wr_seqNumber w + 1\<rparr>"]
    by (simp add: sendCommandAndReadResponse_def bindL_def nextSeq_def)
  ultimately show ?thesis using assms(1) by (simp add: silent_def)
qed

lemma battery_asked_of_v1:
  assumes "silent (hp_conn h)"
  shows "\<exists>h' q1 q2. hp_requestBattery (scripted V1) h = Some (Inr (), h') \<and> writes (hp_conn h') = writes (hp_conn h) @
    [wireOf (mkFrame DT_DataMdr (ucast (wr_seqNumber (hp_conn h))) [0x22, 0x00]),
     wireOf (mkFrame DT_DataMdr q1 [0x22, 0x09]), wireOf (mkFrame DT_DataMdr q2 [0x22, 0x0a])]"
proof -
  note run = bindL_def viaConn_def hp_ask_def tryL_def returnL_def
  from silent_request [OF assms, of "[0x22, 0x00]" V1 "0x23" "0x00"] obtain w1 where
    1: "sendCommandAndReadResponse (scripted V1) [0x22, 0x00] 0x23 0x00 (hp_conn h) =
        Some (Inl (Recoverable ''Receive script exhausted'' False), w1)" "silent w1"
      "writes w1 = writes (hp_conn h) @ [wireOf (mkFrame DT_DataMdr (ucast (wr_seqNumber (hp_conn h))) [0x22, 0x00])]"
    by auto
  from silent_request [OF 1(2), of "[0x22, 0x09]" V1 "0x23" "0x09"] obtain w2 where
    2: "sendCommandAndReadResponse (scripted V1) [0x22, 0x09] 0x23 0x09 w1 =
        Some (Inl (Recoverable ''Receive script exhausted'' False), w2)" "silent w2"
      "writes w2 = writes w1 @ [wireOf (mkFrame DT_DataMdr (ucast (wr_seqNumber w1)) [0x22, 0x09])]" by auto
  from silent_request [OF 2(2), of "[0x22, 0x0a]" V1 "0x23" "0x0a"] obtain w3 where
    3: "sendCommandAndReadResponse (scripted V1) [0x22, 0x0a] 0x23 0x0a w2 =
        Some (Inl (Recoverable ''Receive script exhausted'' False), w3)"
      "writes w3 = writes w2 @ [wireOf (mkFrame DT_DataMdr (ucast (wr_seqNumber w2)) [0x22, 0x0a])]" by auto
  from 1 have "askSingle (scripted V1) h = Some (Inr False, h\<lparr>hp_conn := w1\<rparr>)"
    by (simp add: askSingle_def run)
  then have "hp_requestBattery (scripted V1) h = Some (Inr (), h\<lparr>hp_conn := w3\<rparr>)"
    using 2(1) 3(1) by (simp add: hp_requestBattery_def run)
  then show ?thesis using 1(3) 2(3) 3(2) by auto
qed

end
