(* ===== verification/LegacyValues.thy ===== *)
theory LegacyValues
  imports Headphones EqualizerPresets
begin

text \<open>
  The numbers and names of the older client, \<open>Constants.h\<close>, as data of their own, and how they
  compare with what the newer libraries use; the getters and subscriptions of \<open>Headphones\<close>; and
  \<open>SingleInstanceFuture\<close>, which the older client's user interface runs its calls in.
\<close>

section \<open>Enumerations and opcodes\<close>

datatype V2Command =
    INIT_REQUEST | INIT_REPLY | BATTERY_GET | BATTERY_RET | BATTERY_NTFY | EQ_GET | EQ_RET | EQ_SET
  | DSEE_GET | DSEE_RET | DSEE_SET | FW_GET | FW_RET | CODEC_GET | CODEC_RET | APO_GET | APO_RET | APO_SET
  | BTNMODE_GET | BTNMODE_RET | BTNMODE_SET | SUB_ADAPTIVE_VOLUME | SUB_SPEAK_TO_CHAT

fun v2Byte :: "V2Command \<Rightarrow> u8" where
  "v2Byte INIT_REQUEST = 0x00"
| "v2Byte INIT_REPLY = 0x01"
| "v2Byte BATTERY_GET = 0x22"
| "v2Byte BATTERY_RET = 0x23"
| "v2Byte BATTERY_NTFY = 0x25"
| "v2Byte EQ_GET = 0x56"
| "v2Byte EQ_RET = 0x57"
| "v2Byte EQ_SET = 0x58"
| "v2Byte DSEE_GET = 0xe6"
| "v2Byte DSEE_RET = 0xe7"
| "v2Byte DSEE_SET = 0xe8"
| "v2Byte FW_GET = 0x04"
| "v2Byte FW_RET = 0x05"
| "v2Byte CODEC_GET = 0x12"
| "v2Byte CODEC_RET = 0x13"
| "v2Byte APO_GET = 0x26"
| "v2Byte APO_RET = 0x27"
| "v2Byte APO_SET = 0x28"
| "v2Byte BTNMODE_GET = 0xf6"
| "v2Byte BTNMODE_RET = 0xf7"
| "v2Byte BTNMODE_SET = 0xf8"
| "v2Byte SUB_ADAPTIVE_VOLUME = 0x0a"
| "v2Byte SUB_SPEAK_TO_CHAT = 0x0c"

text \<open>\<open>EQ_PRESET\<close> and \<open>DATA_TYPE\<close>, with their values.\<close>

datatype EQ_PRESET =
    OFF | BRIGHT | EXCITED | MELLOW | RELAXED | VOCAL | TREBLE_BOOST | BASS_BOOST | SPEECH | MANUAL

fun eqPresetByte :: "EQ_PRESET \<Rightarrow> u8" where
  "eqPresetByte OFF = 0x00"
| "eqPresetByte BRIGHT = 0x10"
| "eqPresetByte EXCITED = 0x11"
| "eqPresetByte MELLOW = 0x12"
| "eqPresetByte RELAXED = 0x13"
| "eqPresetByte VOCAL = 0x14"
| "eqPresetByte TREBLE_BOOST = 0x15"
| "eqPresetByte BASS_BOOST = 0x16"
| "eqPresetByte SPEECH = 0x17"
| "eqPresetByte MANUAL = 0xa0"

definition legacyDataTypes :: "(int \<times> string) list" where
  "legacyDataTypes =
    [(0, ''DATA''), (1, ''ACK''), (2, ''DATA_MC_NO1''), (9, ''DATA_ICD''), (10, ''DATA_EV''),
     (12, ''DATA_MDR''), (13, ''DATA_COMMON''), (14, ''DATA_MDR_NO2''), (16, ''SHOT''),
     (18, ''SHOT_MC_NO1''), (25, ''SHOT_ICD''), (26, ''SHOT_EV''), (28, ''SHOT_MDR''),
     (29, ''SHOT_COMMON''), (30, ''SHOT_MDR_NO2''), (45, ''LARGE_DATA_COMMON''), (-1, ''UNKNOWN'')]"

text \<open>The enumerations of noise control and of the virtual positions, by their values.\<close>

datatype NC_ASM_EFFECT = EffectOff | EffectOn | InProgress | Completion

fun effectByte :: "NC_ASM_EFFECT \<Rightarrow> u8" where
  "effectByte EffectOff = 0"
| "effectByte EffectOn = 1"
| "effectByte InProgress = 16"
| "effectByte Completion = 17"

datatype NC_ASM_INQUIRED_TYPE = NcNoUse | NcOnly | NcAndAsm | AsmOnly

fun inquiredByte :: "NC_ASM_INQUIRED_TYPE \<Rightarrow> u8" where
  "inquiredByte NcNoUse = 0"
| "inquiredByte NcOnly = 1"
| "inquiredByte NcAndAsm = 2"
| "inquiredByte AsmOnly = 3"

datatype NC_ASM_SETTING_TYPE = NcOnOff | NcLevelAdjustment | DualSingleOff

fun ncSettingByte :: "NC_ASM_SETTING_TYPE \<Rightarrow> u8" where
  "ncSettingByte NcOnOff = 0"
| "ncSettingByte NcLevelAdjustment = 1"
| "ncSettingByte DualSingleOff = 2"

datatype NC_DUAL_SINGLE_VALUE = NcOff | Single | Dual

fun dualByte :: "NC_DUAL_SINGLE_VALUE \<Rightarrow> u8" where
  "dualByte NcOff = 0"
| "dualByte Single = 1"
| "dualByte Dual = 2"

datatype COMMAND_TYPE = VPT_SET_PARAM | NCASM_SET_PARAM

fun commandByte :: "COMMAND_TYPE \<Rightarrow> u8" where
  "commandByte VPT_SET_PARAM = 72"
| "commandByte NCASM_SET_PARAM = 104"

datatype VPT_INQUIRED_TYPE = VptNoUse | VptPreset | SoundPosition | VptOutOfRange

fun vptByte :: "VPT_INQUIRED_TYPE \<Rightarrow> u8" where
  "vptByte VptNoUse = 0"
| "vptByte VptPreset = 1"
| "vptByte SoundPosition = 2"
| "vptByte VptOutOfRange = -1"

definition SOUND_POSITION_PRESET_ARRAY :: "SOUND_POSITION_PRESET list" where
  "SOUND_POSITION_PRESET_ARRAY = [PosOff, FrontLeft, FrontRight, Front, RearLeft, RearRight, OutOfRange]"

section \<open>Service identifiers\<close>

definition SERVICE_UUID :: string where
  "SERVICE_UUID = ''96CC203E-5068-46ad-B32D-E316F5E069BA''"

definition SERVICE_UUID_IN_BYTES :: "u8 list" where
  "SERVICE_UUID_IN_BYTES =
     [0x96, 0xcc, 0x20, 0x3e, 0x50, 0x68, 0x46, 0xad, 0xb3, 0x2d, 0xe3, 0x16, 0xf5, 0xe0, 0x69, 0xba]"

definition SERVICE_UUID_V2 :: string where
  "SERVICE_UUID_V2 = ''956C7B26-D49A-4BA8-B03F-B17D393CB6E2''"

definition SERVICE_UUID_V2_IN_BYTES :: "u8 list" where
  "SERVICE_UUID_V2_IN_BYTES =
     [0x95, 0x6c, 0x7b, 0x26, 0xd4, 0x9a, 0x4b, 0xa8, 0xb0, 0x3f, 0xb1, 0x7d, 0x39, 0x3c, 0xb6, 0xe2]"

text \<open>The bytes that a textual identifier stands for: its digits in pairs, without the dashes.\<close>

fun pairBytes :: "nat list \<Rightarrow> u8 list" where
  "pairBytes (h # l # ds) = of_nat (16 * h + l) # pairBytes ds"
| "pairBytes _ = []"

definition digitVal :: "char \<Rightarrow> nat" where
  "digitVal c = (let n = (of_char (tolowerC c) :: nat) in if n \<le> 57 then n - 48 else n - 87)"

definition uuidBytes :: "string \<Rightarrow> u8 list" where
  "uuidBytes s = pairBytes (map digitVal (filter isxdigitC s))"

lemma uuid_tables:
  "SERVICE_UUID_IN_BYTES = uuidBytes SERVICE_UUID" "SERVICE_UUID_V2_IN_BYTES = uuidBytes SERVICE_UUID_V2"
  by code_simp+

section \<open>The same tables twice\<close>

text \<open>\<open>DATA_TYPE\<close> has the values of \<open>DataType\<close>, under names that differ in underscores and
  capitals only; the two lists of equalizer presets have the same bytes.\<close>

definition plainName :: "string \<Rightarrow> string" where
  "plainName s = map tolowerC (filter (\<lambda>c. c \<noteq> CHR ''_'') s)"

lemma data_types_agree:
  "map (\<lambda>(v, n). (word_of_int v, plainName n)) legacyDataTypes = map (\<lambda>(b, n). (b, plainName n)) dataTypeNames"
  by code_simp

fun newPreset :: "EQ_PRESET \<Rightarrow> EqualizerPreset" where
  "newPreset OFF = EqOff"
| "newPreset BRIGHT = Bright"
| "newPreset EXCITED = Excited"
| "newPreset MELLOW = Mellow"
| "newPreset RELAXED = Relaxed"
| "newPreset VOCAL = Vocal"
| "newPreset TREBLE_BOOST = TrebleBoost"
| "newPreset BASS_BOOST = BassBoost"
| "newPreset SPEECH = Speech"
| "newPreset MANUAL = Manual"

lemma presets_agree: "presetByte (newPreset p) = intOf (eqPresetByte p)"
  by (cases p) (simp_all add: intOf_def)

lemma preset_bytes_differ: "eqPresetByte p = eqPresetByte q \<Longrightarrow> p = q"
  by (cases p; cases q) simp_all

text \<open>The noise-control command of V1, by the names of its bytes.\<close>

lemma noiseCommand_named:
  assumes "noiseCommand V1 h = Inr bytes"
  shows "\<exists>dual. bytes = [commandByte NCASM_SET_PARAM, inquiredByte NcAndAsm,
      effectByte (if pp_desired (hp_ambientSoundControl h) then Completion else EffectOff),
      ncSettingByte NcLevelAdjustment, dualByte dual, 1, if pp_desired (hp_focusOnVoice h) then 1 else 0,
      byteOf (if pp_desired (hp_ambientSoundControl h) then pp_desired (hp_asmLevel h) else -1)]"
proof -
  have dual: "\<exists>d. x = dualByte d" if "getDualSingleForAsmLevel l = Inr x" for l x
    using that by (auto simp: getDualSingleForAsmLevel_def split: if_splits
        intro: exI [of _ NcOff] exI [of _ Single] exI [of _ Dual])
  show ?thesis
    using assms dual
    by (cases "getDualSingleForAsmLevel (byteOf (if pp_desired (hp_ambientSoundControl h) then pp_desired (hp_asmLevel h) else -1))")
      (auto simp: noiseCommand_def serializeNcAndAsmSetting_def Let_def)
qed

section \<open>Getters and subscriptions\<close>

definition getAmbientSoundControl :: "'c Headphones \<Rightarrow> bool" where
  "getAmbientSoundControl h = pp_current (hp_ambientSoundControl h)"

definition getFocusOnVoice :: "'c Headphones \<Rightarrow> bool" where
  "getFocusOnVoice h = pp_current (hp_focusOnVoice h)"

definition getAsmLevel :: "'c Headphones \<Rightarrow> int" where
  "getAsmLevel h = pp_current (hp_asmLevel h)"

definition getSurroundPosition :: "'c Headphones \<Rightarrow> SOUND_POSITION_PRESET" where
  "getSurroundPosition h = pp_current (hp_surroundPosition h)"

definition getVptType :: "'c Headphones \<Rightarrow> int" where
  "getVptType h = pp_current (hp_vptType h)"

definition isBatteryCharging :: "'c Headphones \<Rightarrow> bool" where
  "isBatteryCharging h = bt_charging (ds_battery (hp_deviceState h))"

text \<open>\<open>static_cast<EQ_PRESET>\<close> of an \<open>int\<close> keeps its low byte.\<close>

definition getEqualizerPreset :: "'c Headphones \<Rightarrow> u8" where
  "getEqualizerPreset h = byteOf (eq_preset (ds_equalizer (hp_deviceState h)))"

definition getClearBass :: "'c Headphones \<Rightarrow> int" where
  "getClearBass h = eq_clearBass (ds_equalizer (hp_deviceState h))"

definition hp_getDsee :: "'c Headphones \<Rightarrow> bool" where
  "hp_getDsee h = ds_dsee (hp_deviceState h)"

definition hp_getAutoPowerOff :: "'c Headphones \<Rightarrow> bool \<times> int" where
  "hp_getAutoPowerOff h = (hp_hasAutoPowerOff h, ds_autoPowerOff (hp_deviceState h))"

definition getFirmwareAndCodec :: "'c Headphones \<Rightarrow> (bool \<times> string) \<times> (bool \<times> string)" where
  "getFirmwareAndCodec h =
     ((hp_hasFirmware h, ds_firmware (hp_deviceState h)), (hp_hasCodec h, ds_codec (hp_deviceState h)))"

definition hp_getSpeakToChat :: "'c Headphones \<Rightarrow> bool \<times> bool" where
  "hp_getSpeakToChat h = (hp_hasSpeakToChat h, ds_speakToChat (hp_deviceState h))"

definition hp_getAdaptiveVolume :: "'c Headphones \<Rightarrow> bool \<times> bool" where
  "hp_getAdaptiveVolume h = (hp_hasAdaptiveVolume h, ds_adaptiveVolume (hp_deviceState h))"

definition hp_snapshot :: "'c Headphones \<Rightarrow> DeviceState" where
  "hp_snapshot h = hp_deviceState h"

text \<open>The five \<open>on\<dots>Changed\<close> functions, and \<open>removeEventListener\<close>.\<close>

definition hp_subscribe :: "EventKind \<Rightarrow> nat option \<Rightarrow> 'c Headphones \<Rightarrow> u64 \<times> 'c Headphones" where
  "hp_subscribe k handler h = (let (i, d) = subscribe k handler (hp_eventDispatcher h) in (i, h\<lparr>hp_eventDispatcher := d\<rparr>))"

definition removeEventListener :: "u64 \<Rightarrow> 'c Headphones \<Rightarrow> 'c Headphones" where
  "removeEventListener i h = h\<lparr>hp_eventDispatcher := removeListener i (hp_eventDispatcher h)\<rparr>"

text \<open>What was set is read back; the index of the user interface names each position once.\<close>

lemma get_after_preset:
  "hp_setEqualizerPreset C p h = Some (Inr u, h') \<Longrightarrow> getEqualizerPreset h' = p"
  by (auto simp: hp_setEqualizerPreset_def onEqualizer_def updState_def modifyL_def getEqualizerPreset_def
      byteOf_def intOf_def elim!: bindL_cases)

lemma get_after_custom:
  "hp_setEqualizerCustom C bass bands h = Some (Inr u, h') \<Longrightarrow> length bands = 5 \<Longrightarrow> i < 5 \<Longrightarrow>
   getEqualizerPreset h' = eqPresetByte MANUAL \<and> getClearBass h' = bass \<and> getEqualizerBand (int i) h' = bands ! i"
  by (auto simp: hp_setEqualizerCustom_def onEqualizer_def updState_def modifyL_def getEqualizerPreset_def
      getClearBass_def getEqualizerBand_def byteOf_def bandAt_def elim!: bindL_cases)

lemma positions_once:
  "distinct SOUND_POSITION_PRESET_ARRAY" "p \<in> set SOUND_POSITION_PRESET_ARRAY"
  "distinct (map positionByte SOUND_POSITION_PRESET_ARRAY)"
  by (simp_all add: SOUND_POSITION_PRESET_ARRAY_def) (cases p; simp)

section \<open>One call at a time\<close>

text \<open>A \<open>std::future\<close>: without a call, with one that runs, with one that is done.\<close>

datatype 'a SingleInstanceFuture = NoCall | Running | Done 'a

fun future_valid :: "'a SingleInstanceFuture \<Rightarrow> bool" where
  "future_valid NoCall = False"
| "future_valid _ = True"

definition setFromAsync :: "('a SingleInstanceFuture, unit) prog" where
  "setFromAsync fut =
     (if future_valid fut
      then (Inl (StdException ''The asynchronous action was cancelled before it finished executing''), fut)
      else (Inr (), Running))"

definition future_ready :: "'a SingleInstanceFuture \<Rightarrow> bool" where
  "future_ready fut =
     (if \<not> future_valid fut then False else case fut of Done x \<Rightarrow> True | _ \<Rightarrow> False)"

text \<open>The thread ends with \<open>x\<close>; \<open>get\<close> of the base class, which waits, takes the result.\<close>

fun finishCall :: "'a \<Rightarrow> 'a SingleInstanceFuture \<Rightarrow> 'a SingleInstanceFuture" where
  "finishCall x Running = Done x"
| "finishCall x fut = fut"

fun takeResult :: "'a SingleInstanceFuture \<Rightarrow> ('a \<times> 'a SingleInstanceFuture) option" where
  "takeResult (Done x) = Some (x, NoCall)"
| "takeResult fut = None"

fun_cases takeResultE: "takeResult fut = Some r"

text \<open>At most one call is under way, and a call that is done has to be collected before the next
  one, whatever the message of the exception says.\<close>

lemma one_call_at_a_time:
  "setFromAsync fut = (Inr (), fut') \<longleftrightarrow> fut = NoCall \<and> fut' = Running"
  "takeResult fut = Some (x, fut') \<Longrightarrow> future_ready fut \<and> fst (setFromAsync fut') = Inr ()"
  by (cases fut) (auto simp: setFromAsync_def future_ready_def elim!: takeResultE)

lemma call_collected:
  "snd (setFromAsync NoCall) = Running \<and> takeResult (finishCall x Running) = Some (x, NoCall) \<and>
   fst (setFromAsync (finishCall x Running)) = Inl (StdException ''The asynchronous action was cancelled before it finished executing'')"
  by (simp add: setFromAsync_def)

end
