(* ===== verification/DebugBuild.thy ===== *)
theory DebugBuild
  imports IpcServer ByteMagic Logger
begin

text \<open>
  What a Debug build adds (\<open>SONY_ENABLE_RAW\<close>): the command \<open>raw\<close>, which sends bytes to the
  headset as they are, past every guard. The other theories model the Release build; here is
  the difference, and what it costs: the guarantees about what reaches a headset do not hold
  for a daemon that was built this way.
\<close>

section \<open>The bytes of a raw command\<close>

text \<open>\<open>std::stoul(arg, &consumed, 16)\<close> with a 64-bit \<open>unsigned long\<close>: the value and \<open>consumed\<close>;
  \<open>None\<close> stands for the exceptions. \<open>0x\<close> is a prefix only before a digit, and a minus sign
  negates modulo \<open>2 ^ 64\<close>.\<close>

definition stoul16 :: "string \<Rightarrow> (u64 \<times> nat) option" where
  "stoul16 s =
     (let s1 = dropWhile isspaceC s;
          negative = (s1 \<noteq> [] \<and> hd s1 = CHR ''-'');
          s2 = (if s1 \<noteq> [] \<and> hd s1 \<in> {CHR ''-'', CHR ''+''} then tl s1 else s1);
          s3 = (if take 2 s2 \<in> {''0x'', ''0X''} \<and> drop 2 s2 \<noteq> [] \<and> isxdigitC (hd (drop 2 s2))
                then drop 2 s2 else s2);
          digits = takeWhile isxdigitC s3;
          n = hexDigitsVal 0 digits
      in if digits = [] \<or> 2 ^ 64 \<le> n then None
         else Some (if negative then - of_nat n else of_nat n, length s - length (dropWhile isxdigitC s3)))"

definition rawByte :: "string \<Rightarrow> u8 option" where
  "rawByte arg = (case stoul16 arg of
      None \<Rightarrow> None
    | Some (byte, used) \<Rightarrow> if used \<noteq> length arg \<or> 0xff < byte then None else Some (ucast byte))"

fun rawPayload :: "string list \<Rightarrow> u8 list option" where
  "rawPayload [] = Some []"
| "rawPayload (arg # args) = (case rawByte arg of
      None \<Rightarrow> None
    | Some b \<Rightarrow> map_option ((#) b) (rawPayload args))"

section \<open>The command\<close>

definition device_sendRaw :: "'t Env \<Rightarrow> u8 list \<Rightarrow> ('t Device, unit) prog" where
  "device_sendRaw E payload d =
     (case dv_session d of
        None \<Rightarrow> (Inr (), d)
      | Some s \<Rightarrow>
          let (r, s') = session_send (en_T E) (en_polls E) (mkFrame DT_DataMdr 0 payload) 2000 s
          in (r, absorb E s s' d))"

definition raw_case :: "('s, 't) IDeviceService \<Rightarrow> 't Env \<Rightarrow> IpcCommand \<Rightarrow> ('s, IpcResponse) prog" where
  "raw_case S E cmd =
     (if ic_args cmd = [] then returnP (respond False ''Usage: raw <hex byte> [hex byte...]'' '''')
      else case rawPayload (ic_args cmd) of
        None \<Rightarrow> returnP (respond False ''Invalid hex byte in raw payload'' '''')
      | Some payload \<Rightarrow> act S (device_sendRaw E payload) ''Raw payload sent'')"

text \<open>\<open>execute\<close> and \<open>commandNeedsConnection\<close> without their \<open>#ifndef\<close> blocks; they differ from
  the Release build on \<open>raw\<close> alone.\<close>

definition debug_execute :: "('s, 't) IDeviceService \<Rightarrow> 't Env \<Rightarrow> IpcCommand \<Rightarrow> ('s, IpcResponse) prog" where
  "debug_execute S E cmd =
     (if ic_type cmd = Raw
      then bindP (getP (is_activeDevice S)) (\<lambda>dev. case dev of
          None \<Rightarrow> returnP (respond False ''No device connected'' '''')
        | Some d \<Rightarrow>
            if \<not> device_isConnected E d then returnP (respond False ''No device connected'' '''')
            else catchAny (raw_case S E cmd)
                   (\<lambda>e. returnP (respond False (''Command failed: '' @ exn_what e) '''')))
      else ipc_execute S E cmd)"

definition debug_needsConnection :: "string \<Rightarrow> bool" where
  "debug_needsConnection line \<longleftrightarrow>
     commandNeedsConnection line \<or> (\<not> jsonLine line \<and> ic_type (parseCommand line) = Raw)"

section \<open>What it reads\<close>

text \<open>Two hexadecimal digits, as the logger writes them, are read as their byte.\<close>

lemma hexDigit_facts:
  assumes "n < 16"
  shows "isxdigitC (hexDigit n)" "hexVal (hexDigit n) = n" "\<not> isspaceC (hexDigit n)"
    "hexDigit n \<noteq> CHR ''-''" "hexDigit n \<noteq> CHR ''+''" "hexDigit n \<noteq> CHR ''x''" "hexDigit n \<noteq> CHR ''X''"
proof -
  have "list_all (\<lambda>n. isxdigitC (hexDigit n) \<and> hexVal (hexDigit n) = n \<and> \<not> isspaceC (hexDigit n) \<and>
      hexDigit n \<notin> set ''-+xX'') [0..<16]" by code_simp
  with assms have "isxdigitC (hexDigit n) \<and> hexVal (hexDigit n) = n \<and> \<not> isspaceC (hexDigit n) \<and>
      hexDigit n \<notin> set ''-+xX''" by (simp add: list_all_iff)
  then show "isxdigitC (hexDigit n)" "hexVal (hexDigit n) = n" "\<not> isspaceC (hexDigit n)"
    "hexDigit n \<noteq> CHR ''-''" "hexDigit n \<noteq> CHR ''+''" "hexDigit n \<noteq> CHR ''x''" "hexDigit n \<noteq> CHR ''X''" by auto
qed

lemma nibbles: "unat (b :: u8) div 16 < 16" "unat b mod 16 < 16" "16 * (unat b div 16) + unat b mod 16 = unat b"
  using unat_byte [of b] by simp_all

lemma stoul16_hexByte: "stoul16 (hexByte b) = Some (of_nat (unat b), 2)"
proof -
  note facts = hexDigit_facts [OF nibbles(1) [of b]] hexDigit_facts [OF nibbles(2) [of b]]
  have "unat b < 2 ^ 64" using unat_byte [of b] by simp
  then show ?thesis using nibbles(3) [of b] by (simp add: stoul16_def hexByte_def facts Let_def)
qed

lemma rawByte_hexByte: "rawByte (hexByte b) = Some b"
proof -
  have "unat b \<le> 255" using unat_byte [of b] by simp
  moreover from this have "unat (of_nat (unat b) :: u64) = unat b" by (simp only: unat_of_nat) simp
  ultimately have "\<not> (0xff :: u64) < of_nat (unat b)" by (simp only: word_less_nat_alt) simp
  moreover have "(ucast (of_nat (unat b) :: u64) :: u8) = b"
    by (rule bit_word_eqI) (auto simp: bit_simps)
  moreover have "length (hexByte b) = 2" by (simp add: hexByte_def)
  ultimately show ?thesis by (simp add: rawByte_def stoul16_hexByte del: of_nat_unat)
qed

lemma rawPayload_hexBytes: "rawPayload (map hexByte p) = Some p"
  by (induction p) (simp_all add: rawByte_hexByte)

text \<open>Other spellings of a byte, and two that are none. A negative number counts modulo \<open>2 ^ 64\<close>.\<close>

lemma rawByte_samples:
  "rawByte ''3e'' = Some 0x3e" "rawByte ''0X3E'' = Some 0x3e" "rawByte ''7'' = Some 7"
  "rawByte ''-ffffffffffffff01'' = Some 0xff" "rawByte ''100'' = None" "rawByte ''0x'' = None" "rawByte ''-1'' = None"
  by (simp_all add: rawByte_def stoul16_def isspaceC_def isxdigitC_def hexVal_def Let_def)

lemma hexByte_word: "hexByte b \<noteq> [] \<and> list_all (Not \<circ> isspaceC) (hexByte b)"
  using hexDigit_facts(3) [OF nibbles(1)] hexDigit_facts(3) [OF nibbles(2)] by (simp add: hexByte_def)

text \<open>Every payload can be sent: the line \<open>raw\<close> with its bytes in hexadecimal is read back as
  exactly that payload.\<close>

theorem raw_line_roundtrip:
  "ic_type (parseCommand (joinTokens (''raw'' # map hexByte p))) = Raw \<and>
   rawPayload (ic_args (parseCommand (joinTokens (''raw'' # map hexByte p)))) = Some p"
proof -
  have "list_all (\<lambda>t. t \<noteq> [] \<and> list_all (Not \<circ> isspaceC) t) (''raw'' # map hexByte p)"
  proof -
    have "list_all (Not \<circ> isspaceC) ''raw''" by code_simp
    then show ?thesis using hexByte_word by (simp add: list_all_iff)
  qed
  from split_join [OF this] have tokens: "splitTokens (joinTokens (''raw'' # map hexByte p)) = ''raw'' # map hexByte p" .
  have "commandType (''raw'' # xs) = Raw" for xs by (simp add: commandType_def toLower_def) code_simp
  with tokens show ?thesis by (simp add: parseCommand_def rawPayload_hexBytes)
qed

section \<open>The two builds\<close>

text \<open>The Release build refuses \<open>raw\<close> without touching service or device; a Debug build with no
  device connected does nothing either, and neither connects for it in the same way.\<close>

lemma release_refuses_raw:
  "ic_type cmd = Raw \<Longrightarrow> \<exists>r. ipc_execute S E cmd s = (Inr r, s) \<and> \<not> ir_success r"
  by (simp add: ipc_execute_def needsConfirmation_def respond_def)

lemma debug_raw_needs_device:
  "ic_type cmd = Raw \<Longrightarrow> is_activeDevice S s = None \<or> \<not> device_isConnected E (the (is_activeDevice S s)) \<Longrightarrow>
   \<exists>r. debug_execute S E cmd s = (Inr r, s) \<and> \<not> ir_success r"
  by (auto simp: debug_execute_def prog_simps respond_def split: option.split)

lemma builds_agree:
  "ic_type cmd \<noteq> Raw \<Longrightarrow> debug_execute S E cmd = ipc_execute S E cmd"
  by (simp add: debug_execute_def)

section \<open>What the guards were for\<close>

text \<open>On a WH-1000XM4, which speaks V1, \<open>raw 22 00\<close> powers the headset off; no operation of the
  Release build sends this.\<close>

definition rawEnv :: "FakeTransport Env" where
  "rawEnv = \<lparr>en_T = fake_ops, en_polls = \<lambda>_. 0, en_clock = \<lambda>n. int n\<rparr>"

definition rawDevice :: "FakeTransport Device" where
  "rawDevice = snd (device_connect rawEnv ''a'' ''WH-1000XM4'' (newDevice (Some FakeTransport_new) V1))"

lemma raw_skips_guards:
  "let x = last (dv_sent (snd (device_sendRaw rawEnv [0x22, 0] rawDevice)))
   in pf_protocol (fst x) = V1 \<and> snd x = [0x22, 0] \<and> \<not> v1Safe (snd x)"
  by code_simp

end
