(* ===== verification/Spec2Isabelle.thy ===== *)
theory Spec2Isabelle
  imports Prelude FrameCodec StreamParser Transport Link Session SessionSpec SessionConcurrency
    ReaderThread DeviceState IProtocol ProtocolV1 ProtocolV2 EqualizerPresets DeviceProfile Dispatcher SonyDevice
    IDeviceService DeviceService IpcProtocol JsonProtocol UnixSocket IpcServer ServerLifecycle Daemon
    IpcClient CommandLine Sonyd Connector LinuxConnector WindowsConnector MacConnector Platform Capability Logger
    LegacyWire ByteMagic Headphones LegacyValues DebugBuild
begin

text \<open>
  A model of sony-wh-cli, which controls Sony headphones over Bluetooth: a daemon holds the
  headset's only control link, clients send it commands over a Unix socket. The theories
  follow the layers of the program, from the bytes on the link up to the daemon; paths are
  those under src/libs.

  The bytes on the link.
  \<^item> \<open>FrameCodec\<close> (sony-protocol/src/FrameCodec.cpp, DataType.h, SonyFrame.h): escaping, the
    checksum, encoding and decoding of frames, on 8-bit words, every error a value of a sum.
    Decoding inverts encoding, accepts just the encodings (trailing bytes apart), detects
    every single corrupted byte, and encoded frames keep the size bound.
  \<^item> \<open>StreamParser\<close> (\<open>_parseStream\<close> of sony-protocol/src/SonyProtocolSession.cpp): frames out of
    a byte stream. However the stream is cut into reads the same frames come out, and damage
    costs one frame only.
  \<^item> \<open>Transport\<close> (sony-transport: ITransport.h, FakeTransport.cpp, DiscoveredDevice.h): the
    transport interface as a record of operations, \<open>transport_laws\<close> the contract that callers
    rely on, the fake transport and the fake discovery, an instance of it.
  \<^item> \<open>Link\<close>: the byte traffic of a transport as a proof device, what was delivered and what
    was sent.

  The session, one conversation with a headset.
  \<^item> \<open>Session\<close> (SonyProtocolSession.cpp): the reader, acknowledgements, \<open>send\<close>,
    \<open>sendAndAwaitResponse\<close>, callbacks, connecting and disconnecting. A block under the mutex is
    one step. A call that waits gives the reader \<open>polls\<close> iterations before its time is up;
    theorems that promise an answer say how many are enough: one for each byte (or read) that
    the transport still holds, since a read that delivers consumes one at least.
  \<^item> \<open>SessionSpec\<close>: the reader abstracted to the frames that were transmitted, the liveness of
    send and request, acknowledgement and routing of every frame.
  \<^item> \<open>SessionConcurrency\<close>: callers, reader, disconnects and reconnects in any interleaving, as
    an inductive step relation; its invariants; the calls of \<open>Session\<close> as runs of it. There a
    new connection finds the old reader gone.
  \<^item> \<open>ReaderThread\<close> (\<open>_startReader\<close>, \<open>_stopReader\<close>, \<open>_readerLoop\<close>, and what uses them): when that is
    so. The owner's operations as instructions, the reader as a program counter, callbacks that may
    disconnect: no thread handle is assigned or destroyed while joinable, one reader lives at a
    time, a join ends within a bound on the reader's steps, and alone the instructions do what the
    operations of \<open>Session\<close> do. Where a restarted session keeps frames of the old
    connection, and where a callback ends the process, a lemma shows the run.

  The headset's language.
  \<^item> \<open>DeviceState\<close> (SemanticTypes.h, DeviceState.h, DeviceEvents.h): what a headset reports.
  \<^item> \<open>IProtocol\<close> (IProtocol.h, ProtocolHelpers.h): the interface of a protocol generation as a
    record of operations; the locale there says what a device relies on.
  \<^item> \<open>ProtocolV1\<close>, \<open>ProtocolV2\<close> (ProtocolV1.cpp, ProtocolV2.cpp): every command of the two
    generations over the session, and round trips of their encodings.
  \<^item> \<open>EqualizerPresets\<close>, \<open>DeviceProfile\<close> (EqualizerPresets.cpp, DeviceProfileRegistry.cpp):
    the tables, their lookups, which model may be reset.
  \<^item> \<open>Dispatcher\<close> (DeviceEventDispatcher.cpp): listeners, dispatch, the notification parser,
    and its agreement with the getters of V2.

  The device and the service.
  \<^item> \<open>SonyDevice\<close> (sony-core/src/SonyDevice.cpp): the cached state of a headset, every
    operation with its feature marks and events; what may ever be sent to which model.
  \<^item> \<open>IDeviceService\<close> (IDeviceService.h): the service interface as a record of operations, with
    the laws, a locale, that the text protocol, the JSON protocol and the server rely on.
  \<^item> \<open>DeviceService\<close> (DeviceService.cpp): discovery and its order, connecting, the tick with
    maintenance and reconnection, as programs on the service's state; the invariant that ties
    the reported state to the device; the interpretation of the service interface.

  The daemon.
  \<^item> \<open>IpcProtocol\<close> (IpcProtocol.cpp): text commands and responses, a refinement to at most one
    device call.
  \<^item> \<open>JsonProtocol\<close> (JsonProtocol.cpp): JSON requests, their checks, answers with their types.
  \<^item> \<open>UnixSocket\<close> (UnixSocket.h): results of the system's calls, files as \<open>lstat\<close> shows them,
    which socket path is trusted.
  \<^item> \<open>IpcServer\<close> (IpcServer.cpp): clients, job queue and executor as an inductive step
    relation, with invariants of every interleaving. \<open>ServerLifecycle\<close> is its start and stop:
    lock file and socket are taken whole or not at all.
  \<^item> \<open>Daemon\<close> (the whole, as sonyd.cpp composes it): the server on the service on the device,
    with the headset's reader working at any time, and what holds of every run.
  \<^item> \<open>IpcClient\<close> (IpcClient.cpp): a request with its deadline, as programs that may not return; on
    a steady system they do.
  \<^item> \<open>CommandLine\<close> (main.cpp and the arguments of sonyd.cpp): what the command line makes of its
    arguments, and that it asks before it wipes. \<open>Sonyd\<close> (sonyd.cpp): the main function of the daemon,
    which ends when it is signalled and leaves nothing behind.
  \<^item> \<open>DebugBuild\<close> (the \<open>SONY_ENABLE_RAW\<close> blocks of IpcProtocol.cpp, IpcServer.cpp, SonyDevice.cpp): the
    command \<open>raw\<close>, how its bytes are read, and that it passes the guards that the rest proves of
    the Release build.

  Beside the layers.
  \<^item> \<open>Connector\<close> (BluetoothConnectorTransport.cpp, TransportBluetoothConnector.cpp,
    PlatformTransport.cpp): the older interface of the platform code, a record with a locale of laws,
    and the adapters to the transport and back; either contract gives the other.
  \<^item> \<open>LinuxConnector\<close> (legacy/linux): what is read from the answers of BlueZ and of the headset's service
    search, and the connector below the daemon, an instance of the contract; and what its descriptors
    come to under the device. \<open>WindowsConnector\<close> (legacy/windows): its counterpart, which keeps the
    contract as long as a connected connector has a socket; and when WinSock is started.
    \<open>MacConnector\<close> (legacy/macos): a connection with its delegate and thread. Its reads lose nothing, it
    keeps the contract where the channel is open in time, and lemmas show what happens where not, to
    old bytes, to failed writes, and to a connector that is destroyed after a failed attempt.
  \<^item> \<open>Platform\<close> (PlatformTransport.cpp): what each build's transport and discovery are, and that the
    results on sessions and readers hold on the transport of Linux, and on that of macOS.
  \<^item> \<open>Capability\<close> (CapabilityCache.cpp, CapabilityDiscovery.cpp): the cache, its file and its
    mutex, and the probing of unknown headsets, over the interface of \<open>IProtocol\<close>.
  \<^item> \<open>Logger\<close> (Logger.cpp): levels, sinks, and the texts for frames, compared with the decoders.
  \<^item> \<open>LegacyWire\<close>, \<open>ByteMagic\<close>, \<open>Headphones\<close> (sony-transport/legacy): the older client. A request
    finds its answer among sixteen messages however they are cut; addresses survive their text;
    \<open>setChanges\<close> leaves nothing to push; and where this code lacks what the library has, such as the guard
    before the opcode that powers a V1 headset off, a lemma says so.
  \<^item> \<open>LegacyValues\<close> (legacy/Constants.h, SingleInstanceFuture.h, the getters of Headphones.cpp): the older
    client's enumerations and identifiers, their agreement with the newer tables, what its getters
    read, and its one call at a time.

  \<open>Prelude\<close> holds the errors (SonyError.h), the state-and-exception programs \<open>prog\<close> in which
  the operations are written, the character functions and integer parsing of the C library,
  and the lemmas on lists, options and words that the others share.

  Assumptions. Machine integers keep their width where the code computes in it; \<open>int\<close> stands
  for the 32-bit \<open>int\<close> of values that stay in a small range. Strings are byte strings. Log output
  is left out. The clock, the discovery of paired devices, the transport below \<open>ITransport\<close>
  (that of Linux is an instance) and the JSON library's parser and printer are parameters; what
  is relied on of them is in \<open>transport_laws\<close> and in the hypotheses of the theorems that need it
  (a clock that does not run backwards, for the back-off). The order in which a handler map is traversed is left open.

  The system's calls answer with data: scripts of results for the server and the client, a file
  that can or cannot be written for the cache, given reads for the older client. Programs that may
  not return (the client's waits, a mutex locked twice, a connector that keeps delivering nothing)
  give \<open>None\<close> then, and theorems that promise a result prove that it is there.

  Not modelled: the log lines of the other parts, \<open>discoverAsync\<close>, which only runs \<open>discover\<close> on a
  thread of its own, moves of the older client's wrapper, and on Windows the conversion of names from
  wide strings and the closing of the socket by the destructor.
\<close>

end
